(* ===== verification/Prelude.thy ===== *)
theory Prelude
  imports Main
begin

text \<open>
  What every component of the development shares: the errors the Python code can end in,
  results as sums (\<open>Inl\<close> an error, \<open>Inr\<close> a value), the loop that stops at the first
  error, Python's decimal rendering of integers, and generic lemmas on lists.
\<close>

section \<open>Errors and results\<close>

text \<open>
  One constructor per way the modelled code stops: Python's own exceptions, the exceptions
  the DuckDB driver raises (catalog, binder, constraint/conversion), and the plain
  \<open>Exception(message)\<close> the exporter raises itself.
\<close>

datatype py_error =
    ValueError
  | TypeError
  | NameError string
  | AttributeError string
  | ZeroDivisionError
  | StructError
  | AssertionError
  | PlainException string
  | TimeoutExpired
  | ConnectionClosed
  | OSError
  | CatalogError string
  | BinderError string
  | ConstraintError string
  | ConversionError

type_synonym 'a result = "py_error + 'a"

definition bind_res :: "'a result \<Rightarrow> ('a \<Rightarrow> 'b result) \<Rightarrow> 'b result" where
  "bind_res r f = (case r of Inl e \<Rightarrow> Inl e | Inr x \<Rightarrow> f x)"

named_theorems result_simps

lemma bind_res_simps [simp, result_simps]:
  "bind_res (Inl e) f = Inl e"
  "bind_res (Inr x) f = f x"
  by (simp_all add: bind_res_def)

lemma bind_res_Inr_iff [result_simps]:
  "bind_res r f = Inr y \<longleftrightarrow> (\<exists>x. r = Inr x \<and> f x = Inr y)"
  by (cases r) (simp_all add: bind_res_def)

fun map_res :: "('a \<Rightarrow> 'b result) \<Rightarrow> 'a list \<Rightarrow> 'b list result" where
  "map_res f [] = Inr []"
| "map_res f (x # xs) = bind_res (f x) (\<lambda>y. bind_res (map_res f xs) (\<lambda>ys. Inr (y # ys)))"

lemma map_res_Inr_iff:
  "map_res f xs = Inr ys \<longleftrightarrow> list_all2 (\<lambda>x y. f x = Inr y) xs ys"
  by (induction xs arbitrary: ys) (auto simp: bind_res_Inr_iff list_all2_Cons1)

lemma map_res_length: "map_res f xs = Inr ys \<Longrightarrow> length ys = length xs"
  by (auto simp: map_res_Inr_iff dest: list_all2_lengthD)

lemma map_res_total: "(\<And>x. x \<in> set xs \<Longrightarrow> f x = Inr (g x)) \<Longrightarrow> map_res f xs = Inr (map g xs)"
  by (induction xs) auto

lemma map_res_exists: "(\<And>x. x \<in> set xs \<Longrightarrow> \<exists>y. f x = Inr y) \<Longrightarrow> \<exists>ys. map_res f xs = Inr ys"
proof (induction xs)
  case Nil
  then show ?case by simp
next
  case (Cons x xs)
  then obtain y ys where "f x = Inr y" "map_res f xs = Inr ys" by force
  then show ?case by simp
qed

fun fold_res :: "('a \<Rightarrow> 's \<Rightarrow> 's result) \<Rightarrow> 'a list \<Rightarrow> 's \<Rightarrow> 's result" where
  "fold_res f [] s = Inr s"
| "fold_res f (x # xs) s = bind_res (f x s) (fold_res f xs)"

lemma fold_res_append:
  "fold_res f (xs @ ys) s = bind_res (fold_res f xs s) (fold_res f ys)"
  by (induction xs arbitrary: s) (auto simp: bind_res_def split: sum.splits)

lemma fold_res_invariant:
  assumes "fold_res f xs s = Inr t" and "P s"
    and "\<And>x s t. x \<in> set xs \<Longrightarrow> P s \<Longrightarrow> f x s = Inr t \<Longrightarrow> P t"
  shows "P t"
  using assms
proof (induction xs arbitrary: s)
  case Nil
  then show ?case by simp
next
  case (Cons x xs)
  from Cons.prems(1) obtain u where u: "f x s = Inr u" "fold_res f xs u = Inr t"
    by (auto simp: bind_res_Inr_iff)
  have "P u"
    by (rule Cons.prems(3) [OF _ Cons.prems(2) u(1)]) simp
  then show ?case
    using Cons.IH [OF u(2)] Cons.prems(3) by auto
qed

section \<open>Decimal rendering of Python integers\<close>

text \<open>\<open>str(n)\<close> and \<open>"{}".format(n)\<close> of an \<open>int\<close>.\<close>

definition digit_char :: "nat \<Rightarrow> char" where
  "digit_char n = char_of (48 + n)"

fun str_nat :: "nat \<Rightarrow> string" where
  "str_nat n = (if n < 10 then [digit_char n] else str_nat (n div 10) @ [digit_char (n mod 10)])"

declare str_nat.simps [simp del]

definition str_int :: "int \<Rightarrow> string" where
  "str_int i = (if i < 0 then CHR ''-'' # str_nat (nat (- i)) else str_nat (nat i))"

fun read_nat :: "nat \<Rightarrow> string \<Rightarrow> nat" where
  "read_nat a [] = a"
| "read_nat a (c # cs) = read_nat (10 * a + (of_char c - 48)) cs"

lemma read_nat_append: "read_nat a (xs @ ys) = read_nat (read_nat a xs) ys"
  by (induction xs arbitrary: a) auto

lemma of_char_digit: "n < 10 \<Longrightarrow> of_char (digit_char n) = (48 + n :: nat)"
  by (simp add: digit_char_def)

lemma read_str_nat: "read_nat 0 (str_nat n) = n"
proof (induction n rule: str_nat.induct)
  case (1 n)
  show ?case
  proof (cases "n < 10")
    case True
    then show ?thesis by (simp add: str_nat.simps [of n] of_char_digit)
  next
    case False
    then show ?thesis
      using "1.IH" by (simp add: str_nat.simps [of n] read_nat_append of_char_digit)
  qed
qed

lemma str_nat_digits: "c \<in> set (str_nat n) \<Longrightarrow> \<exists>d<10. c = digit_char d"
proof (induction n rule: str_nat.induct)
  case (1 n)
  show ?case
  proof (cases "n < 10")
    case True
    with "1.prems" show ?thesis by (auto simp: str_nat.simps [of n])
  next
    case False
    with "1.prems" consider "c \<in> set (str_nat (n div 10))" | "c = digit_char (n mod 10)"
      by (auto simp: str_nat.simps [of n])
    then show ?thesis
      using "1.IH" False by cases (auto intro: exI [of _ "n mod 10"])
  qed
qed

lemma digit_char_code: "d < 10 \<Longrightarrow> of_char (digit_char d) \<in> {48..<58::nat}"
  by (simp add: of_char_digit)

lemma str_nat_no_minus: "CHR ''-'' \<notin> set (str_nat n)"
proof
  assume "CHR ''-'' \<in> set (str_nat n)"
  then obtain d where "d < 10" "CHR ''-'' = digit_char d" by (auto dest: str_nat_digits)
  then have "of_char (CHR ''-'') \<in> {48..<58::nat}" using digit_char_code by metis
  then show False by simp
qed

lemma str_nat_inj: "str_nat m = str_nat n \<Longrightarrow> m = n"
  by (metis read_str_nat)

lemma str_nat_nonempty: "str_nat n \<noteq> []"
  by (subst str_nat.simps) auto

lemma str_int_inj: "str_int i = str_int j \<Longrightarrow> i = j"
  unfolding str_int_def
  by (auto split: if_splits dest: str_nat_inj)
    (metis list.set_intros(1) str_nat_no_minus)+

text \<open>No character of a rendered integer is an underscore: names built with it parse back.\<close>

lemma str_int_no_underscore: "CHR ''_'' \<notin> set (str_int i)"
proof
  assume "CHR ''_'' \<in> set (str_int i)"
  then have "CHR ''_'' \<in> set (str_nat (nat \<bar>i\<bar>))"
    by (auto simp: str_int_def split: if_splits)
  then obtain d where "d < 10" "CHR ''_'' = digit_char d" by (auto dest: str_nat_digits)
  then have "of_char (CHR ''_'') \<in> {48..<58::nat}" using digit_char_code by metis
  then show False by simp
qed

section \<open>Lists\<close>

text \<open>Python's slice \<open>xs[i:j]\<close> for \<open>0 <= i\<close>: it never raises, it stops at the end.\<close>

definition py_slice :: "nat \<Rightarrow> nat \<Rightarrow> 'a list \<Rightarrow> 'a list" where
  "py_slice i j xs = take (j - i) (drop i xs)"

lemma length_py_slice: "length (py_slice i j xs) = min (j - i) (length xs - i)"
  by (auto simp: py_slice_def)

lemma map_py_slice: "map f (py_slice i j xs) = py_slice i j (map f xs)"
  by (simp add: py_slice_def take_map drop_map)

end
