(* ===== verification/Export_Args.thy ===== *)
theory Export_Args
  imports Prelude "HOL-Library.Multiset"
begin

text \<open>
  The command line of \<open>export_to_duckdb.py\<close> and the checks before the database is made:
  the module-level code from the first test of \<open>sys.argv\<close> to \<open>duckdb.connect\<close>. Whether a
  file of the given name can be opened is an argument (\<open>can_open\<close>). Printing is not modelled.
\<close>

record export_config =
  dbname :: string
  columns :: string
  branches :: bool
  perf_db_export_calls :: bool
  perf_db_export_callchains :: bool

text \<open>\<open>usage\<close> prints the help text and always raises.\<close>

definition usage :: "'a result" where
  "usage = Inl (PlainException ''Too few or bad arguments'')"

text \<open>The loop over \<open>sys.argv[3:]\<close>; the two flags are module globals, \<open>False\<close> at the start.\<close>

fun parse_flags :: "string list \<Rightarrow> export_config \<Rightarrow> export_config result" where
  "parse_flags [] cfg = Inr cfg"
| "parse_flags (a # as) cfg =
     (if a = ''calls'' then parse_flags as (cfg\<lparr>perf_db_export_calls := True\<rparr>)
      else if a = ''callchains'' then parse_flags as (cfg\<lparr>perf_db_export_callchains := True\<rparr>)
      else if a = ''pyside-version-1'' then parse_flags as cfg
      else usage)"

definition parse_args :: "string list \<Rightarrow> export_config result" where
  "parse_args argv =
     (if length argv < 2 then usage
      else let cols = (if 3 \<le> length argv then argv ! 2 else ''all'') in
        if cols \<notin> {''all'', ''branches''} then usage
        else parse_flags (drop 3 argv)
          \<lparr>dbname = argv ! 1, columns = cols, branches = (cols = ''branches''),
           perf_db_export_calls = False, perf_db_export_callchains = False\<rparr>)"

text \<open>The guard against overwriting: a name that can be opened is refused.\<close>

definition start_export :: "(string \<Rightarrow> bool) \<Rightarrow> string list \<Rightarrow> export_config result" where
  "start_export can_open argv =
     bind_res (parse_args argv) (\<lambda>cfg.
       if can_open (dbname cfg) then Inl (PlainException (dbname cfg @ '' already exists''))
       else Inr cfg)"

lemma parse_flags_eq:
  "parse_flags as cfg =
     (if set as \<subseteq> {''calls'', ''callchains'', ''pyside-version-1''}
      then Inr (cfg\<lparr>perf_db_export_calls := perf_db_export_calls cfg \<or> ''calls'' \<in> set as,
                     perf_db_export_callchains := perf_db_export_callchains cfg \<or> ''callchains'' \<in> set as\<rparr>)
      else usage)"
  by (induction as arbitrary: cfg) auto

text \<open>The exporter starts exactly when it is given a database name, the columns argument (if
  any) is \<open>all\<close> or \<open>branches\<close>, every further argument is a known flag and the database does not
  exist yet; otherwise it raises before touching the database. The configuration it starts with is
  determined by which arguments are present, not by their order or repetition.\<close>

theorem start_export_iff:
  "start_export can_open argv = Inr cfg \<longleftrightarrow>
     2 \<le> length argv
     \<and> (3 \<le> length argv \<longrightarrow> argv ! 2 \<in> {''all'', ''branches''})
     \<and> set (drop 3 argv) \<subseteq> {''calls'', ''callchains'', ''pyside-version-1''}
     \<and> \<not> can_open (argv ! 1)
     \<and> cfg = \<lparr>dbname = argv ! 1,
              columns = (if 3 \<le> length argv then argv ! 2 else ''all''),
              branches = (3 \<le> length argv \<and> argv ! 2 = ''branches''),
              perf_db_export_calls = (''calls'' \<in> set (drop 3 argv)),
              perf_db_export_callchains = (''callchains'' \<in> set (drop 3 argv))\<rparr>"
  by (auto simp: start_export_def parse_args_def Let_def parse_flags_eq usage_def bind_res_Inr_iff
      split: if_splits)

theorem start_export_iff_witness:
  "start_export (\<lambda>f. f = ''old.db'') [''export'', ''new.db'', ''branches'', ''calls''] = Inr
     \<lparr>dbname = ''new.db'', columns = ''branches'', branches = True,
      perf_db_export_calls = True, perf_db_export_callchains = False\<rparr>"
  by (subst start_export_iff) simp

end
