(* ===== verification/Rounding.thy ===== *)
theory Rounding
  imports Prelude "HOL-Library.Log_Nat" Complex_Main
begin

text \<open>
  Floating-point numbers as the rationals they denote. \<open>rnd p\<close> rounds to the nearest number
  with a \<open>p\<close>-bit significand, ties to even: \<open>rnd 53\<close> is the rounding of Python's and numpy's
  \<open>float\<close> (binary64), \<open>rnd 24\<close> that of SQL's REAL (binary32). The exponent is unbounded, so
  overflow, subnormals, infinities and NaN are outside the model: every value the program
  computes lies far inside both exponent ranges.

  The locale \<open>rounding\<close> is what the numeric code relies on; it is interpreted on both
  widths and on exact arithmetic.
\<close>

section \<open>The interface\<close>

locale rounding =
  fixes fl :: "rat \<Rightarrow> rat" and bound :: int
  assumes fl_mono: "x \<le> y \<Longrightarrow> fl x \<le> fl y"
    and fl_int: "\<bar>i\<bar> \<le> bound \<Longrightarrow> fl (of_int i) = of_int i"
    and bound_pos: "1 \<le> bound"
begin

lemma fl_zero: "fl 0 = 0"
  using fl_int [of 0] bound_pos by simp

lemma fl_one: "fl 1 = 1"
  using fl_int [of 1] bound_pos by simp

lemma fl_nonneg: "0 \<le> x \<Longrightarrow> 0 \<le> fl x"
  using fl_mono [of 0 x] by (simp add: fl_zero)

lemma fl_le_int: "x \<le> of_int i \<Longrightarrow> \<bar>i\<bar> \<le> bound \<Longrightarrow> fl x \<le> of_int i"
  using fl_mono [of x "of_int i"] by (simp add: fl_int)

lemma fl_ge_int: "of_int i \<le> x \<Longrightarrow> \<bar>i\<bar> \<le> bound \<Longrightarrow> of_int i \<le> fl x"
  using fl_mono [of "of_int i" x] by (simp add: fl_int)

lemma fl_unit: "0 \<le> x \<Longrightarrow> x \<le> 1 \<Longrightarrow> 0 \<le> fl x \<and> fl x \<le> 1"
  using fl_mono [of 0 x] fl_mono [of x 1] by (simp add: fl_zero fl_one)

end

text \<open>A rounding with a relative error bound.\<close>

locale rounding_error = rounding +
  fixes eps :: rat
  assumes fl_error: "\<bar>fl x - x\<bar> \<le> eps * \<bar>x\<bar>"
begin

lemma fl_upper: "0 \<le> x \<Longrightarrow> fl x \<le> (1 + eps) * x"
  using fl_error [of x] by (simp add: algebra_simps abs_le_iff)

lemma fl_lower: "0 \<le> x \<Longrightarrow> (1 - eps) * x \<le> fl x"
  using fl_error [of x] by (simp add: algebra_simps abs_le_iff)

end

section \<open>Round to the nearest integer, ties to even\<close>

definition rne :: "rat \<Rightarrow> int" where
  "rne y = (let f = \<lfloor>y\<rfloor>; d = y - of_int f in
     if d < 1/2 then f else if 1/2 < d then f + 1 else if even f then f else f + 1)"

lemma rne_int [simp]: "rne (of_int i) = i"
  by (simp add: rne_def Let_def)

lemma rne_error: "\<bar>of_int (rne y) - y\<bar> \<le> 1/2"
proof -
  have "of_int \<lfloor>y\<rfloor> \<le> y" "y < of_int \<lfloor>y\<rfloor> + 1" by linarith+
  then show ?thesis unfolding rne_def Let_def by (simp add: abs_le_iff)
qed

lemma rne_between: "\<lfloor>y\<rfloor> \<le> rne y \<and> rne y \<le> \<lfloor>y\<rfloor> + 1"
  by (simp add: rne_def Let_def)

lemma rne_mono:
  assumes "x \<le> y"
  shows "rne x \<le> rne y"
proof (cases "\<lfloor>x\<rfloor> = \<lfloor>y\<rfloor>")
  case True
  then show ?thesis using assms by (auto simp: rne_def Let_def)
next
  case False
  then have "\<lfloor>x\<rfloor> + 1 \<le> \<lfloor>y\<rfloor>" using floor_mono [OF assms] by linarith
  then show ?thesis using rne_between [of x] rne_between [of y] by linarith
qed

lemma rne_nonneg: "0 \<le> y \<Longrightarrow> 0 \<le> rne y"
  using rne_mono [of 0 y] rne_int [of 0] by simp

section \<open>The binary exponent of a positive rational\<close>

definition expo :: "rat \<Rightarrow> int" where
  "expo x = (if 1 \<le> x then bitlen \<lfloor>x\<rfloor> - 1 else - bitlen (\<lceil>1 / x\<rceil> - 1))"

lemma bitlen_positive: "0 < n \<Longrightarrow> 0 < bitlen n"
  using bitlen_bounds [of n] by (cases "0 < bitlen n") auto

lemma expo_bounds_ge1:
  assumes "1 \<le> x"
  shows "2 powi expo x \<le> x \<and> x < 2 powi (expo x + 1)"
proof -
  let ?n = "\<lfloor>x\<rfloor>"
  have n: "0 < ?n" using assms by simp
  then have b: "2 ^ nat (bitlen ?n - 1) \<le> ?n" "?n < 2 ^ nat (bitlen ?n)"
    using bitlen_bounds [OF n] by auto
  have pos: "0 < bitlen ?n" using n by (rule bitlen_positive)
  have "2 powi expo x = (of_int (2 ^ nat (bitlen ?n - 1)) :: rat)"
    using assms pos by (simp add: expo_def power_int_def)
  also have "\<dots> \<le> of_int ?n" using b(1) by (simp only: of_int_le_iff)
  also have "\<dots> \<le> x" by simp
  finally have l: "2 powi expo x \<le> x" .
  have "x < of_int (?n + 1)" by linarith
  also have "\<dots> \<le> of_int (2 ^ nat (bitlen ?n))" using b(2) by (simp only: of_int_le_iff)
  also have "\<dots> = 2 powi (expo x + 1)"
    using assms pos by (simp add: expo_def power_int_def)
  finally show ?thesis using l by simp
qed

lemma expo_bounds_lt1:
  assumes "0 < x" "x < 1"
  shows "2 powi expo x \<le> x \<and> x < 2 powi (expo x + 1)"
proof -
  let ?m = "\<lceil>1 / x\<rceil>" and ?k = "nat (bitlen (\<lceil>1 / x\<rceil> - 1))"
  have "1 < 1 / x" using assms by simp
  then have m: "1 < ?m" by linarith
  then have b: "2 ^ nat (bitlen (?m - 1) - 1) \<le> ?m - 1" "?m - 1 < 2 ^ ?k"
    using bitlen_bounds [of "?m - 1"] by auto
  have pos: "0 < bitlen (?m - 1)" using m by (intro bitlen_positive) simp
  have "1 / x \<le> of_int ?m" by simp
  also have "\<dots> \<le> of_int (2 ^ ?k)" using b(2) by (simp only: of_int_le_iff)
  finally have "1 / 2 ^ ?k \<le> x" using assms by (simp add: field_simps)
  then have l: "2 powi expo x \<le> x"
    using assms pos by (simp add: expo_def power_int_def field_simps)
  have "(2 ^ (?k - 1) :: rat) = of_int (2 ^ nat (bitlen (?m - 1) - 1))"
    using pos by (simp add: nat_diff_distrib)
  also have "\<dots> \<le> of_int (?m - 1)" using b(1) by (simp only: of_int_le_iff)
  also have "\<dots> < 1 / x" by linarith
  finally have "x < 1 / 2 ^ (?k - 1)" using assms by (simp add: field_simps)
  moreover have "2 powi (expo x + 1) = 1 / (2 ^ (?k - 1) :: rat)"
    using assms pos by (simp add: expo_def power_int_def field_simps nat_diff_distrib)
  ultimately show ?thesis using l by simp
qed

lemma expo_bounds: "0 < x \<Longrightarrow> 2 powi expo x \<le> x \<and> x < 2 powi (expo x + 1)"
  using expo_bounds_ge1 expo_bounds_lt1 by (cases "1 \<le> x") auto

lemma powi2_less_iff: "(2::rat) powi a < 2 powi b \<longleftrightarrow> a < b"
  using power_int_strict_increasing [of a b "2::rat"] power_int_increasing [of b a "2::rat"]
  by (cases "a < b") auto

lemma powi2_le_iff: "(2::rat) powi a \<le> 2 powi b \<longleftrightarrow> a \<le> b"
  by (simp add: powi2_less_iff flip: linorder_not_less)

lemma expo_mono:
  assumes "0 < x" "x \<le> y"
  shows "expo x \<le> expo y"
proof -
  have "2 powi expo x < (2::rat) powi (expo y + 1)"
    using expo_bounds [of x] expo_bounds [of y] assms by linarith
  then show ?thesis by (simp add: powi2_less_iff)
qed

lemma expo_less: "0 < x \<Longrightarrow> x < 2 powi k \<Longrightarrow> expo x < k"
  using expo_bounds [of x] powi2_less_iff [of "expo x" k] by linarith

section \<open>Rounding to \<open>p\<close> bits\<close>

definition ulp :: "nat \<Rightarrow> rat \<Rightarrow> rat" where
  "ulp p x = 2 powi (expo x - int p + 1)"

definition rnd_pos :: "nat \<Rightarrow> rat \<Rightarrow> rat" where
  "rnd_pos p x = of_int (rne (x / ulp p x)) * ulp p x"

definition rnd :: "nat \<Rightarrow> rat \<Rightarrow> rat" where
  "rnd p x = (if x = 0 then 0 else if 0 < x then rnd_pos p x else - rnd_pos p (- x))"

lemma ulp_pos [simp]: "0 < ulp p x"
  by (simp add: ulp_def)

lemma scaled_bounds:
  assumes "0 < x" "1 \<le> p"
  shows "2 ^ (p - 1) \<le> x / ulp p x" and "x / ulp p x < 2 ^ p"
proof -
  have "2 ^ (p - 1) * ulp p x = (2 powi expo x :: rat)"
    using assms(2) by (simp add: ulp_def flip: power_int_of_nat power_int_add)
  then show "2 ^ (p - 1) \<le> x / ulp p x"
    using expo_bounds [OF assms(1)] by (simp add: pos_le_divide_eq)
  have "2 ^ p * ulp p x = (2 powi (expo x + 1) :: rat)"
    by (simp add: ulp_def flip: power_int_of_nat power_int_add)
  then show "x / ulp p x < 2 ^ p"
    using expo_bounds [OF assms(1)] by (simp add: pos_divide_less_eq)
qed

lemma rnd_pos_ge:
  assumes "0 < x" "1 \<le> p"
  shows "2 powi expo x \<le> rnd_pos p x"
proof -
  have "rne (of_int (2 ^ (p - 1))) \<le> rne (x / ulp p x)"
    by (rule rne_mono) (use scaled_bounds(1) [OF assms] in simp)
  then have "(2::int) ^ (p - 1) \<le> rne (x / ulp p x)" by (simp only: rne_int)
  then have "of_int (2 ^ (p - 1)) \<le> (of_int (rne (x / ulp p x)) :: rat)"
    by (simp only: of_int_le_iff)
  then have "2 ^ (p - 1) * ulp p x \<le> rnd_pos p x"
    by (simp add: rnd_pos_def)
  moreover have "2 ^ (p - 1) * ulp p x = (2 powi expo x :: rat)"
    using assms(2) by (simp add: ulp_def flip: power_int_of_nat power_int_add)
  ultimately show ?thesis by simp
qed

lemma rnd_pos_le:
  assumes "0 < x" "1 \<le> p"
  shows "rnd_pos p x \<le> 2 powi (expo x + 1)"
proof -
  have "rne (x / ulp p x) \<le> rne (of_int (2 ^ p))"
    by (rule rne_mono) (use scaled_bounds(2) [OF assms] in simp)
  then have "rne (x / ulp p x) \<le> (2::int) ^ p" by (simp only: rne_int)
  then have "(of_int (rne (x / ulp p x)) :: rat) \<le> of_int (2 ^ p)"
    by (simp only: of_int_le_iff)
  then have "rnd_pos p x \<le> 2 ^ p * ulp p x"
    by (simp add: rnd_pos_def)
  moreover have "2 ^ p * ulp p x = (2 powi (expo x + 1) :: rat)"
    by (simp add: ulp_def flip: power_int_of_nat power_int_add)
  ultimately show ?thesis by simp
qed

lemma rnd_pos_positive: "0 < x \<Longrightarrow> 1 \<le> p \<Longrightarrow> 0 < rnd_pos p x"
  using rnd_pos_ge [of x p] by (meson less_le_trans zero_less_power_int zero_less_numeral)

lemma rnd_pos_mono:
  assumes "0 < x" "x \<le> y" "1 \<le> p"
  shows "rnd_pos p x \<le> rnd_pos p y"
proof (cases "expo x = expo y")
  case True
  then have "ulp p x = ulp p y" by (simp add: ulp_def)
  moreover have "rne (x / ulp p y) \<le> rne (y / ulp p y)"
    by (rule rne_mono) (use assms(2) ulp_pos [of p y] in \<open>simp add: divide_right_mono less_imp_le\<close>)
  ultimately show ?thesis
    using ulp_pos [of p y] by (simp add: rnd_pos_def)
next
  case False
  then have "expo x + 1 \<le> expo y" using expo_mono [OF assms(1,2)] by simp
  then have "(2::rat) powi (expo x + 1) \<le> 2 powi expo y" by (simp add: powi2_le_iff)
  then show ?thesis
    using rnd_pos_le [of x p] rnd_pos_ge [of y p] assms by linarith
qed

lemma rnd_mono:
  assumes "x \<le> y" "1 \<le> p"
  shows "rnd p x \<le> rnd p y"
proof -
  consider "0 < x" | "x \<le> 0" "0 \<le> y" | "y < 0" by linarith
  then show ?thesis
  proof cases
    case 1
    then show ?thesis using assms by (simp add: rnd_def rnd_pos_mono)
  next
    case 2
    then show ?thesis
      using rnd_pos_positive [of y p] rnd_pos_positive [of "- x" p] assms(2)
      by (auto simp: rnd_def)
  next
    case 3
    then show ?thesis using assms by (simp add: rnd_def rnd_pos_mono)
  qed
qed

lemma rnd_pos_exact:
  assumes "0 < x" "x = of_int m * 2 powi k" "expo x \<le> k + int p - 1"
  shows "rnd_pos p x = x"
proof -
  define n where "n = nat (k - expo x + int p - 1)"
  have "int n = k - expo x + int p - 1" using assms(3) by (simp add: n_def)
  then have "(2::rat) powi k = 2 ^ n * ulp p x"
    by (simp add: ulp_def flip: power_int_of_nat power_int_add)
  then have x: "x = of_int (m * 2 ^ n) * ulp p x"
    using assms(2) by (simp add: mult.assoc)
  then have "x / ulp p x = of_int (m * 2 ^ n)"
    using ulp_pos [of p x] by (metis less_irrefl nonzero_mult_div_cancel_right)
  then have "rnd_pos p x = of_int (m * 2 ^ n) * ulp p x"
    by (simp only: rnd_pos_def rne_int)
  with x show ?thesis by simp
qed

lemma rnd_pos_exact_bits:
  assumes "0 < m" "m \<le> 2 ^ p" "1 \<le> p"
  shows "rnd_pos p (of_int m * 2 powi k) = of_int m * 2 powi k"
proof (cases "m = 2 ^ p")
  case True
  have eq: "of_int m * 2 powi k = (2 powi (k + int p) :: rat)"
    by (simp add: True power_int_add)
  have "expo (2 powi (k + int p)) < k + int p + 1"
    by (rule expo_less) (simp_all add: powi2_less_iff)
  then show ?thesis
    unfolding eq using assms(3) by (intro rnd_pos_exact [where m = 1 and k = "k + int p"]) auto
next
  case False
  then have "m < 2 ^ p" using assms(2) by simp
  then have "(of_int m :: rat) < of_int (2 ^ p)" by (simp only: of_int_less_iff)
  then have "of_int m * 2 powi k < (2 powi (k + int p) :: rat)"
    by (simp add: power_int_add)
  then have "expo (of_int m * 2 powi k) < k + int p"
    using assms(1) by (intro expo_less) auto
  then show ?thesis
    using assms(1) by (intro rnd_pos_exact [where m = m and k = k]) auto
qed

text \<open>Every number with a significand of at most \<open>p\<close> bits is its own rounding.\<close>

lemma rnd_exact_bits:
  assumes "\<bar>m\<bar> \<le> 2 ^ p" "1 \<le> p"
  shows "rnd p (of_int m * 2 powi k) = of_int m * 2 powi k"
proof -
  consider "m = 0" | "0 < m" | "m < 0" by linarith
  then show ?thesis
  proof cases
    case 1
    then show ?thesis by (simp add: rnd_def)
  next
    case 2
    then show ?thesis
      using assms rnd_pos_exact_bits [of m p k] by (simp add: rnd_def)
  next
    case 3
    then have "of_int m * 2 powi k < (0::rat)" by (simp add: mult_neg_pos)
    with 3 show ?thesis
      using assms rnd_pos_exact_bits [of "- m" p k] by (simp add: rnd_def)
  qed
qed

lemma rnd_int: "\<bar>i\<bar> \<le> 2 ^ p \<Longrightarrow> 1 \<le> p \<Longrightarrow> rnd p (of_int i) = of_int i"
  using rnd_exact_bits [of i p 0] by simp

lemma rnd_pos_error:
  assumes "0 < x"
  shows "\<bar>rnd_pos p x - x\<bar> \<le> x / 2 ^ p"
proof -
  let ?u = "ulp p x"
  have "rnd_pos p x - x = (of_int (rne (x / ?u)) - x / ?u) * ?u"
    using ulp_pos [of p x, THEN less_imp_neq] by (simp add: rnd_pos_def left_diff_distrib)
  then have "\<bar>rnd_pos p x - x\<bar> = \<bar>of_int (rne (x / ?u)) - x / ?u\<bar> * ?u"
    using ulp_pos [of p x] by (simp add: abs_mult abs_of_pos)
  also have "\<dots> \<le> 1/2 * ?u"
    by (rule mult_right_mono [OF rne_error]) (simp add: order.strict_implies_order)
  also have "\<dots> = 2 powi expo x / 2 ^ p"
    by (simp add: ulp_def power_int_add power_int_diff)
  also have "\<dots> \<le> x / 2 ^ p"
    using expo_bounds [OF assms] by (simp add: divide_right_mono)
  finally show ?thesis .
qed

lemma rnd_error: "\<bar>rnd p x - x\<bar> \<le> 1 / 2 ^ p * \<bar>x\<bar>"
  using rnd_pos_error [of x p] rnd_pos_error [of "- x" p]
  by (cases "x = 0"; cases "0 < x") (auto simp: rnd_def)

section \<open>The instances\<close>

definition f64 :: "rat \<Rightarrow> rat" where
  "f64 = rnd 53"

definition f32 :: "rat \<Rightarrow> rat" where
  "f32 = rnd 24"

interpretation f64: rounding_error f64 "2 ^ 53" "1 / 2 ^ 53"
  by unfold_locales (auto simp: f64_def rnd_mono rnd_int simp del: power_numeral times_divide_eq_left
      intro: rnd_error)

interpretation f32: rounding_error f32 "2 ^ 24" "1 / 2 ^ 24"
  by unfold_locales (auto simp: f32_def rnd_mono rnd_int simp del: power_numeral times_divide_eq_left
      intro: rnd_error)

interpretation exact: rounding_error "\<lambda>x. x" "2 ^ 64" 0
  by unfold_locales auto

lemma f64_half_exact:
  assumes "\<bar>m\<bar> \<le> 2 ^ 53"
  shows "f64 (of_int m / 2) = of_int m / 2"
proof -
  have half: "rnd 53 (of_int m * 2 powi (- 1)) = of_int m * 2 powi (- 1)"
    using assms by (rule rnd_exact_bits) simp
  have "(2::rat) powi (- 1) = 1 / 2"
    by (simp add: power_int_def)
  with half show ?thesis by (simp only: f64_def times_divide_eq_right mult_1_right)
qed

end
