(* ===== verification/Export_Schema.thy ===== *)
theory Export_Schema
  imports Export_Args Rounding
begin

text \<open>
  The database \<open>export_to_duckdb.py\<close> makes before it collects anything: the columns of every
  CREATE TABLE, the SELECT of every CREATE VIEW, and the module-level code that executes the
  statements in order. A SELECT is data: its expressions, its relations and its conditions. How
  names are resolved (\<open>binds\<close>, what the database checks when a view is created) is defined
  here; theory Export_Views defines what a view returns.
\<close>

section \<open>Columns, tables\<close>

datatype coltype = C_integer | C_bigint | C_varchar nat | C_boolean | C_uhugeint

text \<open>\<open>primary\<close>: declared \<open>NOT NULL PRIMARY KEY\<close>.\<close>

record column =
  cname :: string
  ctype :: coltype
  primary :: bool

definition pk :: "string \<Rightarrow> column" where
  "pk n = \<lparr>cname = n, ctype = C_integer, primary = True\<rparr>"

definition col :: "string \<Rightarrow> coltype \<Rightarrow> column" where
  "col n t = \<lparr>cname = n, ctype = t, primary = False\<rparr>"

datatype val = VNull | VInt int | VStr string | VBool bool | VFloat rat

record table =
  tcols :: "column list"
  trows :: "val list list"

section \<open>SELECT statements\<close>

text \<open>
  \<open>When a b c\<close> is \<open>CASE WHEN a THEN b ELSE c END\<close>, \<open>Sub t e w\<close> is \<open>(SELECT e FROM t WHERE w)\<close>,
  \<open>Emit_hex hp e\<close> is \<open>printf("%x", e)\<close> if \<open>hp\<close> and \<open>e\<close> otherwise, \<open>Text\<close> casts to varchar,
  \<open>Zero\<close> is \<open>CAST(0 AS FLOAT)\<close> and \<open>Ipc a b\<close> is \<open>ROUND(CAST(a AS FLOAT) / b, 2)\<close>.
\<close>

datatype expr =
    Col string
  | QCol string string
  | Rowid
  | Num int
  | Str string
  | Eq expr expr
  | One_of expr "string list"
  | When expr expr expr
  | Sub string expr expr
  | Emit_hex bool expr
  | Minus expr expr
  | Text expr
  | Zero
  | Ipc expr expr

text \<open>The inner joins' ON conditions and the WHERE condition are one list.\<close>

record view =
  items :: "(expr \<times> string) list"
  from_list :: "(string \<times> string) list"
  conditions :: "expr list"

record database =
  tables :: "string \<Rightarrow> table option"
  views :: "string \<Rightarrow> view option"
  is_open :: bool

text \<open>\<open>emit_to_hex\<close>: the probe for \<open>printf\<close> decided once how addresses are shown.\<close>

definition emit_to_hex :: "bool \<Rightarrow> expr \<Rightarrow> expr" where
  "emit_to_hex sqlite_has_printf x = Emit_hex sqlite_has_printf x"

section \<open>The tables\<close>

definition selected_events_columns :: "column list" where
  "selected_events_columns =
    [pk ''id'', col ''name'' (C_varchar 80)]"

definition machines_columns :: "column list" where
  "machines_columns =
    [pk ''id'', col ''pid'' C_integer, col ''root_dir'' (C_varchar 4096)]"

definition threads_columns :: "column list" where
  "threads_columns =
    [pk ''id'', col ''machine_id'' C_bigint, col ''process_id'' C_bigint,
     col ''pid'' C_integer, col ''tid'' C_integer]"

definition comms_columns :: "column list" where
  "comms_columns =
    [pk ''id'', col ''comm'' (C_varchar 16), col ''c_thread_id'' C_bigint,
     col ''c_time'' C_bigint, col ''exec_flag'' C_boolean]"

definition comm_threads_columns :: "column list" where
  "comm_threads_columns =
    [pk ''id'', col ''comm_id'' C_bigint, col ''thread_id'' C_bigint]"

definition dsos_columns :: "column list" where
  "dsos_columns =
    [pk ''id'', col ''machine_id'' C_bigint, col ''short_name'' (C_varchar 256),
     col ''long_name'' (C_varchar 4096), col ''build_id'' (C_varchar 64)]"

definition symbols_columns :: "column list" where
  "symbols_columns =
    [pk ''id'', col ''dso_id'' C_bigint, col ''sym_start'' C_bigint, col ''sym_end'' C_bigint,
     col ''binding'' C_integer, col ''name'' (C_varchar 2048)]"

definition branch_types_columns :: "column list" where
  "branch_types_columns =
    [pk ''id'', col ''name'' (C_varchar 80)]"

definition samples_branches_columns :: "column list" where
  "samples_branches_columns =
    [pk ''id'', col ''evsel_id'' C_bigint, col ''machine_id'' C_bigint,
     col ''thread_id'' C_bigint, col ''comm_id'' C_bigint, col ''dso_id'' C_bigint,
     col ''symbol_id'' C_bigint, col ''sym_offset'' C_bigint, col ''ip'' C_bigint,
     col ''time'' C_bigint, col ''cpu'' C_integer, col ''to_dso_id'' C_bigint,
     col ''to_symbol_id'' C_bigint, col ''to_sym_offset'' C_bigint, col ''to_ip'' C_bigint,
     col ''branch_type'' C_integer, col ''in_tx'' C_boolean, col ''call_path_id'' C_bigint,
     col ''insn_count'' C_bigint, col ''cyc_count'' C_bigint, col ''flags'' C_integer]"

definition samples_all_columns :: "column list" where
  "samples_all_columns =
    [pk ''id'', col ''evsel_id'' C_bigint, col ''machine_id'' C_bigint,
     col ''thread_id'' C_bigint, col ''comm_id'' C_bigint, col ''dso_id'' C_bigint,
     col ''symbol_id'' C_bigint, col ''sym_offset'' C_bigint, col ''ip'' C_bigint,
     col ''time'' C_bigint, col ''cpu'' C_integer, col ''to_dso_id'' C_bigint,
     col ''to_symbol_id'' C_bigint, col ''to_sym_offset'' C_bigint, col ''to_ip'' C_bigint,
     col ''period'' C_bigint, col ''weight'' C_bigint, col ''transaction_'' C_bigint,
     col ''data_src'' C_bigint, col ''branch_type'' C_integer, col ''in_tx'' C_boolean,
     col ''call_path_id'' C_bigint, col ''insn_count'' C_bigint, col ''cyc_count'' C_bigint,
     col ''flags'' C_integer]"

definition call_paths_columns :: "column list" where
  "call_paths_columns =
    [pk ''id'', col ''parent_id'' C_bigint, col ''symbol_id'' C_bigint, col ''ip'' C_bigint]"

definition calls_columns :: "column list" where
  "calls_columns =
    [pk ''id'', col ''thread_id'' C_bigint, col ''comm_id'' C_bigint,
     col ''call_path_id'' C_bigint, col ''call_time'' C_bigint, col ''return_time'' C_bigint,
     col ''branch_count'' C_bigint, col ''call_id'' C_bigint, col ''return_id'' C_bigint,
     col ''parent_call_path_id'' C_bigint, col ''flags'' C_integer,
     col ''parent_id'' C_bigint, col ''insn_count'' C_bigint, col ''cyc_count'' C_bigint]"

definition ptwrite_columns :: "column list" where
  "ptwrite_columns =
    [pk ''id'', col ''payload'' C_bigint, col ''exact_ip'' C_integer]"

definition cbr_columns :: "column list" where
  "cbr_columns =
    [pk ''id'', col ''cbr'' C_integer, col ''mhz'' C_integer, col ''percent'' C_integer]"

definition mwait_columns :: "column list" where
  "mwait_columns =
    [pk ''id'', col ''hints'' C_integer, col ''extensions'' C_integer]"

definition pwre_columns :: "column list" where
  "pwre_columns =
    [pk ''id'', col ''cstate'' C_integer, col ''subcstate'' C_integer, col ''hw'' C_integer]"

definition exstop_columns :: "column list" where
  "exstop_columns =
    [pk ''id'', col ''exact_ip'' C_integer]"

definition pwrx_columns :: "column list" where
  "pwrx_columns =
    [pk ''id'', col ''deepest_cstate'' C_integer, col ''last_cstate'' C_integer,
     col ''wake_reason'' C_integer]"

definition context_switches_columns :: "column list" where
  "context_switches_columns =
    [pk ''id'', col ''machine_id'' C_bigint, col ''time'' C_bigint, col ''cpu'' C_integer,
     col ''thread_out_id'' C_bigint, col ''comm_out_id'' C_bigint,
     col ''thread_in_id'' C_bigint, col ''comm_in_id'' C_bigint, col ''flags'' C_integer]"

definition auxtrace_errors_columns :: "column list" where
  "auxtrace_errors_columns =
    [col ''type'' C_integer, col ''code'' C_integer, col ''cpu'' C_integer,
     col ''pid'' C_integer, col ''tid'' C_integer, col ''ip'' C_uhugeint,
     col ''time'' C_bigint, col ''msg'' (C_varchar 100), col ''cpumode'' C_integer,
     col ''machine_pid'' C_integer, col ''vcpu'' C_integer]"

section \<open>The views\<close>

text \<open>The chains of \<open>CASE WHEN\<close> that name wake reasons and decoder errors, and the lookups several
  views repeat: by id, and the column of a power event if the sample is of that event.\<close>

definition wake_reason_text :: expr where
  "wake_reason_text =
     When (Eq (Col ''wake_reason'') (Num 1)) (Str ''Interrupt'')
       (When (Eq (Col ''wake_reason'') (Num 2)) (Str ''Timer Deadline'')
       (When (Eq (Col ''wake_reason'') (Num 4)) (Str ''Monitored Address'')
       (When (Eq (Col ''wake_reason'') (Num 8)) (Str ''HW'') (Text (Col ''wake_reason'')))))"

definition error_code_text :: expr where
  "error_code_text =
     When (Eq (Col ''code'') (Num 1)) (Str ''NOMEM'')
       (When (Eq (Col ''code'') (Num 2)) (Str ''INTERN'')
       (When (Eq (Col ''code'') (Num 3)) (Str ''BADPKT'')
       (When (Eq (Col ''code'') (Num 4)) (Str ''NODATA'')
       (When (Eq (Col ''code'') (Num 5)) (Str ''NOINSN'')
       (When (Eq (Col ''code'') (Num 6)) (Str ''MISMAT'')
       (When (Eq (Col ''code'') (Num 7)) (Str ''OVR'')
       (When (Eq (Col ''code'') (Num 8)) (Str ''LOST'')
       (When (Eq (Col ''code'') (Num 9)) (Str ''UNK'')
       (When (Eq (Col ''code'') (Num 10)) (Str ''NELOOP'')
       (When (Eq (Col ''code'') (Num 11)) (Str ''EPTW'')
       (When (Eq (Col ''code'') (Num 12)) (Str ''MAX'') (Text (Col ''code'')))))))))))))"

definition look_up :: "string \<Rightarrow> string \<Rightarrow> expr \<Rightarrow> expr" where
  "look_up t c key = Sub t (Col c) (Eq (Col ''id'') key)"

definition of_event :: "string \<Rightarrow> expr \<Rightarrow> expr" where
  "of_event t e = When (Eq (QCol ''selected_events'' ''name'') (Str t))
     (Sub t e (Eq (QCol t ''id'') (QCol ''samples'' ''id''))) (Str '''')"

definition machines_view :: "view" where
  "machines_view = \<lparr>
    items =
      [(Col ''id'', ''id''), (Col ''pid'', ''pid''), (Col ''root_dir'', ''root_dir''),
      (When (Eq (Col ''id'') (Num 0)) (Str ''unknown'')
          (When (Eq (Col ''pid'') (Num (- 1))) (Str ''host'') (Str ''guest'')), ''host_or_guest'')],
    from_list = [(''machines'', ''machines'')],
    conditions =
      []\<rparr>"

definition dsos_view :: "view" where
  "dsos_view = \<lparr>
    items =
      [(Col ''id'', ''id''), (Col ''machine_id'', ''machine_id''),
      (look_up ''machines_view'' ''host_or_guest'' (Col ''machine_id''), ''host_or_guest''),
      (Col ''short_name'', ''short_name''), (Col ''long_name'', ''long_name''),
      (Col ''build_id'', ''build_id'')],
    from_list = [(''dsos'', ''dsos'')],
    conditions =
      []\<rparr>"

definition symbols_view :: "view" where
  "symbols_view = \<lparr>
    items =
      [(Col ''id'', ''id''), (Col ''name'', ''name''),
      (look_up ''dsos'' ''short_name'' (Col ''dso_id''), ''dso''), (Col ''dso_id'', ''dso_id''),
      (Col ''sym_start'', ''sym_start''), (Col ''sym_end'', ''sym_end''),
      (When (Eq (Col ''binding'') (Num 0)) (Str ''local'')
          (When (Eq (Col ''binding'') (Num 1)) (Str ''global'') (Str ''weak'')), ''binding'')],
    from_list = [(''symbols'', ''symbols'')],
    conditions =
      []\<rparr>"

definition threads_view :: "view" where
  "threads_view = \<lparr>
    items =
      [(Col ''id'', ''id''), (Col ''machine_id'', ''machine_id''),
      (look_up ''machines_view'' ''host_or_guest'' (Col ''machine_id''), ''host_or_guest''),
      (Col ''process_id'', ''process_id''), (Col ''pid'', ''pid''), (Col ''tid'', ''tid'')],
    from_list = [(''threads'', ''threads'')],
    conditions =
      []\<rparr>"

definition comm_threads_view :: "view" where
  "comm_threads_view = \<lparr>
    items =
      [(Col ''comm_id'', ''comm_id''), (look_up ''comms'' ''comm'' (Col ''comm_id''), ''command''),
      (Col ''thread_id'', ''thread_id''),
      (look_up ''threads'' ''pid'' (Col ''thread_id''), ''pid''),
      (look_up ''threads'' ''tid'' (Col ''thread_id''), ''tid'')],
    from_list = [(''comm_threads'', ''comm_threads'')],
    conditions =
      []\<rparr>"

definition call_paths_view :: "bool \<Rightarrow> view" where
  "call_paths_view hp = \<lparr>
    items =
      [(QCol ''c'' ''id'', ''id''), (emit_to_hex hp (QCol ''c'' ''ip''), ''ip''),
      (QCol ''c'' ''symbol_id'', ''symbol_id''),
      (look_up ''symbols'' ''name'' (QCol ''c'' ''symbol_id''), ''symbol''),
      (look_up ''symbols'' ''dso_id'' (QCol ''c'' ''symbol_id''), ''dso_id''),
      (look_up ''symbols_view'' ''dso'' (QCol ''c'' ''symbol_id''), ''dso_short_name''),
      (QCol ''c'' ''parent_id'', ''parent_id''),
      (emit_to_hex hp (QCol ''p'' ''ip''), ''parent_ip''),
      (QCol ''p'' ''symbol_id'', ''parent_symbol_id''),
      (look_up ''symbols'' ''name'' (QCol ''p'' ''symbol_id''), ''parent_symbol''),
      (look_up ''symbols'' ''dso_id'' (QCol ''p'' ''symbol_id''), ''parent_dso_id''),
      (look_up ''symbols_view'' ''dso'' (QCol ''p'' ''symbol_id''), ''parent_dso_short_name'')],
    from_list = [(''call_paths'', ''c''), (''call_paths'', ''p'')],
    conditions =
      [Eq (QCol ''p'' ''id'') (QCol ''c'' ''parent_id'')]\<rparr>"

definition calls_view :: "bool \<Rightarrow> view" where
  "calls_view hp = \<lparr>
    items =
      [(QCol ''calls'' ''id'', ''id''), (Col ''thread_id'', ''thread_id''),
      (look_up ''threads'' ''pid'' (Col ''thread_id''), ''pid''),
      (look_up ''threads'' ''tid'' (Col ''thread_id''), ''tid''),
      (look_up ''comms'' ''comm'' (Col ''comm_id''), ''command''),
      (Col ''call_path_id'', ''call_path_id''), (emit_to_hex hp (Col ''ip''), ''ip''),
      (Col ''symbol_id'', ''symbol_id''),
      (look_up ''symbols'' ''name'' (Col ''symbol_id''), ''symbol''),
      (Col ''call_time'', ''call_time''), (Col ''return_time'', ''return_time''),
      (Minus (Col ''return_time'') (Col ''call_time''), ''elapsed_time''),
      (Col ''branch_count'', ''branch_count''), (Col ''insn_count'', ''insn_count''),
      (Col ''cyc_count'', ''cyc_count''),
      (When (Eq (Col ''cyc_count'') (Num 0)) Zero (Ipc (Col ''insn_count'') (Col ''cyc_count'')), ''IPC''),
      (Col ''call_id'', ''call_id''), (Col ''return_id'', ''return_id''),
      (When (Eq (Col ''flags'') (Num 0)) (Str '''')
          (When (Eq (Col ''flags'') (Num 1)) (Str ''no call'')
          (When (Eq (Col ''flags'') (Num 2)) (Str ''no return'')
          (When (Eq (Col ''flags'') (Num 3)) (Str ''no call/return'')
          (When (Eq (Col ''flags'') (Num 6)) (Str ''jump'') (Text (Col ''flags'')))))), ''flags''),
      (Col ''parent_call_path_id'', ''parent_call_path_id''),
      (QCol ''calls'' ''parent_id'', ''parent_id'')],
    from_list = [(''calls'', ''calls''), (''call_paths'', ''call_paths'')],
    conditions =
      [Eq (QCol ''call_paths'' ''id'') (Col ''call_path_id'')]\<rparr>"

definition samples_view :: "bool \<Rightarrow> view" where
  "samples_view hp = \<lparr>
    items =
      [(Col ''id'', ''id''), (Col ''time'', ''time''), (Col ''cpu'', ''cpu''),
      (look_up ''threads'' ''pid'' (Col ''thread_id''), ''pid''),
      (look_up ''threads'' ''tid'' (Col ''thread_id''), ''tid''),
      (look_up ''comms'' ''comm'' (Col ''comm_id''), ''command''),
      (look_up ''selected_events'' ''name'' (Col ''evsel_id''), ''event''),
      (emit_to_hex hp (Col ''ip''), ''ip_hex''),
      (look_up ''symbols'' ''name'' (Col ''symbol_id''), ''symbol''),
      (Col ''sym_offset'', ''sym_offset''),
      (look_up ''dsos'' ''short_name'' (Col ''dso_id''), ''dso_short_name''),
      (emit_to_hex hp (Col ''to_ip''), ''to_ip_hex''),
      (look_up ''symbols'' ''name'' (Col ''to_symbol_id''), ''to_symbol''),
      (Col ''to_sym_offset'', ''to_sym_offset''),
      (look_up ''dsos'' ''short_name'' (Col ''to_dso_id''), ''to_dso_short_name''),
      (look_up ''branch_types'' ''name'' (Col ''branch_type''), ''branch_type_name''),
      (Col ''in_tx'', ''in_tx''), (Col ''insn_count'', ''insn_count''),
      (Col ''cyc_count'', ''cyc_count''),
      (When (Eq (Col ''cyc_count'') (Num 0)) Zero (Ipc (Col ''insn_count'') (Col ''cyc_count'')), ''IPC''),
      (Col ''flags'', ''flags'')],
    from_list = [(''samples'', ''samples'')],
    conditions =
      []\<rparr>"

definition ptwrite_view :: "bool \<Rightarrow> view" where
  "ptwrite_view hp = \<lparr>
    items =
      [(QCol ''ptwrite'' ''id'', ''id''), (Col ''time'', ''time''), (Col ''cpu'', ''cpu''),
      (emit_to_hex hp (Col ''payload''), ''payload_hex''),
      (When (Eq (Col ''exact_ip'') (Num 0)) (Str ''False'') (Str ''True''), ''exact_ip'')],
    from_list = [(''ptwrite'', ''ptwrite''), (''samples'', ''samples'')],
    conditions =
      [Eq (QCol ''samples'' ''id'') (QCol ''ptwrite'' ''id'')]\<rparr>"

definition cbr_view :: "view" where
  "cbr_view = \<lparr>
    items =
      [(QCol ''cbr'' ''id'', ''id''), (Col ''time'', ''time''), (Col ''cpu'', ''cpu''),
      (Col ''cbr'', ''cbr''), (Col ''mhz'', ''mhz''), (Col ''percent'', ''percent'')],
    from_list = [(''cbr'', ''cbr''), (''samples'', ''samples'')],
    conditions =
      [Eq (QCol ''samples'' ''id'') (QCol ''cbr'' ''id'')]\<rparr>"

definition mwait_view :: "bool \<Rightarrow> view" where
  "mwait_view hp = \<lparr>
    items =
      [(QCol ''mwait'' ''id'', ''id''), (Col ''time'', ''time''), (Col ''cpu'', ''cpu''),
      (emit_to_hex hp (Col ''hints''), ''hints_hex''),
      (emit_to_hex hp (Col ''extensions''), ''extensions_hex'')],
    from_list = [(''mwait'', ''mwait''), (''samples'', ''samples'')],
    conditions =
      [Eq (QCol ''samples'' ''id'') (QCol ''mwait'' ''id'')]\<rparr>"

definition pwre_view :: "view" where
  "pwre_view = \<lparr>
    items =
      [(QCol ''pwre'' ''id'', ''id''), (Col ''time'', ''time''), (Col ''cpu'', ''cpu''),
      (Col ''cstate'', ''cstate''), (Col ''subcstate'', ''subcstate''),
      (When (Eq (Col ''hw'') (Num 0)) (Str ''False'') (Str ''True''), ''hw'')],
    from_list = [(''pwre'', ''pwre''), (''samples'', ''samples'')],
    conditions =
      [Eq (QCol ''samples'' ''id'') (QCol ''pwre'' ''id'')]\<rparr>"

definition exstop_view :: "view" where
  "exstop_view = \<lparr>
    items =
      [(QCol ''exstop'' ''id'', ''id''), (Col ''time'', ''time''), (Col ''cpu'', ''cpu''),
      (When (Eq (Col ''exact_ip'') (Num 0)) (Str ''False'') (Str ''True''), ''exact_ip'')],
    from_list = [(''exstop'', ''exstop''), (''samples'', ''samples'')],
    conditions =
      [Eq (QCol ''samples'' ''id'') (QCol ''exstop'' ''id'')]\<rparr>"

definition pwrx_view :: "view" where
  "pwrx_view = \<lparr>
    items =
      [(QCol ''pwrx'' ''id'', ''id''), (Col ''time'', ''time''), (Col ''cpu'', ''cpu''),
      (Col ''deepest_cstate'', ''deepest_cstate''), (Col ''last_cstate'', ''last_cstate''),
      (wake_reason_text, ''wake_reason'')],
    from_list = [(''pwrx'', ''pwrx''), (''samples'', ''samples'')],
    conditions =
      [Eq (QCol ''samples'' ''id'') (QCol ''pwrx'' ''id'')]\<rparr>"

definition power_events_view :: "bool \<Rightarrow> view" where
  "power_events_view hp = \<lparr>
    items =
      [(QCol ''samples'' ''id'', ''id''), (Col ''time'', ''time''), (Col ''cpu'', ''cpu''),
      (QCol ''selected_events'' ''name'', ''event''), (of_event ''cbr'' (Col ''cbr''), ''cbr''),
      (of_event ''cbr'' (Col ''mhz''), ''mhz''), (of_event ''cbr'' (Col ''percent''), ''percent''),
      (of_event ''mwait'' (emit_to_hex hp (Col ''hints'')), ''hints_hex''),
      (of_event ''mwait'' (emit_to_hex hp (Col ''extensions'')), ''extensions_hex''),
      (of_event ''pwre'' (Col ''cstate''), ''cstate''),
      (of_event ''pwre'' (Col ''subcstate''), ''subcstate''),
      (of_event ''pwre'' (Col ''hw''), ''hw''),
      (of_event ''exstop'' (Col ''exact_ip''), ''exact_ip''),
      (of_event ''pwrx'' (Col ''deepest_cstate''), ''deepest_cstate''),
      (of_event ''pwrx'' (Col ''last_cstate''), ''last_cstate''),
      (of_event ''pwrx'' wake_reason_text, ''wake_reason'')],
    from_list = [(''samples'', ''samples''), (''selected_events'', ''selected_events'')],
    conditions =
      [Eq (QCol ''selected_events'' ''id'') (Col ''evsel_id''),
      One_of (QCol ''selected_events'' ''name'') [''cbr'', ''mwait'', ''exstop'', ''pwre'', ''pwrx'']]\<rparr>"

definition context_switches_view :: "view" where
  "context_switches_view = \<lparr>
    items =
      [(QCol ''context_switches'' ''id'', ''id''),
      (QCol ''context_switches'' ''machine_id'', ''machine_id''),
      (QCol ''context_switches'' ''time'', ''time''), (QCol ''context_switches'' ''cpu'', ''cpu''),
      (QCol ''th_out'' ''pid'', ''pid_out''), (QCol ''th_out'' ''tid'', ''tid_out''),
      (QCol ''comm_out'' ''comm'', ''comm_out''), (QCol ''th_in'' ''pid'', ''pid_in''),
      (QCol ''th_in'' ''tid'', ''tid_in''), (QCol ''comm_in'' ''comm'', ''comm_in''),
      (When (Eq (QCol ''context_switches'' ''flags'') (Num 0)) (Str ''in'')
          (When (Eq (QCol ''context_switches'' ''flags'') (Num 1)) (Str ''out'')
          (When (Eq (QCol ''context_switches'' ''flags'') (Num 3)) (Str ''out preempt'') (Text (QCol ''context_switches'' ''flags'')))), ''flags'')],
    from_list = [(''context_switches'', ''context_switches''), (''threads'', ''th_out''), (''threads'', ''th_in''), (''comms'', ''comm_out''), (''comms'', ''comm_in'')],
    conditions =
      [Eq (QCol ''th_out'' ''id'') (QCol ''context_switches'' ''thread_out_id''),
      Eq (QCol ''th_in'' ''id'') (QCol ''context_switches'' ''thread_in_id''),
      Eq (QCol ''comm_out'' ''id'') (QCol ''context_switches'' ''comm_out_id''),
      Eq (QCol ''comm_in'' ''id'') (QCol ''context_switches'' ''comm_in_id'')]\<rparr>"

definition auxtrace_errors_view :: "bool \<Rightarrow> view" where
  "auxtrace_errors_view hp = \<lparr>
    items =
      [(Rowid, ''id''), (Col ''time'', ''time''), (Col ''cpu'', ''cpu''), (Col ''pid'', ''pid''),
      (Col ''tid'', ''tid''),
      (When (Eq (Col ''type'') (Num 1)) (Str ''ITRACE'')
          (When (Eq (Col ''type'') (Num 2)) (Str ''MAX'') (Text (Col ''type''))), ''type''),
      (error_code_text, ''code''), (emit_to_hex hp (Col ''ip''), ''ip_hex''),
      (Col ''msg'', ''msg''), (Col ''cpumode'', ''cpumode''),
      (Col ''machine_pid'', ''machine_pid''), (Col ''vcpu'', ''vcpu'')],
    from_list = [(''auxtrace_errors'', ''auxtrace_errors'')],
    conditions =
      []\<rparr>"

section \<open>Name resolution\<close>

text \<open>
  A scope is a list of levels, the innermost first; a level lists the relations of one FROM clause
  with their columns. An unqualified name belongs to the innermost level that has it, where it
  must be unambiguous; a qualified name to the innermost level that has the relation.
\<close>

type_synonym level = "(string \<times> string list) list"

fun resolve_col :: "level list \<Rightarrow> string \<Rightarrow> bool" where
  "resolve_col [] c \<longleftrightarrow> False"
| "resolve_col (l # ls) c \<longleftrightarrow>
     (case filter (\<lambda>rc. List.member (snd rc) c) l of
        [] \<Rightarrow> resolve_col ls c
      | [_] \<Rightarrow> True
      | _ \<Rightarrow> False)"

fun resolve_qcol :: "level list \<Rightarrow> string \<Rightarrow> string \<Rightarrow> bool" where
  "resolve_qcol [] a c \<longleftrightarrow> False"
| "resolve_qcol (l # ls) a c \<longleftrightarrow>
     (case map_of l a of None \<Rightarrow> resolve_qcol ls a c | Some cs \<Rightarrow> List.member cs c)"

fun resolves :: "(string \<Rightarrow> string list option) \<Rightarrow> level list \<Rightarrow> expr \<Rightarrow> bool" where
  "resolves env ls (Col c) \<longleftrightarrow> resolve_col ls c"
| "resolves env ls (QCol a c) \<longleftrightarrow> resolve_qcol ls a c"
| "resolves env ls Rowid \<longleftrightarrow> True"
| "resolves env ls (Num i) \<longleftrightarrow> True"
| "resolves env ls (Str s) \<longleftrightarrow> True"
| "resolves env ls (Eq a b) \<longleftrightarrow> resolves env ls a \<and> resolves env ls b"
| "resolves env ls (One_of a ss) \<longleftrightarrow> resolves env ls a"
| "resolves env ls (When a b c) \<longleftrightarrow> resolves env ls a \<and> resolves env ls b \<and> resolves env ls c"
| "resolves env ls (Sub t e w) \<longleftrightarrow> (case env t of None \<Rightarrow> False
     | Some cs \<Rightarrow> resolves env ([(t, cs)] # ls) e \<and> resolves env ([(t, cs)] # ls) w)"
| "resolves env ls (Emit_hex hp a) \<longleftrightarrow> resolves env ls a"
| "resolves env ls (Minus a b) \<longleftrightarrow> resolves env ls a \<and> resolves env ls b"
| "resolves env ls (Text a) \<longleftrightarrow> resolves env ls a"
| "resolves env ls Zero \<longleftrightarrow> True"
| "resolves env ls (Ipc a b) \<longleftrightarrow> resolves env ls a \<and> resolves env ls b"

text \<open>The level of a FROM clause; \<open>None\<close> if a relation is missing.\<close>

fun from_level :: "(string \<Rightarrow> string list option) \<Rightarrow> (string \<times> string) list \<Rightarrow> level option" where
  "from_level env [] = Some []"
| "from_level env (ta # tas) = (case env (fst ta) of None \<Rightarrow> None
     | Some cs \<Rightarrow> map_option (\<lambda>l. (snd ta, cs) # l) (from_level env tas))"

definition view_resolves :: "(string \<Rightarrow> string list option) \<Rightarrow> view \<Rightarrow> bool" where
  "view_resolves env v = (case from_level env (from_list v) of None \<Rightarrow> False
     | Some l \<Rightarrow> list_all (\<lambda>i. resolves env [l] (fst i)) (items v) \<and> list_all (resolves env [l]) (conditions v))"

definition outputs :: "view \<Rightarrow> string list" where
  "outputs v = map snd (items v)"

text \<open>The relations a view reads.\<close>

fun expr_relations :: "expr \<Rightarrow> string list" where
  "expr_relations (Eq a b) = expr_relations a @ expr_relations b"
| "expr_relations (One_of a ss) = expr_relations a"
| "expr_relations (When a b c) = expr_relations a @ expr_relations b @ expr_relations c"
| "expr_relations (Sub t e w) = t # expr_relations e @ expr_relations w"
| "expr_relations (Emit_hex hp a) = expr_relations a"
| "expr_relations (Minus a b) = expr_relations a @ expr_relations b"
| "expr_relations (Text a) = expr_relations a"
| "expr_relations (Ipc a b) = expr_relations a @ expr_relations b"
| "expr_relations _ = []"

definition relations :: "view \<Rightarrow> string list" where
  "relations v = map fst (from_list v) @ concat (map (\<lambda>i. expr_relations (fst i)) (items v))
     @ concat (map expr_relations (conditions v))"

section \<open>Catalog operations\<close>

definition empty_db :: database where
  "empty_db = \<lparr>tables = (\<lambda>_. None), views = (\<lambda>_. None), is_open = True\<rparr>"

definition columns_of :: "database \<Rightarrow> string \<Rightarrow> string list option" where
  "columns_of db r = (case tables db r of
      Some t \<Rightarrow> Some (map cname (tcols t))
    | None \<Rightarrow> map_option outputs (views db r))"

text \<open>Tables and views share one name space.\<close>

definition create_table :: "string \<times> column list \<Rightarrow> database \<Rightarrow> database result" where
  "create_table d db =
     (if columns_of db (fst d) \<noteq> None then Inl (CatalogError (fst d))
      else Inr (db\<lparr>tables := (tables db)(fst d \<mapsto> \<lparr>tcols = snd d, trows = []\<rparr>)\<rparr>))"

definition binds :: "database \<Rightarrow> view \<Rightarrow> bool" where
  "binds db v = view_resolves (columns_of db) v"

definition create_view :: "string \<times> view \<Rightarrow> database \<Rightarrow> database result" where
  "create_view d db =
     (if columns_of db (fst d) \<noteq> None then Inl (CatalogError (fst d))
      else if \<not> binds db (snd d) then Inl (BinderError (fst d))
      else Inr (db\<lparr>views := (views db)(fst d \<mapsto> snd d)\<rparr>))"

section \<open>The statements, in the order the module executes them\<close>

definition table_statements :: "export_config \<Rightarrow> (string \<times> column list) list" where
  "table_statements cfg =
     [(''selected_events'', selected_events_columns), (''machines'', machines_columns),
      (''threads'', threads_columns), (''comms'', comms_columns),
      (''comm_threads'', comm_threads_columns), (''dsos'', dsos_columns),
      (''symbols'', symbols_columns), (''branch_types'', branch_types_columns),
      (''samples'', if branches cfg then samples_branches_columns else samples_all_columns)]
     @ (if perf_db_export_calls cfg \<or> perf_db_export_callchains cfg
        then [(''call_paths'', call_paths_columns)] else [])
     @ (if perf_db_export_calls cfg then [(''calls'', calls_columns)] else [])
     @ [(''ptwrite'', ptwrite_columns), (''cbr'', cbr_columns), (''mwait'', mwait_columns),
        (''pwre'', pwre_columns), (''exstop'', exstop_columns), (''pwrx'', pwrx_columns),
        (''context_switches'', context_switches_columns),
        (''auxtrace_errors'', auxtrace_errors_columns)]"

text \<open>\<open>hp\<close> is the result of the \<open>printf\<close> probe.\<close>

definition view_statements :: "bool \<Rightarrow> export_config \<Rightarrow> (string \<times> view) list" where
  "view_statements hp cfg =
     [(''machines_view'', machines_view), (''dsos_view'', dsos_view),
      (''symbols_view'', symbols_view), (''threads_view'', threads_view),
      (''comm_threads_view'', comm_threads_view)]
     @ (if perf_db_export_calls cfg \<or> perf_db_export_callchains cfg
        then [(''call_paths_view'', call_paths_view hp)] else [])
     @ (if perf_db_export_calls cfg then [(''calls_view'', calls_view hp)] else [])
     @ [(''samples_view'', samples_view hp), (''ptwrite_view'', ptwrite_view hp),
        (''cbr_view'', cbr_view), (''mwait_view'', mwait_view hp), (''pwre_view'', pwre_view),
        (''exstop_view'', exstop_view), (''pwrx_view'', pwrx_view),
        (''power_events_view'', power_events_view hp),
        (''context_switches_view'', context_switches_view),
        (''auxtrace_errors_view'', auxtrace_errors_view hp)]"

definition init_db :: "bool \<Rightarrow> export_config \<Rightarrow> database result" where
  "init_db hp cfg = bind_res (fold_res create_table (table_statements cfg) empty_db)
     (fold_res create_view (view_statements hp cfg))"

end
