(* ===== verification/Export_Views.thy ===== *)
theory Export_Views
  imports Export_Schema
begin

text \<open>
  What the exporter's views return. A SELECT is evaluated on the rows of the tables it names: an
  expression has a value in every scope, conditions are three-valued, and a row is kept where each
  of them is true. The rendering of addresses and of IPC is done by the database
  (\<open>sql_functions\<close>).
\<close>

section \<open>Scopes\<close>

text \<open>
  A row bound by a FROM clause: the name of its relation, its columns, its rowid. A scope is a list
  of levels, as in the resolution of names, and picks the same column.
\<close>

type_synonym bound = "string \<times> (string \<times> val) list \<times> nat"

definition bindings :: "string \<Rightarrow> table \<Rightarrow> bound list" where
  "bindings a t = map (\<lambda>(n, r). (a, zip (map cname (tcols t)) r, n)) (enumerate 0 (trows t))"

fun column_value :: "bound list list \<Rightarrow> string \<Rightarrow> val" where
  "column_value [] n = VNull"
| "column_value (l # ls) n =
     (case List.map_filter (\<lambda>(a, r, i). map_of r n) l of v # _ \<Rightarrow> v | [] \<Rightarrow> column_value ls n)"

fun qualified_value :: "bound list list \<Rightarrow> string \<Rightarrow> string \<Rightarrow> val" where
  "qualified_value [] a n = VNull"
| "qualified_value (l # ls) a n =
     (case map_of l a of
        None \<Rightarrow> qualified_value ls a n
      | Some (r, i) \<Rightarrow> (case map_of r n of None \<Rightarrow> VNull | Some v \<Rightarrow> v))"

fun rowid_value :: "bound list list \<Rightarrow> val" where
  "rowid_value [] = VNull"
| "rowid_value ([] # ls) = rowid_value ls"
| "rowid_value (((a, r, i) # l) # ls) = VInt (int i)"

section \<open>Expressions\<close>

record sql_functions =
  hex_text :: "int \<Rightarrow> string"
  ipc_value :: "int \<Rightarrow> int \<Rightarrow> rat"

definition eq_value :: "val \<Rightarrow> val \<Rightarrow> val" where
  "eq_value x y = (if x = VNull \<or> y = VNull then VNull else VBool (x = y))"

definition hex_value :: "sql_functions \<Rightarrow> bool \<Rightarrow> val \<Rightarrow> val" where
  "hex_value F hp v = (case v of VInt i \<Rightarrow> if hp then VStr (hex_text F i) else VInt i | _ \<Rightarrow> v)"

definition minus_value :: "val \<Rightarrow> val \<Rightarrow> val" where
  "minus_value x y = (case (x, y) of (VInt i, VInt j) \<Rightarrow> VInt (i - j) | _ \<Rightarrow> VNull)"

definition text_value :: "val \<Rightarrow> val" where
  "text_value v = (case v of VInt i \<Rightarrow> VStr (str_int i) | _ \<Rightarrow> v)"

text \<open>\<open>ROUND(CAST(a AS FLOAT) / b, 2)\<close>; the views guard the division by zero, a NULL stays NULL.\<close>

definition ipc_text :: "sql_functions \<Rightarrow> val \<Rightarrow> val \<Rightarrow> val" where
  "ipc_text F x y = (case (x, y) of
      (VInt i, VInt j) \<Rightarrow> if j = 0 then VNull else VFloat (ipc_value F i j)
    | _ \<Rightarrow> VNull)"

text \<open>
  A scalar subquery has the value of its row and is NULL without one; the views select by the
  primary key, so there is at most one (the first is taken here).
\<close>

fun eval :: "sql_functions \<Rightarrow> (string \<Rightarrow> table option) \<Rightarrow> bound list list \<Rightarrow> expr \<Rightarrow> val" where
  "eval F T ls (Col n) = column_value ls n"
| "eval F T ls (QCol a n) = qualified_value ls a n"
| "eval F T ls Rowid = rowid_value ls"
| "eval F T ls (Num i) = VInt i"
| "eval F T ls (Str s) = VStr s"
| "eval F T ls (Eq a b) = eq_value (eval F T ls a) (eval F T ls b)"
| "eval F T ls (One_of a ss) =
     (case eval F T ls a of VNull \<Rightarrow> VNull | VStr s \<Rightarrow> VBool (s \<in> set ss) | _ \<Rightarrow> VBool False)"
| "eval F T ls (When a b e) = (if eval F T ls a = VBool True then eval F T ls b else eval F T ls e)"
| "eval F T ls (Sub t e w) = (case T t of None \<Rightarrow> VNull
     | Some tb \<Rightarrow> (case filter (\<lambda>r. eval F T ([r] # ls) w = VBool True) (bindings t tb) of
          [] \<Rightarrow> VNull
        | r # _ \<Rightarrow> eval F T ([r] # ls) e))"
| "eval F T ls (Emit_hex hp a) = hex_value F hp (eval F T ls a)"
| "eval F T ls (Minus a b) = minus_value (eval F T ls a) (eval F T ls b)"
| "eval F T ls (Text a) = text_value (eval F T ls a)"
| "eval F T ls Zero = VFloat 0"
| "eval F T ls (Ipc a b) = ipc_text F (eval F T ls a) (eval F T ls b)"

section \<open>Views\<close>

text \<open>The rows of a FROM clause: all combinations, the first relation outermost.\<close>

fun from_rows :: "(string \<Rightarrow> table option) \<Rightarrow> (string \<times> string) list \<Rightarrow> bound list list" where
  "from_rows T [] = [[]]"
| "from_rows T ((t, a) # tas) = (case T t of None \<Rightarrow> []
     | Some tb \<Rightarrow> concat (map (\<lambda>b. map ((#) b) (from_rows T tas)) (bindings a tb)))"

definition kept :: "sql_functions \<Rightarrow> (string \<Rightarrow> table option) \<Rightarrow> view \<Rightarrow> bound list \<Rightarrow> bool" where
  "kept F T v l \<longleftrightarrow> list_all (\<lambda>k. eval F T [l] k = VBool True) (conditions v)"

definition view_rows :: "sql_functions \<Rightarrow> database \<Rightarrow> view \<Rightarrow> val list list" where
  "view_rows F db v =
     map (\<lambda>l. map (\<lambda>i. eval F (tables db) [l] (fst i)) (items v))
       (filter (kept F (tables db) v) (from_rows (tables db) (from_list v)))"

text \<open>\<open>SELECT *\<close> from a relation, with its column names.\<close>

definition select_all :: "sql_functions \<Rightarrow> database \<Rightarrow> string \<Rightarrow> (string list \<times> val list list) option" where
  "select_all F db n = (case tables db n of
      Some t \<Rightarrow> Some (map cname (tcols t), trows t)
    | None \<Rightarrow> map_option (\<lambda>v. (outputs v, view_rows F db v)) (views db n))"

end
