(* ===== verification/Export_Decode.thy ===== *)
theory Export_Decode
  imports Prelude Rounding "HOL-Library.Word"
begin

unbundle bit_operations_syntax

text \<open>
  The raw-event decoders of \<open>export_to_duckdb.py\<close>: \<open>struct.unpack_from\<close> on a byte buffer and
  the bit fields of the Intel PT power events. Bytes are \<open>8 word\<close>; everything after unpacking is
  a Python integer, hence \<open>int\<close> with its bit operations. True division gives a \<open>float\<close>
  (rounding \<open>f64\<close>). Each decoder returns the tuple it appends, or the exception it raises;
  \<open>FloatStr\<close> stands for \<open>str\<close> of a float, kept as the number it denotes.
\<close>

type_synonym bytes = "8 word list"

datatype cell = IntCell int | StrCell string | FloatStr rat

type_synonym row = "cell list"

section \<open>struct.unpack\_from with little-endian unsigned fields\<close>

fun le_int :: "bytes \<Rightarrow> int" where
  "le_int [] = 0"
| "le_int (b # bs) = uint b + 256 * le_int bs"

fun unpack_fields :: "nat list \<Rightarrow> bytes \<Rightarrow> int list" where
  "unpack_fields [] buf = []"
| "unpack_fields (w # ws) buf = le_int (take w buf) # unpack_fields ws (drop w buf)"

definition unpack_from :: "nat list \<Rightarrow> bytes \<Rightarrow> int list result" where
  "unpack_from ws buf =
     (if length buf < sum_list ws then Inl StructError else Inr (unpack_fields ws buf))"

text \<open>The format strings: sizes of \<open>B\<close>, \<open>I\<close> and \<open>Q\<close> without padding.\<close>

definition fmt_IQ :: "nat list" where "fmt_IQ = [4, 8]"
definition fmt_I :: "nat list" where "fmt_I = [4]"
definition fmt_BBBBII :: "nat list" where "fmt_BBBBII = [1, 1, 1, 1, 4, 4]"

lemma le_int_range: "0 \<le> le_int bs \<and> le_int bs < 256 ^ length bs"
proof (induction bs)
  case Nil
  then show ?case by simp
next
  case (Cons b bs)
  have "0 \<le> uint b" "uint b < 256" using uint_lt2p [of b] by simp_all
  then show ?case using Cons.IH by simp
qed

lemma length_unpack_fields [simp]: "length (unpack_fields ws buf) = length ws"
  by (induction ws arbitrary: buf) auto

lemma unpack_fields_range:
  "i < length ws \<Longrightarrow> 0 \<le> unpack_fields ws buf ! i \<and> unpack_fields ws buf ! i < 256 ^ (ws ! i)"
proof (induction ws arbitrary: buf i)
  case Nil
  then show ?case by simp
next
  case (Cons w ws)
  have "(256::int) ^ length (take w buf) \<le> 256 ^ w" by (rule power_increasing) auto
  then have "0 \<le> le_int (take w buf) \<and> le_int (take w buf) < 256 ^ w"
    using le_int_range [of "take w buf"] by linarith
  then show ?case using Cons.IH [of "i - 1" "drop w buf"] Cons.prems by (cases i) auto
qed

section \<open>Bit fields of a Python integer\<close>

definition bits :: "nat \<Rightarrow> nat \<Rightarrow> int \<Rightarrow> int" where
  "bits lo n x = (x div 2 ^ lo) mod 2 ^ n"

lemma shift_mask: "drop_bit lo x AND mask n = bits lo n (x :: int)"
  by (simp add: bits_def drop_bit_eq_div take_bit_eq_mod flip: take_bit_eq_mask)

lemma mask_values:
  "(1::int) = mask 1" "(0x3::int) = mask 2" "(0xf::int) = mask 4" "(0xff::int) = mask 8"
  by (simp_all add: mask_eq_exp_minus_1)

lemma bits_range: "0 \<le> bits lo n x \<and> bits lo n x < 2 ^ n"
  by (simp add: bits_def)

lemma bits_0: "x AND mask n = bits 0 n (x :: int)"
  using shift_mask [of 0 x n] by simp

section \<open>The decoders\<close>

definition ptwrite_row :: "int \<Rightarrow> bytes \<Rightarrow> row result" where
  "ptwrite_row ident buf = bind_res (unpack_from fmt_IQ buf) (\<lambda>data.
     let flags = data ! 0; payload = data ! 1; exact_ip = flags AND 1
     in Inr [StrCell (str_int ident), StrCell (str_int payload), StrCell (str_int exact_ip)])"

text \<open>The frequency and the percentage the core-to-bus-ratio decoder computes.\<close>

definition cbr_mhz :: "int \<Rightarrow> rat" where
  "cbr_mhz khz = f64 (of_int (khz + 500) / 1000)"

definition cbr_percent :: "int \<Rightarrow> int \<Rightarrow> rat" where
  "cbr_percent cbr maxcbr = f64 (f64 (f64 (of_int (cbr * 1000) / of_int maxcbr) + 5) / 10)"

definition cbr_row :: "int \<Rightarrow> bytes \<Rightarrow> row result" where
  "cbr_row ident buf = bind_res (unpack_from fmt_BBBBII buf) (\<lambda>data.
     let cbr = data ! 0;
         MHz = cbr_mhz (data ! 4)
     in if data ! 2 = 0 then Inl ZeroDivisionError
        else let percent = cbr_percent cbr (data ! 2)
        in Inr [StrCell (str_int ident), StrCell (str_int cbr), FloatStr MHz, FloatStr percent])"

definition mwait_row :: "int \<Rightarrow> bytes \<Rightarrow> row result" where
  "mwait_row ident buf = bind_res (unpack_from fmt_IQ buf) (\<lambda>data.
     let payload = data ! 1;
         hints = payload AND 0xff;
         extensions = drop_bit 32 payload AND 0x3
     in Inr [StrCell (str_int ident), StrCell (str_int hints), StrCell (str_int extensions)])"

definition pwre_row :: "int \<Rightarrow> bytes \<Rightarrow> row result" where
  "pwre_row ident buf = bind_res (unpack_from fmt_IQ buf) (\<lambda>data.
     let payload = data ! 1;
         hw = drop_bit 7 payload AND 1;
         cstate = drop_bit 12 payload AND 0xf;
         subcstate = drop_bit 8 payload AND 0xf
     in Inr [StrCell (str_int ident), StrCell (str_int cstate), StrCell (str_int subcstate),
             StrCell (str_int hw)])"

definition exstop_row :: "int \<Rightarrow> bytes \<Rightarrow> row result" where
  "exstop_row ident buf = bind_res (unpack_from fmt_I buf) (\<lambda>data.
     let flags = data ! 0; exact_ip = flags AND 1
     in Inr [StrCell (str_int ident), StrCell (str_int exact_ip)])"

definition pwrx_row :: "int \<Rightarrow> bytes \<Rightarrow> row result" where
  "pwrx_row ident buf = bind_res (unpack_from fmt_IQ buf) (\<lambda>data.
     let payload = data ! 1;
         deepest_cstate = payload AND 0xf;
         last_cstate = drop_bit 4 payload AND 0xf;
         wake_reason = drop_bit 8 payload AND 0xf
     in Inr [StrCell (str_int ident), StrCell (str_int deepest_cstate), StrCell (str_int last_cstate),
             StrCell (str_int wake_reason)])"

section \<open>What the decoders read\<close>

text \<open>A field of a little-endian number lies in one of its bytes, or in the bytes after the first.\<close>

lemma bits_first_byte:
  assumes "lo + n \<le> 8"
  shows "bits lo n (b + 256 * x) = bits lo n b"
proof -
  have "(256::int) = 2 ^ lo * (2 ^ n * 2 ^ (8 - lo - n))" using assms by (simp flip: power_add)
  then have "b + 256 * x = b + 2 ^ lo * (2 ^ n * (2 ^ (8 - lo - n) * x))" by (simp add: mult.assoc)
  also have "\<dots> div 2 ^ lo = b div 2 ^ lo + 2 ^ n * (2 ^ (8 - lo - n) * x)" by simp
  finally show ?thesis by (simp add: bits_def)
qed

lemma bits_next_bytes: "bits (8 + lo) n (uint (b :: 8 word) + 256 * x) = bits lo n x"
proof -
  have "0 \<le> uint b" "uint b < 256" using uint_lt2p [of b] by simp_all
  then have "(uint b + 256 * x) div 256 = x" by simp
  then show ?thesis by (simp add: bits_def power_add zdiv_zmult2_eq)
qed

lemma bits_byte:
  fixes b :: "8 word"
  shows "bits 0 8 (uint b) = uint b" "bits 4 4 (uint b) = uint b div 16" "bits 7 1 (uint b) = uint b div 128"
    "bits 0 4 (uint b) = uint b mod 16"
proof -
  have b: "0 \<le> uint b" "uint b < 256" using uint_lt2p [of b] by simp_all
  then have "0 \<le> uint b div 16" "uint b div 16 < 16" "0 \<le> uint b div 128" "uint b div 128 < 2" by linarith+
  then show "bits 0 8 (uint b) = uint b" "bits 4 4 (uint b) = uint b div 16" "bits 7 1 (uint b) = uint b div 128"
    "bits 0 4 (uint b) = uint b mod 16"
    using b by (simp_all add: bits_def)
qed

lemma unpack_from_IQ:
  "unpack_from fmt_IQ buf = (if length buf < 12 then Inl StructError
     else Inr [le_int (take 4 buf), le_int (take 8 (drop 4 buf))])"
  by (simp add: unpack_from_def fmt_IQ_def)

lemma unpack_from_I:
  "unpack_from fmt_I buf = (if length buf < 4 then Inl StructError else Inr [le_int (take 4 buf)])"
  by (simp add: unpack_from_def fmt_I_def)

lemma unpack_from_BBBBII:
  "unpack_from fmt_BBBBII buf = (if length buf < 12 then Inl StructError
     else Inr [le_int (take 1 buf), le_int (take 1 (drop 1 buf)), le_int (take 1 (drop 2 buf)),
       le_int (take 1 (drop 3 buf)), le_int (take 4 (drop 4 buf)), le_int (take 4 (drop 8 buf))])"
  by (simp add: unpack_from_def fmt_BBBBII_def eval_nat_numeral)

text \<open>Every decoder's fields, as bit ranges of the payload at byte 4.\<close>

definition payload_of :: "bytes \<Rightarrow> int" where
  "payload_of buf = le_int (take 8 (drop 4 buf))"

lemma mwait_row_eq: "mwait_row ident buf = (if length buf < 12 then Inl StructError else Inr
  [StrCell (str_int ident), StrCell (str_int (bits 0 8 (payload_of buf))),
   StrCell (str_int (bits 32 2 (payload_of buf)))])"
  unfolding mwait_row_def unpack_from_IQ Let_def mask_values shift_mask
  unfolding bits_0
  by (simp add: payload_of_def)

lemma pwre_row_eq: "pwre_row ident buf = (if length buf < 12 then Inl StructError else Inr
  [StrCell (str_int ident), StrCell (str_int (bits 12 4 (payload_of buf))),
   StrCell (str_int (bits 8 4 (payload_of buf))), StrCell (str_int (bits 7 1 (payload_of buf)))])"
  unfolding pwre_row_def unpack_from_IQ Let_def mask_values shift_mask
  unfolding bits_0
  by (simp add: payload_of_def)

lemma pwrx_row_eq: "pwrx_row ident buf = (if length buf < 12 then Inl StructError else Inr
  [StrCell (str_int ident), StrCell (str_int (bits 0 4 (payload_of buf))),
   StrCell (str_int (bits 4 4 (payload_of buf))), StrCell (str_int (bits 8 4 (payload_of buf)))])"
  unfolding pwrx_row_def unpack_from_IQ Let_def mask_values shift_mask
  unfolding bits_0
  by (simp add: payload_of_def)

lemma exstop_row_eq: "exstop_row ident buf = (if length buf < 4 then Inl StructError else Inr
  [StrCell (str_int ident), StrCell (str_int (bits 0 1 (le_int (take 4 buf))))])"
  unfolding exstop_row_def unpack_from_I Let_def mask_values shift_mask
  unfolding bits_0 by simp

lemma ptwrite_row_eq: "ptwrite_row ident buf = (if length buf < 12 then Inl StructError else Inr
  [StrCell (str_int ident), StrCell (str_int (payload_of buf)),
   StrCell (str_int (bits 0 1 (le_int (take 4 buf))))])"
  unfolding ptwrite_row_def unpack_from_IQ Let_def mask_values shift_mask
  unfolding bits_0
  by (simp add: payload_of_def)

lemmas row_eqs = mwait_row_eq pwre_row_eq pwrx_row_eq exstop_row_eq ptwrite_row_eq

lemma cbr_row_eq: "cbr_row ident buf = (if length buf < 12 then Inl StructError
  else if le_int (take 1 (drop 2 buf)) = 0 then Inl ZeroDivisionError
  else Inr [StrCell (str_int ident), StrCell (str_int (le_int (take 1 buf))),
    FloatStr (cbr_mhz (le_int (take 4 (drop 4 buf)))),
    FloatStr (cbr_percent (le_int (take 1 buf)) (le_int (take 1 (drop 2 buf))))])"
  by (simp add: cbr_row_def unpack_from_BBBBII Let_def del: One_nat_def)

lemma f64_near: "0 \<le> x \<Longrightarrow> x \<le> 10000000 \<Longrightarrow> \<bar>f64 x - x\<bar> \<le> 1 / 100000000"
  using f64.fl_error [of x] by simp

lemma percent_near:
  assumes "0 \<le> x" "x \<le> 255000"
  shows "\<bar>f64 (f64 (f64 x + 5) / 10) - (x + 5) / 10\<bar> \<le> 1 / 1000000"
proof -
  have e1: "\<bar>f64 x - x\<bar> \<le> 1 / 100000000" using assms by (intro f64_near) simp_all
  have y: "0 \<le> f64 x" "f64 x \<le> 255001" using e1 assms f64.fl_nonneg [OF assms(1)] by linarith+
  have e2: "\<bar>f64 (f64 x + 5) - (f64 x + 5)\<bar> \<le> 1 / 100000000" using y by (intro f64_near) simp_all
  have z: "0 \<le> f64 (f64 x + 5)" "f64 (f64 x + 5) \<le> 255007"
    using e2 y f64.fl_nonneg [of "f64 x + 5"] by linarith+
  have "\<bar>f64 (f64 (f64 x + 5) / 10) - f64 (f64 x + 5) / 10\<bar> \<le> 1 / 100000000"
    using z by (intro f64_near) simp_all
  then show ?thesis using e1 e2 unfolding abs_le_iff
    by (intro conjI; elim conjE; simp add: add_divide_distrib)
qed

text \<open>The core-to-bus-ratio decoder raises on a short buffer and on a zero maximum ratio, and
  otherwise stores a frequency and a percentage that are both half a unit too high: the rounding
  idiom \<open>(x + 500) / 1000\<close> does not truncate, because \<open>/\<close> is true division in Python 3.\<close>

theorem cbr_row_values:
  assumes "12 \<le> length buf"
  defines "cbr \<equiv> le_int (take 1 buf)" and "maxcbr \<equiv> le_int (take 1 (drop 2 buf))"
    and "khz \<equiv> le_int (take 4 (drop 4 buf))"
  shows "if maxcbr = 0 then cbr_row i buf = Inl ZeroDivisionError
    else \<exists>mhz percent. cbr_row i buf =
        Inr [StrCell (str_int i), StrCell (str_int cbr), FloatStr mhz, FloatStr percent]
      \<and> \<bar>mhz - (of_int khz / 1000 + 1/2)\<bar> \<le> 1 / 1000000
      \<and> \<bar>percent - (100 * of_int cbr / of_int maxcbr + 1/2)\<bar> \<le> 1 / 1000000"
proof (cases "maxcbr = 0")
  case True
  then show ?thesis using assms(1) by (simp add: cbr_row_eq maxcbr_def)
next
  case False
  have len: "length (take 1 buf) = 1" "length (take 4 (drop 4 buf)) = 4" using assms(1) by simp_all
  have r: "0 \<le> cbr" "cbr < 256" "0 \<le> maxcbr" "0 \<le> khz" "khz < 256 ^ 4"
    using le_int_range [of "take 1 buf"] le_int_range [of "take 1 (drop 2 buf)"]
      le_int_range [of "take 4 (drop 4 buf)"] unfolding len
    by (simp_all add: cbr_def maxcbr_def khz_def)
  have k: "(of_int khz :: rat) \<le> 4294967295" using r(5) by simp
  have mhz: "\<bar>cbr_mhz khz - (of_int khz / 1000 + 1/2)\<bar> \<le> 1 / 1000000"
    using f64_near [of "of_int (khz + 500) / 1000"] k r(4) by (simp add: cbr_mhz_def field_simps)
  let ?x = "of_int (cbr * 1000) / of_int maxcbr :: rat"
  have "(1::rat) \<le> of_int maxcbr" using False r(3) by simp
  then have "(of_int (cbr * 1000) :: rat) * 1 \<le> of_int (cbr * 1000) * of_int maxcbr"
    using r(1) by (intro mult_left_mono) simp_all
  then have "?x \<le> of_int (cbr * 1000)" using \<open>1 \<le> of_int maxcbr\<close> by (simp add: pos_divide_le_eq)
  also have "\<dots> \<le> 255000" using r(2) by simp
  finally have x: "0 \<le> ?x" "?x \<le> 255000" using r by simp_all
  have "\<bar>cbr_percent cbr maxcbr - (?x + 5) / 10\<bar> \<le> 1 / 1000000"
    unfolding cbr_percent_def using x by (rule percent_near)
  then have "\<bar>cbr_percent cbr maxcbr - (100 * of_int cbr / of_int maxcbr + 1/2)\<bar> \<le> 1 / 1000000"
    by (simp add: add_divide_distrib)
  then show ?thesis using mhz False assms(1)
    by (simp add: cbr_row_eq cbr_def maxcbr_def khz_def del: One_nat_def)
qed

text \<open>A ratio of 24 out of 24 at 2400000 kHz.\<close>

definition demo_cbr_bytes :: bytes where
  "demo_cbr_bytes = [24, 0, 24, 0, 0, 0x9f, 0x24, 0, 0, 0, 0, 0]"

theorem cbr_row_values_witness:
  "\<exists>mhz percent. cbr_row 3 demo_cbr_bytes =
      Inr [StrCell (str_int 3), StrCell (str_int 24), FloatStr mhz, FloatStr percent]
    \<and> \<bar>mhz - (2400 + 1/2)\<bar> \<le> 1 / 1000000 \<and> \<bar>percent - (100 + 1/2)\<bar> \<le> 1 / 1000000"
proof -
  have b: "12 \<le> length demo_cbr_bytes" "le_int (take 1 demo_cbr_bytes) = 24" "le_int (take 1 (drop 2 demo_cbr_bytes)) = 24"
    "le_int (take 4 (drop 4 demo_cbr_bytes)) = 2400000"
    by code_simp+
  show ?thesis using cbr_row_values [OF b(1), of 3] unfolding b(2-4) by simp
qed

lemma payload_bits:
  fixes buf :: bytes
  assumes "12 \<le> length buf"
  defines "byte \<equiv> \<lambda>k. uint (buf ! k)"
  shows "bits 0 8 (payload_of buf) = byte 4" "bits 4 4 (payload_of buf) = byte 4 div 16"
    "bits 7 1 (payload_of buf) = byte 4 div 128" "bits 0 4 (payload_of buf) = byte 4 mod 16"
    "bits 8 4 (payload_of buf) = byte 5 mod 16" "bits 12 4 (payload_of buf) = byte 5 div 16"
    "bits 32 2 (payload_of buf) = byte 8 mod 4" "bits 0 1 (le_int (take 4 buf)) = byte 0 mod 2"
    "payload_of buf = (\<Sum>k\<leftarrow>[0..<8]. 256 ^ k * byte (4 + k))"
    "le_int (take 1 buf) = byte 0" "le_int (take 1 (drop 2 buf)) = byte 2"
    "le_int (take 4 (drop 4 buf)) = byte 4 + 256 * byte 5 + 65536 * byte 6 + 16777216 * byte 7"
proof -
  obtain b0 b1 b2 b3 b4 b5 b6 b7 b8 b9 b10 b11 tail
    where buf: "buf = [b0, b1, b2, b3, b4, b5, b6, b7, b8, b9, b10, b11] @ tail"
  proof -
    have "take 12 buf = map ((!) buf) [0..<12]" using assms(1) by (intro nth_equalityI) simp_all
    also have "[0..<12] = [0, 1, 2, 3, 4, 5, 6, 7, 8, 9, 10, 11]" by (simp add: upt_rec)
    finally have "map ((!) buf) [0, 1, 2, 3, 4, 5, 6, 7, 8, 9, 10, 11] @ drop 12 buf = buf"
      using append_take_drop_id [of 12 buf] by (simp only:)
    from this [symmetric, unfolded list.map] show thesis by (rule that)
  qed
  have byte: "byte 0 = uint b0" "byte 2 = uint b2" "byte 4 = uint b4" "byte 5 = uint b5" "byte 6 = uint b6"
    "byte 7 = uint b7" "byte 8 = uint b8" "byte 9 = uint b9" "byte 10 = uint b10" "byte 11 = uint b11"
    by (simp_all add: byte_def buf)
  define x9 where "x9 = uint b9 + 256 * (uint b10 + 256 * uint b11)"
  define x8 where "x8 = uint b8 + 256 * x9"
  define x7 where "x7 = uint b7 + 256 * x8"
  define x6 where "x6 = uint b6 + 256 * x7"
  define x5 where "x5 = uint b5 + 256 * x6"
  note xs = x5_def x6_def x7_def x8_def x9_def
  have p: "payload_of buf = uint b4 + 256 * x5" by (simp add: payload_of_def buf xs numeral_eq_Suc)
  have four: "take 4 buf = [b0, b1, b2, b3]" "take 1 buf = [b0]" "take 1 (drop 2 buf) = [b2]"
    "take 4 (drop 4 buf) = [b4, b5, b6, b7]"
    by (simp_all add: buf numeral_eq_Suc)
  have one: "bits 0 8 (payload_of buf) = byte 4" "bits 4 4 (payload_of buf) = byte 4 div 16"
    "bits 7 1 (payload_of buf) = byte 4 div 128" "bits 0 4 (payload_of buf) = byte 4 mod 16"
    unfolding p byte using bits_byte [of b4] by (simp_all add: bits_first_byte)
  have two: "bits 8 4 (payload_of buf) = byte 5 mod 16" "bits 12 4 (payload_of buf) = byte 5 div 16"
    using bits_next_bytes [of 0 4 b4 x5] bits_next_bytes [of 4 4 b4 x5] bits_first_byte [of 0 4 "uint b5" x6]
      bits_first_byte [of 4 4 "uint b5" x6] bits_byte [of b5]
    unfolding p byte by (simp_all flip: x5_def)
  have "bits 32 2 (payload_of buf) = bits 0 2 x8"
    using bits_next_bytes [of 24 2 b4 x5] bits_next_bytes [of 16 2 b5 x6] bits_next_bytes [of 8 2 b6 x7]
      bits_next_bytes [of 0 2 b7 x8]
    unfolding p by (simp flip: x5_def x6_def x7_def)
  then have three: "bits 32 2 (payload_of buf) = byte 8 mod 4"
    using bits_first_byte [of 0 2 "uint b8" x9] unfolding byte by (simp add: bits_def flip: x8_def)
  have flag: "bits 0 1 (le_int (take 4 buf)) = byte 0 mod 2"
    using bits_first_byte [of 0 1 "uint b0" "le_int [b1, b2, b3]"] unfolding four byte by (simp add: bits_def)
  have sum: "payload_of buf = (\<Sum>k\<leftarrow>[0..<8]. 256 ^ k * byte (4 + k))"
    unfolding p xs by (simp add: upt_rec numeral_eq_Suc byte_def buf algebra_simps)
  show "bits 0 8 (payload_of buf) = byte 4" "bits 4 4 (payload_of buf) = byte 4 div 16"
    "bits 7 1 (payload_of buf) = byte 4 div 128" "bits 0 4 (payload_of buf) = byte 4 mod 16"
    "bits 8 4 (payload_of buf) = byte 5 mod 16" "bits 12 4 (payload_of buf) = byte 5 div 16"
    "bits 32 2 (payload_of buf) = byte 8 mod 4" "bits 0 1 (le_int (take 4 buf)) = byte 0 mod 2"
    "payload_of buf = (\<Sum>k\<leftarrow>[0..<8]. 256 ^ k * byte (4 + k))"
    by (fact one two three flag sum)+
  show "le_int (take 1 buf) = byte 0" "le_int (take 1 (drop 2 buf)) = byte 2"
    "le_int (take 4 (drop 4 buf)) = byte 4 + 256 * byte 5 + 65536 * byte 6 + 16777216 * byte 7"
    unfolding four byte by simp_all
qed

text \<open>C38: What each raw-event decoder stores, byte by byte of the buffer perf passes (little endian, flags
  first, the payload from byte 4 on): of \<open>mwait\<close> the hints in byte 4 and the extensions in the low
  two bits of byte 8; of \<open>pwre\<close> the C-state and its sub-state in the two halves of byte 5 and the
  hardware bit on top of byte 4; of \<open>pwrx\<close> the deepest and the last C-state in the halves of byte 4
  and the wake reason in the low half of byte 5; of \<open>exstop\<close> and \<open>ptwrite\<close> the lowest bit of the
  flags, with the whole payload for the latter; of \<open>cbr\<close> the ratio in byte 0, the frequency from
  bytes 4 to 7 and the percentage of the maximum in byte 2, which raises if it is zero. A shorter
  buffer raises.\<close>

theorem power_event_bytes:
  fixes buf :: bytes
  defines "byte \<equiv> \<lambda>k. uint (buf ! k)" and "out \<equiv> \<lambda>ns. Inr (map (\<lambda>n. StrCell (str_int n)) ns)"
  shows "if length buf < 12 then
      mwait_row i buf = Inl StructError \<and> pwre_row i buf = Inl StructError \<and> pwrx_row i buf = Inl StructError
      \<and> ptwrite_row i buf = Inl StructError \<and> cbr_row i buf = Inl StructError
      \<and> exstop_row i buf = (if length buf < 4 then Inl StructError else out [i, byte 0 mod 2])
    else
      mwait_row i buf = out [i, byte 4, byte 8 mod 4]
      \<and> pwre_row i buf = out [i, byte 5 div 16, byte 5 mod 16, byte 4 div 128]
      \<and> pwrx_row i buf = out [i, byte 4 mod 16, byte 4 div 16, byte 5 mod 16]
      \<and> exstop_row i buf = out [i, byte 0 mod 2]
      \<and> ptwrite_row i buf = out [i, \<Sum>k\<leftarrow>[0..<8]. 256 ^ k * byte (4 + k), byte 0 mod 2]
      \<and> cbr_row i buf = (if byte 2 = 0 then Inl ZeroDivisionError
          else Inr [StrCell (str_int i), StrCell (str_int (byte 0)),
            FloatStr (f64 (of_int (byte 4 + 256 * byte 5 + 65536 * byte 6 + 16777216 * byte 7 + 500) / 1000)),
            FloatStr (f64 (f64 (f64 (of_int (byte 0 * 1000) / of_int (byte 2)) + 5) / 10))])"
proof (cases "length buf < 12")
  case True
  have "bits 0 1 (le_int (take 4 buf)) = byte 0 mod 2" if long: "4 \<le> length buf"
  proof -
    obtain b r where "take 4 buf = b # r" "b = buf ! 0" using long by (cases buf) (auto simp: numeral_eq_Suc)
    then show ?thesis using bits_first_byte [of 0 1 "uint b" "le_int r"] by (simp add: bits_def byte_def)
  qed
  then show ?thesis using True by (simp add: row_eqs cbr_row_eq out_def)
next
  case False
  then have long: "12 \<le> length buf" by simp
  note fields = payload_bits(1-8,10-) [OF long]
  have "mwait_row i buf = out [i, byte 4, byte 8 mod 4]"
    "pwre_row i buf = out [i, byte 5 div 16, byte 5 mod 16, byte 4 div 128]"
    "pwrx_row i buf = out [i, byte 4 mod 16, byte 4 div 16, byte 5 mod 16]"
    "exstop_row i buf = out [i, byte 0 mod 2]"
    "ptwrite_row i buf = out [i, \<Sum>k\<leftarrow>[0..<8]. 256 ^ k * byte (4 + k), byte 0 mod 2]"
    using False by (simp_all only: row_eqs fields) (simp_all add: out_def byte_def payload_bits(9) [OF long])
  moreover have "cbr_row i buf = (if byte 2 = 0 then Inl ZeroDivisionError
      else Inr [StrCell (str_int i), StrCell (str_int (byte 0)),
        FloatStr (f64 (of_int (byte 4 + 256 * byte 5 + 65536 * byte 6 + 16777216 * byte 7 + 500) / 1000)),
        FloatStr (f64 (f64 (f64 (of_int (byte 0 * 1000) / of_int (byte 2)) + 5) / 10))])"
    using False by (simp only: cbr_row_eq fields) (simp add: byte_def cbr_mhz_def cbr_percent_def algebra_simps)
  ultimately show ?thesis using False by simp
qed

theorem power_event_bytes_witness:
  "pwre_row 9 [0, 0, 0, 0, 0x85, 0x63, 0, 0, 0, 0, 0, 0]
     = Inr [StrCell (str_int 9), StrCell (str_int 6), StrCell (str_int 3), StrCell (str_int 1)]"
  using power_event_bytes [of "[0, 0, 0, 0, 0x85, 0x63, 0, 0, 0, 0, 0, 0]" 9] by simp

end
