(* ===== verification/Export_Collect.thy ===== *)
theory Export_Collect
  imports Export_Args Export_Decode
begin

text \<open>
  The callbacks \<open>perf script\<close> makes while it decodes a trace, and the module globals they fill:
  one list of tuples per table, and a counter. The tuples perf passes are arguments. What each
  callback owes the rest of the exporter (its own list grows by its own row, nothing else changes)
  is the locale \<open>table_callback\<close>, interpreted for every callback.
\<close>

section \<open>The globals\<close>

text \<open>The tables \<open>trace_end\<close> fills, in its order.\<close>

datatype table_id =
    T_selected_events
  | T_machines
  | T_threads
  | T_comms
  | T_comm_threads
  | T_dsos
  | T_symbols
  | T_branch_types
  | T_samples
  | T_call_paths
  | T_calls
  | T_ptwrite
  | T_cbr
  | T_mwait
  | T_pwre
  | T_exstop
  | T_pwrx
  | T_context_switches
  | T_auxtrace_errors

record collector =
  evsel_data :: "row list"
  machine_data :: "row list"
  thread_data :: "row list"
  comm_data :: "row list"
  comm_thread_data :: "row list"
  dso_data :: "row list"
  symbol_data :: "row list"
  branch_type_data :: "row list"
  sample_data :: "row list"
  call_path_data :: "row list"
  call_data :: "row list"
  ptwrite_data :: "row list"
  cbr_data :: "row list"
  mwait_data :: "row list"
  pwre_data :: "row list"
  exstop_data :: "row list"
  pwrx_data :: "row list"
  context_switch_data :: "row list"
  auxtrace_error_data :: "row list"
  unhandled_count :: int

definition init_collector :: collector where
  "init_collector = \<lparr>evsel_data = [],
     machine_data = [],
     thread_data = [],
     comm_data = [],
     comm_thread_data = [],
     dso_data = [],
     symbol_data = [],
     branch_type_data = [],
     sample_data = [],
     call_path_data = [],
     call_data = [],
     ptwrite_data = [],
     cbr_data = [],
     mwait_data = [],
     pwre_data = [],
     exstop_data = [],
     pwrx_data = [],
     context_switch_data = [],
     auxtrace_error_data = [],
     unhandled_count = 0\<rparr>"

text \<open>Which list \<open>trace_end\<close> inserts into which table.\<close>

fun data_of :: "table_id \<Rightarrow> collector \<Rightarrow> row list" where
  "data_of T_selected_events s = evsel_data s"
| "data_of T_machines s = machine_data s"
| "data_of T_threads s = thread_data s"
| "data_of T_comms s = comm_data s"
| "data_of T_comm_threads s = comm_thread_data s"
| "data_of T_dsos s = dso_data s"
| "data_of T_symbols s = symbol_data s"
| "data_of T_branch_types s = branch_type_data s"
| "data_of T_samples s = sample_data s"
| "data_of T_call_paths s = call_path_data s"
| "data_of T_calls s = call_data s"
| "data_of T_ptwrite s = ptwrite_data s"
| "data_of T_cbr s = cbr_data s"
| "data_of T_mwait s = mwait_data s"
| "data_of T_pwre s = pwre_data s"
| "data_of T_exstop s = exstop_data s"
| "data_of T_pwrx s = pwrx_data s"
| "data_of T_context_switches s = context_switch_data s"
| "data_of T_auxtrace_errors s = auxtrace_error_data s"

section \<open>The callbacks\<close>

definition evsel_table :: "row \<Rightarrow> collector \<Rightarrow> collector" where
  "evsel_table x s = s\<lparr>evsel_data := evsel_data s @ [x]\<rparr>"

definition machine_table :: "row \<Rightarrow> collector \<Rightarrow> collector" where
  "machine_table x s = s\<lparr>machine_data := machine_data s @ [x]\<rparr>"

definition thread_table :: "row \<Rightarrow> collector \<Rightarrow> collector" where
  "thread_table x s = s\<lparr>thread_data := thread_data s @ [x]\<rparr>"

definition comm_table :: "row \<Rightarrow> collector \<Rightarrow> collector" where
  "comm_table x s = s\<lparr>comm_data := comm_data s @ [x]\<rparr>"

definition comm_thread_table :: "row \<Rightarrow> collector \<Rightarrow> collector" where
  "comm_thread_table x s = s\<lparr>comm_thread_data := comm_thread_data s @ [x]\<rparr>"

definition dso_table :: "row \<Rightarrow> collector \<Rightarrow> collector" where
  "dso_table x s = s\<lparr>dso_data := dso_data s @ [x]\<rparr>"

definition symbol_table :: "row \<Rightarrow> collector \<Rightarrow> collector" where
  "symbol_table x s = s\<lparr>symbol_data := symbol_data s @ [x]\<rparr>"

definition branch_type_table :: "row \<Rightarrow> collector \<Rightarrow> collector" where
  "branch_type_table x s = s\<lparr>branch_type_data := branch_type_data s @ [x]\<rparr>"

definition call_path_table :: "row \<Rightarrow> collector \<Rightarrow> collector" where
  "call_path_table x s = s\<lparr>call_path_data := call_path_data s @ [x]\<rparr>"

definition call_return_table :: "row \<Rightarrow> collector \<Rightarrow> collector" where
  "call_return_table x s = s\<lparr>call_data := call_data s @ [x]\<rparr>"

definition context_switch_table :: "row \<Rightarrow> collector \<Rightarrow> collector" where
  "context_switch_table x s = s\<lparr>context_switch_data := context_switch_data s @ [x]\<rparr>"

definition auxtrace_error :: "row \<Rightarrow> collector \<Rightarrow> collector" where
  "auxtrace_error x s = s\<lparr>auxtrace_error_data := auxtrace_error_data s @ [x]\<rparr>"

text \<open>With \<open>branches\<close> the four columns the narrow samples table does not have are cut out.\<close>

definition sample_row :: "bool \<Rightarrow> row \<Rightarrow> row" where
  "sample_row br x = (if \<not> br then x else py_slice 0 15 x @ py_slice 19 25 x)"

definition sample_table :: "bool \<Rightarrow> row \<Rightarrow> collector \<Rightarrow> collector" where
  "sample_table br x s = s\<lparr>sample_data := sample_data s @ [sample_row br x]\<rparr>"

definition trace_unhandled :: "collector \<Rightarrow> collector" where
  "trace_unhandled s = s\<lparr>unhandled_count := unhandled_count s + 1\<rparr>"

definition sched_switch :: "collector \<Rightarrow> collector" where
  "sched_switch s = s"

text \<open>The raw-event callbacks. \<open>ptwrite\<close> appends to \<open>call_data\<close>, as the code does.\<close>

definition ptwrite :: "int \<Rightarrow> bytes \<Rightarrow> collector \<Rightarrow> collector result" where
  "ptwrite i buf s = bind_res (ptwrite_row i buf) (\<lambda>x. Inr (s\<lparr>call_data := call_data s @ [x]\<rparr>))"

definition cbr :: "int \<Rightarrow> bytes \<Rightarrow> collector \<Rightarrow> collector result" where
  "cbr i buf s = bind_res (cbr_row i buf) (\<lambda>x. Inr (s\<lparr>cbr_data := cbr_data s @ [x]\<rparr>))"

definition mwait :: "int \<Rightarrow> bytes \<Rightarrow> collector \<Rightarrow> collector result" where
  "mwait i buf s = bind_res (mwait_row i buf) (\<lambda>x. Inr (s\<lparr>mwait_data := mwait_data s @ [x]\<rparr>))"

definition pwre :: "int \<Rightarrow> bytes \<Rightarrow> collector \<Rightarrow> collector result" where
  "pwre i buf s = bind_res (pwre_row i buf) (\<lambda>x. Inr (s\<lparr>pwre_data := pwre_data s @ [x]\<rparr>))"

definition exstop :: "int \<Rightarrow> bytes \<Rightarrow> collector \<Rightarrow> collector result" where
  "exstop i buf s = bind_res (exstop_row i buf) (\<lambda>x. Inr (s\<lparr>exstop_data := exstop_data s @ [x]\<rparr>))"

definition pwrx :: "int \<Rightarrow> bytes \<Rightarrow> collector \<Rightarrow> collector result" where
  "pwrx i buf s = bind_res (pwrx_row i buf) (\<lambda>x. Inr (s\<lparr>pwrx_data := pwrx_data s @ [x]\<rparr>))"

text \<open>The dispatch on the event's \<open>config\<close>; an unknown one is ignored.\<close>

definition synth_data :: "int \<Rightarrow> int \<Rightarrow> bytes \<Rightarrow> collector \<Rightarrow> collector result" where
  "synth_data i config buf s =
     (if config = 0 then ptwrite i buf s
      else if config = 1 then mwait i buf s
      else if config = 2 then pwre i buf s
      else if config = 3 then exstop i buf s
      else if config = 4 then pwrx i buf s
      else if config = 5 then cbr i buf s
      else Inr s)"

text \<open>\<open>trace_begin\<close>: a record with id 0 in every table that others refer to.\<close>

definition ints :: "int list \<Rightarrow> row" where
  "ints = map IntCell"

definition unknown :: cell where
  "unknown = StrCell ''unknown''"

definition trace_begin :: "export_config \<Rightarrow> collector \<Rightarrow> collector" where
  "trace_begin cfg s =
     (let s = evsel_table [IntCell 0, unknown] s;
          s = machine_table [IntCell 0, IntCell 0, unknown] s;
          s = thread_table (ints [0, 0, 0, -1, -1]) s;
          s = comm_table [IntCell 0, unknown, IntCell 0, IntCell 0, IntCell 0] s;
          s = dso_table [IntCell 0, IntCell 0, unknown, unknown, StrCell []] s;
          s = symbol_table (ints [0, 0, 0, 0, 0] @ [unknown]) s;
          s = sample_table (branches cfg) (ints (replicate 25 0)) s
      in if perf_db_export_calls cfg \<or> perf_db_export_callchains cfg
         then call_return_table (ints (replicate 14 0)) (call_path_table (ints (replicate 4 0)) s)
         else s)"

section \<open>The contract of a callback\<close>

locale table_callback =
  fixes add :: "row \<Rightarrow> collector \<Rightarrow> collector" and tid :: table_id and stored :: "row \<Rightarrow> row"
  assumes own_table: "data_of tid (add x s) = data_of tid s @ [stored x]"
    and other_tables: "t \<noteq> tid \<Longrightarrow> data_of t (add x s) = data_of t s"
    and count_kept: "unhandled_count (add x s) = unhandled_count s"
begin

lemma data_of_add: "data_of t (add x s) = data_of t s @ (if t = tid then [stored x] else [])"
  by (simp add: own_table other_tables)

lemma data_of_adds: "data_of t (fold add xs s) = data_of t s @ (if t = tid then map stored xs else [])"
  by (induction xs arbitrary: s) (auto simp: data_of_add)

lemma count_adds: "unhandled_count (fold add xs s) = unhandled_count s"
  by (induction xs arbitrary: s) (auto simp: count_kept)

end

interpretation selected_events_cb: table_callback evsel_table T_selected_events "\<lambda>x. x"
  by unfold_locales (simp_all add: evsel_table_def, case_tac t, simp_all)

interpretation machines_cb: table_callback machine_table T_machines "\<lambda>x. x"
  by unfold_locales (simp_all add: machine_table_def, case_tac t, simp_all)

interpretation threads_cb: table_callback thread_table T_threads "\<lambda>x. x"
  by unfold_locales (simp_all add: thread_table_def, case_tac t, simp_all)

interpretation comms_cb: table_callback comm_table T_comms "\<lambda>x. x"
  by unfold_locales (simp_all add: comm_table_def, case_tac t, simp_all)

interpretation comm_threads_cb: table_callback comm_thread_table T_comm_threads "\<lambda>x. x"
  by unfold_locales (simp_all add: comm_thread_table_def, case_tac t, simp_all)

interpretation dsos_cb: table_callback dso_table T_dsos "\<lambda>x. x"
  by unfold_locales (simp_all add: dso_table_def, case_tac t, simp_all)

interpretation symbols_cb: table_callback symbol_table T_symbols "\<lambda>x. x"
  by unfold_locales (simp_all add: symbol_table_def, case_tac t, simp_all)

interpretation branch_types_cb: table_callback branch_type_table T_branch_types "\<lambda>x. x"
  by unfold_locales (simp_all add: branch_type_table_def, case_tac t, simp_all)

interpretation samples_cb: table_callback "sample_table b" T_samples "sample_row b" for b
  by unfold_locales (simp_all add: sample_table_def, case_tac t, simp_all)

interpretation call_paths_cb: table_callback call_path_table T_call_paths "\<lambda>x. x"
  by unfold_locales (simp_all add: call_path_table_def, case_tac t, simp_all)

interpretation calls_cb: table_callback call_return_table T_calls "\<lambda>x. x"
  by unfold_locales (simp_all add: call_return_table_def, case_tac t, simp_all)

interpretation context_switches_cb: table_callback context_switch_table T_context_switches "\<lambda>x. x"
  by unfold_locales (simp_all add: context_switch_table_def, case_tac t, simp_all)

interpretation auxtrace_errors_cb: table_callback auxtrace_error T_auxtrace_errors "\<lambda>x. x"
  by unfold_locales (simp_all add: auxtrace_error_def, case_tac t, simp_all)

lemmas callback_data =
  selected_events_cb.data_of_add selected_events_cb.count_kept
  machines_cb.data_of_add machines_cb.count_kept
  threads_cb.data_of_add threads_cb.count_kept
  comms_cb.data_of_add comms_cb.count_kept
  comm_threads_cb.data_of_add comm_threads_cb.count_kept
  dsos_cb.data_of_add dsos_cb.count_kept
  symbols_cb.data_of_add symbols_cb.count_kept
  branch_types_cb.data_of_add branch_types_cb.count_kept
  samples_cb.data_of_add samples_cb.count_kept
  call_paths_cb.data_of_add call_paths_cb.count_kept
  calls_cb.data_of_add calls_cb.count_kept
  context_switches_cb.data_of_add context_switches_cb.count_kept
  auxtrace_errors_cb.data_of_add auxtrace_errors_cb.count_kept


section \<open>The events of a trace\<close>

text \<open>One call perf makes. \<open>Synth i config buf\<close> is a synthesised (power) event.\<close>

datatype perf_event =
    Evsel row
  | Machine row
  | Thread row
  | Comm row
  | Comm_thread row
  | Dso row
  | Symbol row
  | Branch_type row
  | Sample row
  | Call_path row
  | Call_return row
  | Context_switch row
  | Auxtrace_error row
  | Synth int int bytes
  | Unhandled
  | Sched_switch

fun handle :: "export_config \<Rightarrow> perf_event \<Rightarrow> collector \<Rightarrow> collector result" where
  "handle cfg (Evsel x) s = Inr (evsel_table x s)"
| "handle cfg (Machine x) s = Inr (machine_table x s)"
| "handle cfg (Thread x) s = Inr (thread_table x s)"
| "handle cfg (Comm x) s = Inr (comm_table x s)"
| "handle cfg (Comm_thread x) s = Inr (comm_thread_table x s)"
| "handle cfg (Dso x) s = Inr (dso_table x s)"
| "handle cfg (Symbol x) s = Inr (symbol_table x s)"
| "handle cfg (Branch_type x) s = Inr (branch_type_table x s)"
| "handle cfg (Sample x) s = Inr (sample_table (branches cfg) x s)"
| "handle cfg (Call_path x) s = Inr (call_path_table x s)"
| "handle cfg (Call_return x) s = Inr (call_return_table x s)"
| "handle cfg (Context_switch x) s = Inr (context_switch_table x s)"
| "handle cfg (Auxtrace_error x) s = Inr (auxtrace_error x s)"
| "handle cfg (Synth i config buf) s = synth_data i config buf s"
| "handle cfg Unhandled s = Inr (trace_unhandled s)"
| "handle cfg Sched_switch s = Inr (sched_switch s)"

definition run_events :: "export_config \<Rightarrow> perf_event list \<Rightarrow> collector \<Rightarrow> collector result" where
  "run_events cfg evs s = fold_res (handle cfg) evs s"

definition collect :: "export_config \<Rightarrow> perf_event list \<Rightarrow> collector result" where
  "collect cfg evs = run_events cfg evs (trace_begin cfg init_collector)"

end
