(* ===== verification/Export_End.thy ===== *)
theory Export_End
  imports Export_Schema Export_Collect
begin

text \<open>
  \<open>trace_end\<close>: the collected lists are inserted through a data frame, and tables that stayed
  empty are dropped with their views. How the database converts a data frame's column to a table
  column is the argument \<open>conv\<close>: the values of the whole column (a missing cell is \<open>None\<close>), since
  the frame's column type depends on all of them.
\<close>

fun table_name :: "table_id \<Rightarrow> string" where
  "table_name T_selected_events = ''selected_events''"
| "table_name T_machines = ''machines''"
| "table_name T_threads = ''threads''"
| "table_name T_comms = ''comms''"
| "table_name T_comm_threads = ''comm_threads''"
| "table_name T_dsos = ''dsos''"
| "table_name T_symbols = ''symbols''"
| "table_name T_branch_types = ''branch_types''"
| "table_name T_samples = ''samples''"
| "table_name T_call_paths = ''call_paths''"
| "table_name T_calls = ''calls''"
| "table_name T_ptwrite = ''ptwrite''"
| "table_name T_cbr = ''cbr''"
| "table_name T_mwait = ''mwait''"
| "table_name T_pwre = ''pwre''"
| "table_name T_exstop = ''exstop''"
| "table_name T_pwrx = ''pwrx''"
| "table_name T_context_switches = ''context_switches''"
| "table_name T_auxtrace_errors = ''auxtrace_errors''"

section \<open>insert\_data\<close>

text \<open>\<open>pandas.DataFrame(data)\<close> of a list of tuples: as wide as the longest, the rest padded.\<close>

definition frame_width :: "row list \<Rightarrow> nat" where
  "frame_width data = Max (set (map length data))"

definition frame_column :: "row list \<Rightarrow> nat \<Rightarrow> cell option list" where
  "frame_column data j = map (\<lambda>r. if j < length r then Some (r ! j) else None) data"

definition frame_rows ::
  "(coltype \<Rightarrow> cell option list \<Rightarrow> val list result) \<Rightarrow> column list \<Rightarrow> row list \<Rightarrow> val list list result" where
  "frame_rows conv cs data =
     bind_res (map_res (\<lambda>j. conv (ctype (cs ! j)) (frame_column data j)) [0..<length cs])
       (\<lambda>vss. Inr (map (\<lambda>i. map (\<lambda>vs. vs ! i) vss) [0..<length data]))"

text \<open>\<open>NOT NULL PRIMARY KEY\<close>, checked on the rows before and the new ones together.\<close>

definition keys_ok :: "column list \<Rightarrow> val list list \<Rightarrow> bool" where
  "keys_ok cs rows \<longleftrightarrow> list_all (\<lambda>j. primary (cs ! j) \<longrightarrow>
     distinct (map (\<lambda>r. r ! j) rows) \<and> VNull \<notin> set (map (\<lambda>r. r ! j) rows)) [0..<length cs]"

definition insert_data ::
  "(coltype \<Rightarrow> cell option list \<Rightarrow> val list result) \<Rightarrow> string \<Rightarrow> row list \<Rightarrow> database \<Rightarrow> database result" where
  "insert_data conv name data db =
     (if length data = 0 then Inr db
      else case tables db name of
        None \<Rightarrow> Inl (CatalogError name)
      | Some t \<Rightarrow>
          if frame_width data \<noteq> length (tcols t) then Inl (BinderError name)
          else bind_res (frame_rows conv (tcols t) data) (\<lambda>new.
            if keys_ok (tcols t) (trows t @ new)
            then Inr (db\<lparr>tables := (tables db)(name \<mapsto> t\<lparr>trows := trows t @ new\<rparr>)\<rparr>)
            else Inl (ConstraintError name)))"

section \<open>Dropping\<close>

definition is_table_empty :: "string \<Rightarrow> database \<Rightarrow> bool result" where
  "is_table_empty name db = (case tables db name of
      None \<Rightarrow> Inl (CatalogError name)
    | Some t \<Rightarrow> Inr (length (take 1 (trows t)) = 0))"

definition drop_view :: "string \<Rightarrow> database \<Rightarrow> database result" where
  "drop_view n db = (if views db n = None then Inl (CatalogError n)
     else Inr (db\<lparr>views := (views db)(n := None)\<rparr>))"

definition drop_table :: "string \<Rightarrow> database \<Rightarrow> database result" where
  "drop_table n db = (if tables db n = None then Inl (CatalogError n)
     else Inr (db\<lparr>tables := (tables db)(n := None)\<rparr>))"

definition drop_relation :: "string \<Rightarrow> database \<Rightarrow> database result" where
  "drop_relation n db = bind_res (drop_view (n @ ''_view'') db) (drop_table n)"

definition drop_if_empty :: "string \<Rightarrow> database \<Rightarrow> database result" where
  "drop_if_empty n db =
     bind_res (is_table_empty n db) (\<lambda>empty. if empty then drop_relation n db else Inr db)"

text \<open>\<open>and\<close> stops at the first table that has rows.\<close>

fun all_empty :: "string list \<Rightarrow> database \<Rightarrow> bool result" where
  "all_empty [] db = Inr True"
| "all_empty (n # ns) db =
     bind_res (is_table_empty n db) (\<lambda>empty. if empty then all_empty ns db else Inr False)"

definition drop_power_tables :: "database \<Rightarrow> database result" where
  "drop_power_tables db =
     bind_res (all_empty [''mwait'', ''pwre'', ''exstop'', ''pwrx''] db) (\<lambda>unused.
       if unused then
         bind_res (drop_view ''power_events_view'' db) (\<lambda>db.
         bind_res (drop_relation ''mwait'' db) (\<lambda>db.
         bind_res (drop_relation ''pwre'' db) (\<lambda>db.
         bind_res (drop_relation ''exstop'' db) (\<lambda>db.
         bind_res (drop_relation ''pwrx'' db) (drop_if_empty ''cbr'')))))
       else Inr db)"

definition drop_unused :: "database \<Rightarrow> database result" where
  "drop_unused db =
     bind_res (drop_if_empty ''ptwrite'' db) (\<lambda>db.
     bind_res (drop_power_tables db) (\<lambda>db.
     bind_res (drop_if_empty ''context_switches'' db) (drop_if_empty ''auxtrace_errors'')))"

section \<open>trace\_end\<close>

definition all_tables :: "table_id list" where
  "all_tables =
     [T_selected_events, T_machines, T_threads, T_comms, T_comm_threads, T_dsos, T_symbols,
      T_branch_types, T_samples, T_call_paths, T_calls, T_ptwrite, T_cbr, T_mwait, T_pwre,
      T_exstop, T_pwrx, T_context_switches, T_auxtrace_errors]"

definition insert_all ::
  "(coltype \<Rightarrow> cell option list \<Rightarrow> val list result) \<Rightarrow> collector \<Rightarrow> database \<Rightarrow> database result" where
  "insert_all conv s = fold_res (\<lambda>t. insert_data conv (table_name t) (data_of t s)) all_tables"

definition trace_end ::
  "(coltype \<Rightarrow> cell option list \<Rightarrow> val list result) \<Rightarrow> collector \<Rightarrow> database \<Rightarrow> database result" where
  "trace_end conv s db =
     bind_res (insert_all conv s db) (\<lambda>db.
     bind_res (drop_unused db) (\<lambda>db. Inr (db\<lparr>is_open := False\<rparr>)))"

text \<open>The whole script: arguments, schema, the trace's events, and the end.\<close>

definition export ::
  "(string \<Rightarrow> bool) \<Rightarrow> (coltype \<Rightarrow> cell option list \<Rightarrow> val list result)
     \<Rightarrow> bool \<Rightarrow> string list \<Rightarrow> perf_event list \<Rightarrow> database result" where
  "export can_open conv hp argv evs =
     bind_res (start_export can_open argv) (\<lambda>cfg.
     bind_res (init_db hp cfg) (\<lambda>db.
     bind_res (collect cfg evs) (\<lambda>s. trace_end conv s db)))"

end
