(* ===== verification/Sql.thy ===== *)
theory Sql
  imports Prelude
begin

text \<open>
  The part of SQL that the queries of the program use: a table is a list of rows, NULL is
  \<open>None\<close>, and a condition that evaluates to NULL selects nothing. Window functions follow the
  standard: a RANGE frame from the start of the partition sums over the rows whose key is at
  most the current row's, peers included, and \<open>lag\<close> reads the previous row of the order.

  DuckDB's ASOF join pairs a row of the left table with the nearest matching row of the right
  table. Which of several rows at the same nearest key it takes is not documented, so the
  choice is a parameter \<open>pick\<close> of every query that joins this way, and the documented
  behaviour is the locale \<open>asof_engine\<close>.
\<close>

section \<open>Conditions on nullable values\<close>

definition sql_between :: "int option \<Rightarrow> int \<Rightarrow> int \<Rightarrow> bool" where
  "sql_between x a b = (case x of None \<Rightarrow> False | Some v \<Rightarrow> a \<le> v \<and> v \<le> b)"

lemma sql_between_simps [simp]:
  "sql_between None a b = False"
  "sql_between (Some v) a b = (a \<le> v \<and> v \<le> b)"
  by (simp_all add: sql_between_def)

section \<open>Aggregates\<close>

definition sql_min :: "int list \<Rightarrow> int option" where
  "sql_min xs = (case xs of [] \<Rightarrow> None | y # ys \<Rightarrow> Some (fold min ys y))"

definition sql_max :: "int list \<Rightarrow> int option" where
  "sql_max xs = (case xs of [] \<Rightarrow> None | y # ys \<Rightarrow> Some (fold max ys y))"

lemma fold_min_least:
  "fold min xs (a::int) \<in> insert a (set xs) \<and> (\<forall>x\<in>insert a (set xs). fold min xs a \<le> x)"
proof (induction xs arbitrary: a)
  case Nil
  then show ?case by simp
next
  case (Cons y ys)
  have "min y a = y \<or> min y a = a" by (simp add: min_def)
  then show ?case using Cons.IH [of "min y a"] by fastforce
qed

lemma fold_max_greatest:
  "fold max xs (a::int) \<in> insert a (set xs) \<and> (\<forall>x\<in>insert a (set xs). x \<le> fold max xs a)"
proof (induction xs arbitrary: a)
  case Nil
  then show ?case by simp
next
  case (Cons y ys)
  have "max y a = y \<or> max y a = a" by (simp add: max_def)
  then show ?case using Cons.IH [of "max y a"] by fastforce
qed

lemma sql_min_None_iff [simp]: "sql_min xs = None \<longleftrightarrow> xs = []"
  by (simp add: sql_min_def split: list.splits)

lemma sql_max_None_iff [simp]: "sql_max xs = None \<longleftrightarrow> xs = []"
  by (simp add: sql_max_def split: list.splits)

lemma sql_min_Some_iff: "sql_min xs = Some m \<longleftrightarrow> m \<in> set xs \<and> (\<forall>x\<in>set xs. m \<le> x)"
proof (cases xs)
  case Nil
  then show ?thesis by (simp add: sql_min_def)
next
  case (Cons y ys)
  then show ?thesis
    using fold_min_least [of ys y] by (auto simp: sql_min_def intro: order_antisym)
qed

lemma sql_max_Some_iff: "sql_max xs = Some m \<longleftrightarrow> m \<in> set xs \<and> (\<forall>x\<in>set xs. x \<le> m)"
proof (cases xs)
  case Nil
  then show ?thesis by (simp add: sql_max_def)
next
  case (Cons y ys)
  then show ?thesis
    using fold_max_greatest [of ys y] by (auto simp: sql_max_def intro: order_antisym)
qed

section \<open>Window functions\<close>

definition range_sum :: "('r \<Rightarrow> int) \<Rightarrow> ('r \<Rightarrow> int) \<Rightarrow> 'r list \<Rightarrow> 'r \<Rightarrow> int" where
  "range_sum key val rows r = (\<Sum>s\<leftarrow>rows. if key s \<le> key r then val s else 0)"

text \<open>Over a table listed in the strict order of its key, the frame is a prefix.\<close>

lemma range_sum_prefix:
  assumes "sorted_wrt (\<lambda>a b. key a < key b) rows" and "i < length rows"
  shows "range_sum key val rows (rows ! i) = sum_list (map val (take (Suc i) rows))"
proof -
  let ?f = "\<lambda>s. if key s \<le> key (rows ! i) then val s else 0"
  have lt: "key (rows ! a) < key (rows ! b)" if "a < b" "b < length rows" for a b
    using sorted_wrt_nth_less [OF assms(1) that] .
  have keep: "map ?f (take (Suc i) rows) = map val (take (Suc i) rows)"
  proof (rule map_cong [OF refl])
    fix s assume "s \<in> set (take (Suc i) rows)"
    then obtain j where "j \<le> i" "s = rows ! j"
      by (auto simp: in_set_conv_nth less_Suc_eq_le)
    then show "?f s = val s" using lt [of j i] assms(2) by (cases "j = i") auto
  qed
  have zero: "sum_list (map ?f (drop (Suc i) rows)) = 0"
  proof -
    have "map ?f (drop (Suc i) rows) = map (\<lambda>_. 0) (drop (Suc i) rows)"
    proof (rule map_cong [OF refl])
      fix s assume "s \<in> set (drop (Suc i) rows)"
      then obtain j where "j < length rows - Suc i" "s = rows ! (Suc i + j)"
        by (auto simp: in_set_conv_nth)
      moreover from this(1) have "Suc i + j < length rows" by linarith
      ultimately show "?f s = 0" using lt [of i "Suc i + j"] by auto
    qed
    then show ?thesis by (simp only: sum_list_0)
  qed
  have "range_sum key val rows (rows ! i) =
      sum_list (map ?f (take (Suc i) rows @ drop (Suc i) rows))"
    unfolding range_sum_def by (simp only: append_take_drop_id)
  then show ?thesis by (simp only: map_append sum_list_append zero keep add_0_right)
qed

definition lag1 :: "('r \<Rightarrow> 'v) \<Rightarrow> 'r list \<Rightarrow> 'v option list" where
  "lag1 f rows = take (length rows) (None # map (\<lambda>r. Some (f r)) rows)"

lemma length_lag1 [simp]: "length (lag1 f rows) = length rows"
  by (simp add: lag1_def)

lemma lag1_nth:
  "i < length rows \<Longrightarrow> lag1 f rows ! i = (if i = 0 then None else Some (f (rows ! (i - 1))))"
  by (simp add: lag1_def nth_Cons')

section \<open>The ASOF join\<close>

locale asof_engine =
  fixes pick :: "int option list \<Rightarrow> nat option"
  assumes pick_None: "pick ks = None \<longleftrightarrow> (\<forall>k\<in>set ks. k = None)"
    and pick_Some: "pick ks = Some i \<Longrightarrow> i < length ks \<and> ks ! i \<noteq> None"
    and pick_least: "pick ks = Some i \<Longrightarrow> ks ! i = Some k \<Longrightarrow> Some k' \<in> set ks \<Longrightarrow> k \<le> k'"

definition asof_least ::
  "(int option list \<Rightarrow> nat option) \<Rightarrow> ('r \<Rightarrow> bool) \<Rightarrow> ('r \<Rightarrow> int) \<Rightarrow> 'r list \<Rightarrow> 'r option" where
  "asof_least pick cond key rows =
     map_option (\<lambda>i. rows ! i) (pick (map (\<lambda>r. if cond r then Some (key r) else None) rows))"

context asof_engine begin

lemma asof_None_iff: "asof_least pick cond key rows = None \<longleftrightarrow> (\<forall>r\<in>set rows. \<not> cond r)"
  by (auto simp: asof_least_def pick_None)

lemma asof_SomeD:
  assumes "asof_least pick cond key rows = Some r"
  shows "r \<in> set rows" "cond r" "s \<in> set rows \<Longrightarrow> cond s \<Longrightarrow> key r \<le> key s"
proof -
  let ?ks = "map (\<lambda>r. if cond r then Some (key r) else None) rows"
  obtain i where i: "pick ?ks = Some i" "r = rows ! i"
    using assms by (auto simp: asof_least_def)
  have len: "i < length rows" using pick_Some [OF i(1)] by simp
  then have "?ks ! i = (if cond r then Some (key r) else None)" using i(2) by simp
  with pick_Some [OF i(1)] show c: "cond r" by (cases "cond r") simp_all
  show "r \<in> set rows" using len i(2) by simp
  assume s: "s \<in> set rows" "cond s"
  then have "Some (key s) \<in> set ?ks" by (auto simp: image_iff intro: bexI [of _ s])
  then show "key r \<le> key s"
    using pick_least [OF i(1), of "key r" "key s"] c i(2) len by simp
qed

lemma asof_exists: "r \<in> set rows \<Longrightarrow> cond r \<Longrightarrow> \<exists>s. asof_least pick cond key rows = Some s"
  using asof_None_iff [of cond key rows] by (cases "asof_least pick cond key rows") auto

lemma asof_SomeI:
  assumes "r \<in> set rows" "cond r" "\<And>s. s \<in> set rows \<Longrightarrow> cond s \<Longrightarrow> key r \<le> key s"
    and "inj_on key (set rows)"
  shows "asof_least pick cond key rows = Some r"
proof -
  obtain s where s: "asof_least pick cond key rows = Some s"
    using asof_exists [of r rows cond key] assms(1,2) by blast
  have "key s = key r"
    using asof_SomeD [OF s] assms(1-3) by (meson order_antisym)
  then show ?thesis using s asof_SomeD(1) [OF s] assms(1,4) by (auto dest: inj_onD)
qed

end

text \<open>The engine that takes the first of the nearest rows.\<close>

fun pick_first :: "int option list \<Rightarrow> nat option" where
  "pick_first [] = None"
| "pick_first (None # ks) = map_option Suc (pick_first ks)"
| "pick_first (Some k # ks) =
     (case pick_first ks of
        None \<Rightarrow> Some 0
      | Some j \<Rightarrow> (case ks ! j of
          None \<Rightarrow> Some 0
        | Some k' \<Rightarrow> if k \<le> k' then Some 0 else Some (Suc j)))"

lemma pick_first_None: "pick_first ks = None \<longleftrightarrow> (\<forall>k\<in>set ks. k = None)"
  by (induction ks rule: pick_first.induct) (auto split: option.splits if_splits)

lemma pick_first_Some: "pick_first ks = Some i \<Longrightarrow> i < length ks \<and> ks ! i \<noteq> None"
  by (induction ks arbitrary: i rule: pick_first.induct)
    (auto split: option.splits if_splits)

lemma pick_first_least:
  "pick_first ks = Some i \<Longrightarrow> ks ! i = Some k \<Longrightarrow> Some k' \<in> set ks \<Longrightarrow> k \<le> k'"
proof (induction ks arbitrary: i k k' rule: pick_first.induct)
  case 1
  then show ?case by simp
next
  case (2 ks)
  then show ?case by auto
next
  case (3 a ks)
  show ?case
  proof (cases "pick_first ks")
    case None
    then have "i = 0" using "3.prems"(1) by simp
    moreover have "\<forall>x\<in>set ks. x = None" using None by (simp add: pick_first_None)
    ultimately show ?thesis using "3.prems"(2,3) by auto
  next
    case (Some j)
    then obtain b where b: "ks ! j = Some b" using pick_first_Some by fastforce
    have "\<And>x. Some x \<in> set ks \<Longrightarrow> b \<le> x"
      using "3.IH" [OF Some b] by blast
    then show ?thesis using "3.prems" Some b by (fastforce split: if_splits)
  qed
qed

interpretation first_engine: asof_engine pick_first
  by unfold_locales (rule pick_first_None | erule pick_first_Some | erule (2) pick_first_least)+

end
