(* ===== verification/Call_Hierarchy.thy ===== *)
theory Call_Hierarchy
  imports Sql
begin

text \<open>
  The recursive query at the head of \<open>events_prep\<close>: every call is paired with each of its callers,
  at increasing depth. A recursive common table expression is evaluated level by level until a
  level is empty, which a cyclic parent chain prevents: the evaluation is a partial function, and
  \<open>hierarchy_terminates_iff\<close> says exactly when it returns. The specification is the call
  stack of each call (\<open>stack\<close>).
\<close>

section \<open>Rows\<close>

text \<open>The columns of \<open>calls\<close> the queries read; only \<open>id\<close> is NOT NULL.\<close>

record call =
  cid :: int
  parent_id :: "int option"
  call_path_id :: "int option"
  call_time :: "int option"
  return_time :: "int option"

text \<open>\<open>call_hierarchy\<close>: a caller (or the call itself, at depth 0) of the call \<open>group_id\<close>.\<close>

record hier_row = call +
  group_id :: int
  depth :: nat

definition hier_of :: "call \<Rightarrow> int \<Rightarrow> nat \<Rightarrow> hier_row" where
  "hier_of c g d = call.extend c \<lparr>group_id = g, depth = d\<rparr>"

section \<open>The recursive query\<close>

definition base_case :: "call list \<Rightarrow> hier_row list" where
  "base_case calls = map (\<lambda>c. hier_of c (cid c) 0) calls"

definition recursive_case :: "call list \<Rightarrow> hier_row list \<Rightarrow> hier_row list" where
  "recursive_case calls children =
     concat (map (\<lambda>ch. if cid ch \<noteq> 0
         then map (\<lambda>p. hier_of p (group_id ch) (depth ch + 1))
                (filter (\<lambda>p. parent_id ch = Some (cid p)) calls)
         else []) children)"

partial_function (option) hierarchy_from :: "call list \<Rightarrow> hier_row list \<Rightarrow> hier_row list option" where
  "hierarchy_from calls level =
     (if level = [] then Some []
      else Option.bind (hierarchy_from calls (recursive_case calls level)) (\<lambda>rest. Some (level @ rest)))"

definition call_hierarchy :: "call list \<Rightarrow> hier_row list option" where
  "call_hierarchy calls = hierarchy_from calls (base_case calls)"

declare hierarchy_from.simps [code]

section \<open>Levels\<close>

abbreviation level :: "call list \<Rightarrow> nat \<Rightarrow> hier_row list" where
  "level calls n \<equiv> (recursive_case calls ^^ n) (base_case calls)"

lemma recursive_case_Nil [simp]: "recursive_case calls [] = []"
  by (simp add: recursive_case_def)

lemma levels_stay_Nil: "(recursive_case calls ^^ n) l = [] \<Longrightarrow> n \<le> m \<Longrightarrow> (recursive_case calls ^^ m) l = []"
proof -
  assume *: "(recursive_case calls ^^ n) l = []" "n \<le> m"
  have "(recursive_case calls ^^ k) [] = []" for k by (induction k) simp_all
  with * show ?thesis by (metis funpow_add le_add_diff_inverse2 comp_apply)
qed

lemma hierarchy_from_Some:
  "hierarchy_from calls l = Some hs \<Longrightarrow>
     \<exists>n. (recursive_case calls ^^ n) l = [] \<and> hs = concat (map (\<lambda>k. (recursive_case calls ^^ k) l) [0..<n])"
proof (induction rule: hierarchy_from.raw_induct [rotated, consumes 1, case_names step])
  case (step f calls l hs)
  show ?case
  proof (cases "l = []")
    case True
    with step show ?thesis by (intro exI [of _ 0]) simp
  next
    case False
    with step.hyps step.prems obtain rest where "f calls (recursive_case calls l) = Some rest" "hs = l @ rest"
      by (auto simp: bind_eq_Some_conv)
    with step.IH obtain n where n: "(recursive_case calls ^^ n) (recursive_case calls l) = []"
      "hs = l @ concat (map (\<lambda>k. (recursive_case calls ^^ k) (recursive_case calls l)) [0..<n])" by blast
    have "map (\<lambda>k. (recursive_case calls ^^ k) l) [0..<Suc n]
        = l # map (\<lambda>k. (recursive_case calls ^^ k) (recursive_case calls l)) [0..<n]"
      by (simp add: map_upt_Suc funpow_swap1 del: upt_Suc)
    with n show ?thesis
      by (intro exI [of _ "Suc n"]) (simp add: funpow_swap1 del: upt_Suc)
  qed
qed

lemma hierarchy_from_returns:
  "(recursive_case calls ^^ n) l = [] \<Longrightarrow>
     hierarchy_from calls l = Some (concat (map (\<lambda>k. (recursive_case calls ^^ k) l) [0..<n]))"
proof (induction n arbitrary: l)
  case 0
  then show ?case by (subst hierarchy_from.simps) simp
next
  case (Suc n)
  have IH: "hierarchy_from calls (recursive_case calls l)
      = Some (concat (map (\<lambda>k. (recursive_case calls ^^ k) (recursive_case calls l)) [0..<n]))"
    using Suc by (simp add: funpow_swap1)
  have eq: "map (\<lambda>k. (recursive_case calls ^^ k) l) [0..<Suc n]
      = l # map (\<lambda>k. (recursive_case calls ^^ k) (recursive_case calls l)) [0..<n]"
    by (simp add: map_upt_Suc funpow_swap1 del: upt_Suc)
  show ?case
  proof (cases "l = []")
    case True
    then have "concat (map (\<lambda>k. (recursive_case calls ^^ k) l) [0..<Suc n]) = []"
      using levels_stay_Nil [of 0 calls l] by (auto simp: concat_eq_Nil_conv)
    with True show ?thesis by (subst hierarchy_from.simps) simp
  next
    case False
    then show ?thesis by (simp add: hierarchy_from.simps [of calls l] IH eq del: upt_Suc)
  qed
qed

lemma call_hierarchy_Some_iff:
  "(\<exists>hs. call_hierarchy calls = Some hs) \<longleftrightarrow> (\<exists>n. level calls n = [])"
  using hierarchy_from_Some [of calls "base_case calls"] hierarchy_from_returns [of _ calls "base_case calls"]
  unfolding call_hierarchy_def by blast

lemma hier_of_sel [simp]:
  "cid (hier_of c g d) = cid c" "parent_id (hier_of c g d) = parent_id c"
  "call_path_id (hier_of c g d) = call_path_id c" "call_time (hier_of c g d) = call_time c"
  "return_time (hier_of c g d) = return_time c"
  "group_id (hier_of c g d) = g" "depth (hier_of c g d) = d"
  by (simp_all add: hier_of_def call.extend_def)

definition caller :: "call list \<Rightarrow> (call \<times> call) set" where
  "caller calls = {(c, p). c \<in> set calls \<and> p \<in> set calls \<and> cid c \<noteq> 0 \<and> parent_id c = Some (cid p)}"

lemma caller_relpow_mem: "(c, p) \<in> caller calls ^^ n \<Longrightarrow> c \<in> set calls \<Longrightarrow> p \<in> set calls"
  by (cases n) (auto simp: caller_def)

lemma recursive_case_member:
  "h \<in> set (recursive_case calls children) \<longleftrightarrow>
     (\<exists>ch\<in>set children. cid ch \<noteq> 0 \<and>
        (\<exists>p\<in>set calls. parent_id ch = Some (cid p) \<and> h = hier_of p (group_id ch) (depth ch + 1)))"
  by (auto simp: recursive_case_def)

lemma level_member:
  "h \<in> set (level calls n) \<longleftrightarrow> (\<exists>c\<in>set calls. \<exists>p. (c, p) \<in> caller calls ^^ n \<and> h = hier_of p (cid c) n)"
proof (induction n arbitrary: h)
  case 0
  show ?case by (auto simp: base_case_def)
next
  case (Suc n)
  have step: "level calls (Suc n) = recursive_case calls (level calls n)" by simp
  show ?case
  proof
    assume "h \<in> set (level calls (Suc n))"
    then obtain ch p where ch: "ch \<in> set (level calls n)" "cid ch \<noteq> 0" "p \<in> set calls"
        "parent_id ch = Some (cid p)" "h = hier_of p (group_id ch) (depth ch + 1)"
      unfolding step recursive_case_member by blast
    then obtain c q where q: "c \<in> set calls" "(c, q) \<in> caller calls ^^ n" "ch = hier_of q (cid c) n"
      unfolding Suc.IH by blast
    then have "(q, p) \<in> caller calls" using ch caller_relpow_mem [OF q(2,1)] by (simp add: caller_def)
    with q(2) have "(c, p) \<in> caller calls ^^ Suc n" by (rule relpow_Suc_I)
    with q ch(5) show "\<exists>c\<in>set calls. \<exists>p. (c, p) \<in> caller calls ^^ Suc n \<and> h = hier_of p (cid c) (Suc n)"
      by auto
  next
    assume "\<exists>c\<in>set calls. \<exists>p. (c, p) \<in> caller calls ^^ Suc n \<and> h = hier_of p (cid c) (Suc n)"
    then obtain c q p where q: "c \<in> set calls" "(c, q) \<in> caller calls ^^ n" "(q, p) \<in> caller calls"
        "h = hier_of p (cid c) (Suc n)"
      by (meson relpow_Suc_E)
    then have "hier_of q (cid c) n \<in> set (level calls n)" unfolding Suc.IH by blast
    with q(3,4) show "h \<in> set (level calls (Suc n))"
      unfolding step recursive_case_member
      by (intro bexI [of _ "hier_of q (cid c) n"]) (auto simp: caller_def)
  qed
qed

lemma level_Nil_iff: "level calls n = [] \<longleftrightarrow> (\<forall>c\<in>set calls. \<forall>p. (c, p) \<notin> caller calls ^^ n)"
proof -
  have "level calls n = [] \<longleftrightarrow> (\<forall>h. h \<notin> set (level calls n))" by (metis empty_iff list.set(1) list.set_intros(1) neq_Nil_conv)
  then show ?thesis unfolding level_member by blast
qed

lemma caller_finite: "finite (caller calls)"
  by (rule finite_subset [of _ "set calls \<times> set calls"]) (auto simp: caller_def)

lemma chain_rtrancl:
  "i \<le> j \<Longrightarrow> \<forall>i<n. (f i, f (Suc i)) \<in> r \<Longrightarrow> j \<le> n \<Longrightarrow> (f i, f j) \<in> r\<^sup>*"
  by (induction j rule: dec_induct) (auto intro: rtrancl_into_rtrancl)

lemma acyclic_chain_bound:
  assumes "finite r" and "acyclic r"
  shows "r ^^ Suc (card (fst ` r)) = {}"
proof (rule ccontr)
  let ?n = "Suc (card (fst ` r))"
  assume "r ^^ ?n \<noteq> {}"
  then obtain a b where "(a, b) \<in> r ^^ ?n" by (metis ex_in_conv surj_pair)
  then obtain f where f: "f 0 = a" "\<forall>i<?n. (f i, f (Suc i)) \<in> r" unfolding relpow_fun_conv by blast
  then have "f ` {..<?n} \<subseteq> fst ` r" by (force simp: image_iff)
  then have "card (f ` {..<?n}) < ?n"
    using card_mono [of "fst ` r" "f ` {..<?n}"] assms(1) by simp
  then have "\<not> inj_on f {..<?n}" using card_image [of f "{..<?n}"] by auto
  then obtain i j where ij: "i < j" "j < ?n" "f i = f j"
    unfolding inj_on_def by (metis lessThan_iff linorder_neqE_nat)
  have "(f i, f (Suc i)) \<in> r" "Suc i \<le> j" "j \<le> ?n" using f(2) ij(1,2) by simp_all
  then have "(f i, f j) \<in> r\<^sup>+"
    using chain_rtrancl [OF _ f(2)] by (meson rtrancl_into_trancl2)
  with assms(2) ij(3) show False by (simp add: acyclic_def)
qed

lemma acyclic_iff_no_long_chain:
  assumes "finite r"
  shows "acyclic r \<longleftrightarrow> (\<exists>n. r ^^ n = {})"
proof
  assume "acyclic r"
  then show "\<exists>n. r ^^ n = {}" using acyclic_chain_bound [OF assms] by blast
next
  assume "\<exists>n. r ^^ n = {}"
  then obtain n where n: "r ^^ n = {}" by blast
  show "acyclic r"
  proof (rule acyclicI, rule allI, rule notI)
    fix x assume x: "(x, x) \<in> r\<^sup>+"
    have "\<exists>y. (x, y) \<in> r ^^ k \<and> (y, x) \<in> r\<^sup>+" for k
    proof (induction k)
      case 0
      show ?case using x by auto
    next
      case (Suc k)
      then obtain y where y: "(x, y) \<in> r ^^ k" "(y, x) \<in> r\<^sup>+" by blast
      then obtain z where "(y, z) \<in> r" "(z, x) \<in> r\<^sup>*" by (meson tranclD)
      with y x show ?case by (meson relpow_Suc_I rtrancl_trancl_trancl)
    qed
    with n show False by blast
  qed
qed

lemma hierarchy_returns_iff:
  "(\<exists>hs. call_hierarchy calls = Some hs) \<longleftrightarrow> acyclic (caller calls)"
proof -
  have "(\<exists>n. level calls n = []) \<longleftrightarrow> (\<exists>n. caller calls ^^ n = {})"
  proof
    assume "\<exists>n. level calls n = []"
    then obtain n where n: "\<forall>c\<in>set calls. \<forall>p. (c, p) \<notin> caller calls ^^ n" unfolding level_Nil_iff by blast
    have "caller calls ^^ Suc n = {}"
    proof -
      have False if cp: "(c, p) \<in> caller calls ^^ Suc n" for c p
      proof -
        obtain q where "(c, q) \<in> caller calls ^^ n" using relpow_Suc_E [OF cp] by blast
        moreover have "c \<in> set calls"
          by (rule relpow_Suc_E2 [OF cp]) (simp add: caller_def)
        ultimately show False using n by blast
      qed
      then show ?thesis by fast
    qed
    then show "\<exists>n. caller calls ^^ n = {}" by blast
  next
    assume "\<exists>n. caller calls ^^ n = {}"
    then obtain n where "caller calls ^^ n = {}" by blast
    then show "\<exists>n. level calls n = []" unfolding level_Nil_iff by (intro exI [of _ n]) simp
  qed
  then show ?thesis by (simp only: call_hierarchy_Some_iff acyclic_iff_no_long_chain [OF caller_finite])
qed

text \<open>C4: The recursive query returns exactly when no call is its own ancestor, where the parent of
  call 0 does not count.\<close>

theorem hierarchy_terminates_iff:
  "(\<exists>hs. call_hierarchy calls = Some hs) \<longleftrightarrow> acyclic (caller calls)"
  by (rule hierarchy_returns_iff)

section \<open>Call stacks\<close>

text \<open>The specification: a call, its caller, and so on. The fuel is one more than the number of
  calls; \<open>group_hierarchy\<close> shows that it is enough.\<close>

definition caller_of :: "call list \<Rightarrow> call \<Rightarrow> call option" where
  "caller_of calls c =
     (if cid c = 0 then None
      else Option.bind (parent_id c) (\<lambda>i. find (\<lambda>p. cid p = i) calls))"

fun frames :: "call list \<Rightarrow> nat \<Rightarrow> call \<Rightarrow> call list" where
  "frames calls 0 c = []"
| "frames calls (Suc n) c = c # (case caller_of calls c of None \<Rightarrow> [] | Some p \<Rightarrow> frames calls n p)"

definition call_stack :: "call list \<Rightarrow> call \<Rightarrow> call list" where
  "call_stack calls c = frames calls (Suc (length calls)) c"

fun nth_caller :: "call list \<Rightarrow> nat \<Rightarrow> call \<Rightarrow> call option" where
  "nth_caller calls 0 c = Some c"
| "nth_caller calls (Suc n) c = Option.bind (caller_of calls c) (nth_caller calls n)"

lemma nth_caller_Suc_right:
  "nth_caller calls (Suc n) c = Option.bind (nth_caller calls n c) (caller_of calls)"
proof (induction n arbitrary: c)
  case 0
  show ?case by (cases "caller_of calls c") simp_all
next
  case (Suc n)
  show ?case using Suc.IH by (cases "caller_of calls c") simp_all
qed

lemma frames_eq:
  "concat (map (\<lambda>k. case nth_caller calls k c of None \<Rightarrow> [] | Some p \<Rightarrow> [hier_of p g (d + k)]) [0..<n])
     = map (\<lambda>(k, p). hier_of p g k) (enumerate d (frames calls n c))"
proof (induction n arbitrary: c d)
  case 0
  show ?case by simp
next
  case (Suc n)
  show ?case
  proof (cases "caller_of calls c")
    case None
    then show ?thesis by (simp add: map_upt_Suc del: upt_Suc)
  next
    case (Some p)
    then show ?thesis using Suc.IH [of "Suc d" p] by (simp add: map_upt_Suc cong: option.case_cong del: upt_Suc)
  qed
qed

lemma frames_enough:
  "nth_caller calls n c = None \<Longrightarrow> n \<le> m \<Longrightarrow> frames calls m c = frames calls n c"
proof (induction n arbitrary: c m)
  case 0
  then show ?case by simp
next
  case (Suc n)
  then obtain k where "m = Suc k" "n \<le> k" by (cases m) auto
  with Suc.prems Suc.IH [where m = k] show ?case by (cases "caller_of calls c") simp_all
qed

lemma frames_nth: "i < length (frames calls n c) \<Longrightarrow> nth_caller calls i c = Some (frames calls n c ! i)"
proof (induction n arbitrary: c i)
  case 0
  then show ?case by simp
next
  case (Suc n)
  then show ?case by (cases i) (auto split: option.splits)
qed

lemma find_key: "distinct (map f xs) \<Longrightarrow> find (\<lambda>x. f x = k) xs = Some y \<longleftrightarrow> y \<in> set xs \<and> f y = k"
  by (induction xs) (auto simp: image_iff)

lemma filter_key:
  "distinct (map f xs) \<Longrightarrow> filter (\<lambda>x. k = f x) xs = (case find (\<lambda>x. f x = k) xs of None \<Rightarrow> [] | Some x \<Rightarrow> [x])"
  by (induction xs) (auto simp: filter_empty_conv image_iff)

lemma caller_of_Some:
  assumes "distinct (map cid calls)" "c \<in> set calls"
  shows "caller_of calls c = Some p \<longleftrightarrow> (c, p) \<in> caller calls"
  using assms by (auto simp: caller_of_def caller_def bind_eq_Some_conv find_key)

lemma nth_caller_member:
  assumes "distinct (map cid calls)" "c \<in> set calls"
  shows "nth_caller calls n c = Some p \<longleftrightarrow> (c, p) \<in> caller calls ^^ n"
proof (induction n arbitrary: p)
  case 0
  show ?case by simp
next
  case (Suc n)
  have "nth_caller calls (Suc n) c = Some p \<longleftrightarrow>
      (\<exists>q. (c, q) \<in> caller calls ^^ n \<and> caller_of calls q = Some p)"
    by (simp only: nth_caller_Suc_right bind_eq_Some_conv Suc.IH)
  also have "\<dots> \<longleftrightarrow> (\<exists>q. (c, q) \<in> caller calls ^^ n \<and> (q, p) \<in> caller calls)"
    using caller_of_Some [OF assms(1)] caller_relpow_mem [OF _ assms(2)] by blast
  also have "\<dots> \<longleftrightarrow> (c, p) \<in> caller calls ^^ Suc n" by auto
  finally show ?case .
qed

text \<open>One level of the query, restricted to the rows of one call.\<close>

lemma filter_recursive_case:
  "filter (\<lambda>h. group_id h = g) (recursive_case calls l) = recursive_case calls (filter (\<lambda>h. group_id h = g) l)"
  by (induction l) (auto simp: recursive_case_def filter_map comp_def)

lemma recursive_case_single:
  assumes "distinct (map cid calls)"
  shows "recursive_case calls [hier_of p g n] =
    (case caller_of calls p of None \<Rightarrow> [] | Some q \<Rightarrow> [hier_of q g (Suc n)])"
proof (cases "parent_id p")
  case None
  then show ?thesis by (simp add: recursive_case_def caller_of_def)
next
  case (Some i)
  then show ?thesis using filter_key [OF assms, of i]
    by (simp add: recursive_case_def caller_of_def split: option.split)
qed

lemma group_level:
  assumes "distinct (map cid calls)" "c \<in> set calls"
  shows "filter (\<lambda>h. group_id h = cid c) (level calls n) =
    (case nth_caller calls n c of None \<Rightarrow> [] | Some p \<Rightarrow> [hier_of p (cid c) n])"
proof (induction n)
  case 0
  have "find (\<lambda>x. cid x = cid c) calls = Some c" using assms by (simp add: find_key)
  then have "filter (\<lambda>x. cid x = cid c) calls = [c]"
    using filter_key [OF assms(1), of "cid c"] by (simp add: eq_commute [of "cid c"])
  then show ?case by (simp add: base_case_def filter_map comp_def)
next
  case (Suc n)
  then show ?case
    by (cases "nth_caller calls n c")
      (simp_all add: filter_recursive_case nth_caller_Suc_right recursive_case_single [OF assms(1)]
        del: nth_caller.simps(2))
qed

lemma nth_caller_bound:
  assumes "distinct (map cid calls)" "c \<in> set calls" "acyclic (caller calls)" "Suc (length calls) \<le> n"
  shows "nth_caller calls n c = None"
proof (rule ccontr)
  let ?b = "Suc (card (fst ` caller calls))"
  assume "nth_caller calls n c \<noteq> None"
  then obtain p where "(c, p) \<in> caller calls ^^ n" using nth_caller_member [OF assms(1,2)] by blast
  moreover have "?b \<le> n"
    using assms(4) card_mono [of "set calls" "fst ` caller calls"] card_length [of calls]
    by (force simp: caller_def)
  then have "caller calls ^^ n = caller calls ^^ ?b O caller calls ^^ (n - ?b)"
    by (metis le_add_diff_inverse relpow_add)
  moreover have "caller calls ^^ ?b = {}" by (rule acyclic_chain_bound [OF caller_finite assms(3)])
  ultimately show False by simp
qed

lemma group_hierarchy:
  assumes "distinct (map cid calls)" and "call_hierarchy calls = Some hs" and "c \<in> set calls"
  shows "filter (\<lambda>h. group_id h = cid c) hs
    = map (\<lambda>(d, p). hier_of p (cid c) d) (enumerate 0 (call_stack calls c))"
proof -
  have acyc: "acyclic (caller calls)" using assms(2) hierarchy_returns_iff [of calls] by blast
  obtain n where n: "level calls n = []" "hs = concat (map (level calls) [0..<n])"
    using hierarchy_from_Some assms(2) unfolding call_hierarchy_def by blast
  let ?g = "\<lambda>h. group_id h = cid c"
  have "filter ?g hs = concat (map (\<lambda>k. filter ?g (level calls k)) [0..<n])"
    by (simp add: n(2) filter_concat comp_def)
  also have "\<dots> = map (\<lambda>(d, p). hier_of p (cid c) d) (enumerate 0 (frames calls n c))"
    using frames_eq [where g = "cid c" and d = 0 and c = c and n = n and calls = calls]
    by (simp add: group_level [OF assms(1,3)] cong: option.case_cong)
  also have "frames calls n c = call_stack calls c"
  proof -
    have "nth_caller calls n c = None"
      using group_level [OF assms(1,3), of n] n(1) by (auto split: option.splits)
    then have "n \<le> Suc (length calls) \<Longrightarrow> ?thesis"
      unfolding call_stack_def by (rule frames_enough [symmetric])
    moreover have "Suc (length calls) \<le> n \<Longrightarrow> ?thesis"
      unfolding call_stack_def by (rule frames_enough) (simp_all only: nth_caller_bound [OF assms(1,3) acyc order_refl])
    ultimately show ?thesis by linarith
  qed
  finally show ?thesis .
qed

lemma call_stack_Cons:
  assumes "distinct (map cid calls)" "acyclic (caller calls)" "c \<in> set calls"
  shows "call_stack calls c = c # (case caller_of calls c of None \<Rightarrow> [] | Some p \<Rightarrow> call_stack calls p)"
proof (cases "caller_of calls c")
  case None
  then show ?thesis by (simp add: call_stack_def)
next
  case (Some p)
  then have "nth_caller calls (length calls) p = None"
    using nth_caller_bound [OF assms(1,3,2) order_refl] by simp
  then have "frames calls (Suc (length calls)) p = frames calls (length calls) p"
    by (rule frames_enough) simp
  with Some show ?thesis by (simp add: call_stack_def del: frames.simps(2)) simp
qed

lemma hierarchy_groups:
  assumes "call_hierarchy calls = Some hs" "h \<in> set hs"
  shows "\<exists>c\<in>set calls. group_id h = cid c"
proof -
  obtain n where "hs = concat (map (level calls) [0..<n])"
    using hierarchy_from_Some assms(1) unfolding call_hierarchy_def by blast
  with assms(2) obtain k where "h \<in> set (level calls k)" by auto
  then show ?thesis unfolding level_member by auto
qed

text \<open>C27: For unique call ids, the rows the recursive query gives a call are its call stack: itself at
  depth 0, its caller at depth 1, and so on, each once and in the order of their depth.\<close>

theorem hierarchy_stacks:
  assumes "distinct (map cid calls)" and "call_hierarchy calls = Some hs" and "c \<in> set calls"
  shows "filter (\<lambda>h. group_id h = cid c) hs
    = map (\<lambda>(d, p). hier_of p (cid c) d) (enumerate 0 (call_stack calls c))"
  by (rule group_hierarchy [OF assms])

text \<open>A system call: the entry stub 4, the dispatchers 1 and 2, the system call 3 and its callees 5 and 6.\<close>

definition demo_calls :: "call list" where
  "demo_calls = map (\<lambda>(i, p, s, t). \<lparr>cid = i, parent_id = Some p, call_path_id = Some i, call_time = Some s, return_time = Some t\<rparr>)
     [(0, 0, 0, 0), (4, 0, 5, 95), (1, 4, 10, 90), (2, 1, 15, 85), (3, 2, 20, 80), (5, 3, 30, 40), (6, 3, 60, 70)]"

lemma demo_hierarchy: "case call_hierarchy demo_calls of None \<Rightarrow> False | Some hs \<Rightarrow> length hs = 27"
  by code_simp

definition demo_call :: call where
  "demo_call = \<lparr>cid = 3, parent_id = Some 2, call_path_id = Some 3, call_time = Some 20, return_time = Some 80\<rparr>"

lemma demo_call: "demo_call \<in> set demo_calls" "cid demo_call = 3" "distinct (map cid demo_calls)"
  by (simp_all add: demo_calls_def demo_call_def)

lemma demo_stack:
  "map (\<lambda>h. (cid h, depth h)) (map (\<lambda>(d, p). hier_of p 3 d) (enumerate 0 (call_stack demo_calls demo_call)))
     = [(3, 0), (2, 1), (1, 2), (4, 3), (0, 4)]"
  by code_simp

theorem hierarchy_stacks_witness:
  "\<exists>hs :: hier_row list. map (\<lambda>h. (cid h, depth h)) (filter (\<lambda>h. group_id h = 3) hs) = [(3, 0), (2, 1), (1, 2), (4, 3), (0, 4)]"
proof -
  obtain hs where hs: "call_hierarchy demo_calls = Some hs"
    using demo_hierarchy by (cases "call_hierarchy demo_calls") auto
  show ?thesis
    using hierarchy_stacks [OF demo_call(3) hs demo_call(1)] demo_stack unfolding demo_call(2)
    by (intro exI [of _ hs]) (simp only:)
qed

end
