(* ===== verification/Syscalls.thy ===== *)
theory Syscalls
  imports Call_Hierarchy
begin

text \<open>
  The table \<open>full_syscalls\<close> of \<open>events_prep\<close>: call stacks with their symbols, restricted to the
  plotted stretch, are grouped by call, and the groups that look like a system call entered
  through the kernel's entry stub are kept. The lemmas describe each row by the visible frames of
  one call stack (\<open>visible\<close>).
\<close>

section \<open>Tables\<close>

record call_path =
  path_key :: int
  path_symbol :: "int option"

record symbol_row =
  symbol_key :: int
  symbol_dso :: "int option"
  symbol_name :: "string option"

record dso_row =
  dso_key :: int
  short_name :: "string option"

record trace_tables =
  t_calls :: "call list"
  t_call_paths :: "call_path list"
  t_symbols :: "symbol_row list"
  t_dsos :: "dso_row list"

section \<open>The query\<close>

text \<open>The rows a LEFT JOIN adds to one row of the left table.\<close>

definition left_join :: "('r \<Rightarrow> int) \<Rightarrow> 'r list \<Rightarrow> int option \<Rightarrow> 'r option list" where
  "left_join key rows k =
     (case filter (\<lambda>r. k = Some (key r)) rows of [] \<Rightarrow> [None] | ms \<Rightarrow> map Some ms)"

record sym_row = hier_row +
  symbol_id :: "int option"
  symbol :: "string option"
  dso_id :: "int option"
  dso :: "string option"

definition sym_of :: "hier_row \<Rightarrow> call_path option \<Rightarrow> symbol_row option \<Rightarrow> dso_row option \<Rightarrow> sym_row" where
  "sym_of h cp s d = hier_row.extend h
     \<lparr>symbol_id = Option.bind cp path_symbol, symbol = Option.bind s symbol_name,
      dso_id = Option.bind s symbol_dso, dso = Option.bind d short_name\<rparr>"

definition join_symbols ::
  "trace_tables \<Rightarrow> int option \<Rightarrow> (call_path option \<times> symbol_row option \<times> dso_row option) list" where
  "join_symbols T path =
     concat (map (\<lambda>cp. concat (map (\<lambda>s. map (\<lambda>d. (cp, s, d))
         (left_join dso_key (t_dsos T) (Option.bind s symbol_dso)))
       (left_join symbol_key (t_symbols T) (Option.bind cp path_symbol))))
     (left_join path_key (t_call_paths T) path))"

definition call_hierarchy_with_symbols :: "trace_tables \<Rightarrow> hier_row list \<Rightarrow> sym_row list" where
  "call_hierarchy_with_symbols T hs =
     concat (map (\<lambda>h. map (\<lambda>(cp, s, d). sym_of h cp s d) (join_symbols T (call_path_id h))) hs)"

definition in_view :: "int \<Rightarrow> int \<Rightarrow> 'a call_scheme \<Rightarrow> bool" where
  "in_view start_ns end_ns c \<longleftrightarrow>
     sql_between (call_time c) start_ns end_ns \<or> sql_between (return_time c) start_ns end_ns"

record agg_row =
  a_group_id :: int
  max_depth :: nat
  first_call_time :: "int option"
  first_return_time :: "int option"
  first_symbol :: "string option"
  first_dso :: "string option"
  last_call_time :: "int option"
  last_return_time :: "int option"
  last_symbol :: "string option"
  last_dso :: "string option"
  symbol_list :: "string option list"
  syscall_entry_call_time :: "int option"
  syscall_entry_return_time :: "int option"

text \<open>\<open>any_value\<close> is the first value that is not NULL; \<open>list_slice\<close> counts from one, both ends in.\<close>

definition any_value :: "'a option list \<Rightarrow> 'a option" where
  "any_value xs = (case filter (\<lambda>x. x \<noteq> None) xs of [] \<Rightarrow> None | x # _ \<Rightarrow> x)"

definition list_slice :: "nat \<Rightarrow> nat \<Rightarrow> 'a list \<Rightarrow> 'a list" where
  "list_slice b e xs = take (e + 1 - b) (drop (b - 1) xs)"

definition agg_of :: "int \<Rightarrow> sym_row list \<Rightarrow> agg_row" where
  "agg_of g rows =
     (let rs = sort_key depth rows; r0 = hd rs; rn = last rs; at3 = filter (\<lambda>r. depth r = 3) rs in
      \<lparr>a_group_id = g, max_depth = Max (set (map depth rs)),
       first_call_time = call_time r0, first_return_time = return_time r0,
       first_symbol = symbol r0, first_dso = dso r0,
       last_call_time = call_time rn, last_return_time = return_time rn,
       last_symbol = symbol rn, last_dso = dso rn,
       symbol_list = map symbol rs,
       syscall_entry_call_time = any_value (map call_time at3),
       syscall_entry_return_time = any_value (map return_time at3)\<rparr>)"

definition entry_symbols :: "string option list" where
  "entry_symbols = [Some ''x64_sys_call'', Some ''do_syscall_64'', Some ''entry_SYSCALL_64'']"

definition agged :: "sym_row list \<Rightarrow> agg_row list" where
  "agged rows =
     filter (\<lambda>a. list_slice 2 4 (symbol_list a) = entry_symbols)
       (map (\<lambda>g. agg_of g (filter (\<lambda>r. group_id r = g) rows)) (remdups (map group_id rows)))"

record syscall_row =
  sc_call_time :: "int option"
  sc_return_time :: "int option"
  syscall_kernel_name :: "string option"
  sc_call_id :: int

definition syscall_of :: "agg_row \<Rightarrow> syscall_row" where
  "syscall_of a = \<lparr>sc_call_time = syscall_entry_call_time a, sc_return_time = syscall_entry_return_time a,
     syscall_kernel_name = first_symbol a, sc_call_id = a_group_id a\<rparr>"

definition full_syscalls :: "int \<Rightarrow> int \<Rightarrow> trace_tables \<Rightarrow> syscall_row list option" where
  "full_syscalls start_ns end_ns T =
     map_option (\<lambda>hs. map syscall_of (agged (filter (in_view start_ns end_ns) (call_hierarchy_with_symbols T hs))))
       (call_hierarchy (t_calls T))"

section \<open>Joins over unique keys\<close>

definition keys_unique :: "trace_tables \<Rightarrow> bool" where
  "keys_unique T \<longleftrightarrow> distinct (map cid (t_calls T)) \<and> distinct (map path_key (t_call_paths T))
     \<and> distinct (map symbol_key (t_symbols T)) \<and> distinct (map dso_key (t_dsos T))"

definition lookup :: "('r \<Rightarrow> int) \<Rightarrow> 'r list \<Rightarrow> int option \<Rightarrow> 'r option" where
  "lookup key rows k = Option.bind k (\<lambda>i. find (\<lambda>r. key r = i) rows)"

lemma left_join_unique:
  assumes "distinct (map key rows)"
  shows "left_join key rows k = [lookup key rows k]"
  using filter_key [OF assms]
  by (cases k) (auto simp: left_join_def lookup_def split: option.split)

definition path_lookup :: "trace_tables \<Rightarrow> int option \<Rightarrow> symbol_row option" where
  "path_lookup T path =
     lookup symbol_key (t_symbols T) (Option.bind (lookup path_key (t_call_paths T) path) path_symbol)"

text \<open>The symbol of a frame, and its DSO.\<close>

definition frame_symbol :: "trace_tables \<Rightarrow> 'a call_scheme \<Rightarrow> string option" where
  "frame_symbol T c = Option.bind (path_lookup T (call_path_id c)) symbol_name"

definition frame_dso :: "trace_tables \<Rightarrow> 'a call_scheme \<Rightarrow> string option" where
  "frame_dso T c = Option.bind (lookup dso_key (t_dsos T)
     (Option.bind (path_lookup T (call_path_id c)) symbol_dso)) short_name"

lemma join_symbols_unique:
  assumes "keys_unique T"
  shows "\<exists>cp s d. join_symbols T path = [(cp, s, d)] \<and> Option.bind s symbol_name = Option.bind (path_lookup T path) symbol_name
    \<and> s = path_lookup T path
    \<and> d = lookup dso_key (t_dsos T) (Option.bind (path_lookup T path) symbol_dso)"
  using assms by (simp add: keys_unique_def join_symbols_def left_join_unique path_lookup_def)

definition sym_row_of :: "trace_tables \<Rightarrow> hier_row \<Rightarrow> sym_row" where
  "sym_row_of T h = (case join_symbols T (call_path_id h) of (cp, s, d) # _ \<Rightarrow> sym_of h cp s d)"

lemma join_row:
  assumes "keys_unique T"
  shows "map (\<lambda>(cp, s, d). sym_of h cp s d) (join_symbols T (call_path_id h)) = [sym_row_of T h]"
  using join_symbols_unique [OF assms, of "call_path_id h"] by (auto simp: sym_row_of_def)

lemma with_symbols_unique:
  "keys_unique T \<Longrightarrow> call_hierarchy_with_symbols T hs = map (sym_row_of T) hs"
  unfolding call_hierarchy_with_symbols_def by (induction hs) (simp_all add: join_row)

lemma sym_row_of_sel:
  assumes "keys_unique T"
  shows "group_id (sym_row_of T h) = group_id h" "depth (sym_row_of T h) = depth h"
    "call_time (sym_row_of T h) = call_time h" "return_time (sym_row_of T h) = return_time h"
    "symbol (sym_row_of T h) = frame_symbol T h" "in_view s e (sym_row_of T h) = in_view s e h"
  using join_symbols_unique [OF assms, of "call_path_id h"]
  by (auto simp: sym_row_of_def sym_of_def hier_row.extend_def frame_symbol_def in_view_def)

section \<open>Groups\<close>

text \<open>The frames of a call's stack that lie in the view, with their depths.\<close>

definition visible :: "trace_tables \<Rightarrow> int \<Rightarrow> int \<Rightarrow> call \<Rightarrow> (nat \<times> call) list" where
  "visible T start_ns end_ns c =
     filter (\<lambda>(d, p). in_view start_ns end_ns p) (enumerate 0 (call_stack (t_calls T) c))"

lemma group_rows:
  assumes "keys_unique T" "call_hierarchy (t_calls T) = Some hs" "c \<in> set (t_calls T)"
  shows "filter (\<lambda>r. group_id r = cid c) (filter (in_view s e) (call_hierarchy_with_symbols T hs))
    = map (\<lambda>(d, p). sym_row_of T (hier_of p (cid c) d)) (visible T s e c)"
proof -
  have "filter (\<lambda>r. group_id r = cid c) (filter (in_view s e) (call_hierarchy_with_symbols T hs))
      = map (sym_row_of T) (filter (in_view s e) (filter (\<lambda>h. group_id h = cid c) hs))"
    by (simp add: with_symbols_unique [OF assms(1)] filter_map comp_def sym_row_of_sel [OF assms(1)] conj_commute)
  also have "filter (\<lambda>h. group_id h = cid c) hs
      = map (\<lambda>(d, p). hier_of p (cid c) d) (enumerate 0 (call_stack (t_calls T) c))"
    using assms by (intro group_hierarchy) (auto simp: keys_unique_def)
  finally show ?thesis
    by (simp add: visible_def filter_map comp_def in_view_def split_def)
qed

lemma visible_sorted: "sorted (map fst (visible T s e c))"
  unfolding visible_def by (rule sorted_filter) simp

text \<open>The aggregate of one group.\<close>

lemma agg_group:
  assumes "keys_unique T" "visible T s e c = v" "v \<noteq> []"
  shows "syscall_of (agg_of g (map (\<lambda>(d, p). sym_row_of T (hier_of p g d)) v))
      = \<lparr>sc_call_time = any_value (map (\<lambda>x. call_time (snd x)) (filter (\<lambda>x. fst x = 3) v)),
         sc_return_time = any_value (map (\<lambda>x. return_time (snd x)) (filter (\<lambda>x. fst x = 3) v)),
         syscall_kernel_name = frame_symbol T (snd (hd v)), sc_call_id = g\<rparr>"
    and "symbol_list (agg_of g (map (\<lambda>(d, p). sym_row_of T (hier_of p g d)) v)) = map (\<lambda>x. frame_symbol T (snd x)) v"
proof -
  have fs: "frame_symbol T (hier_of p g d) = frame_symbol T p" for p d
    by (simp add: frame_symbol_def)
  let ?rows = "map (\<lambda>(d, p). sym_row_of T (hier_of p g d)) v"
  have "sorted (map depth ?rows)"
    using visible_sorted [of T s e c] by (simp add: assms(2) comp_def split_def sym_row_of_sel [OF assms(1)])
  then have id: "sort_key depth ?rows = ?rows" by (rule sort_key_id_if_sorted)
  show "symbol_list (agg_of g ?rows) = map (\<lambda>x. frame_symbol T (snd x)) v"
    unfolding agg_of_def Let_def id by (simp add: split_def sym_row_of_sel [OF assms(1)] fs)
  show "syscall_of (agg_of g ?rows)
      = \<lparr>sc_call_time = any_value (map (\<lambda>x. call_time (snd x)) (filter (\<lambda>x. fst x = 3) v)),
         sc_return_time = any_value (map (\<lambda>x. return_time (snd x)) (filter (\<lambda>x. fst x = 3) v)),
         syscall_kernel_name = frame_symbol T (snd (hd v)), sc_call_id = g\<rparr>"
    unfolding agg_of_def syscall_of_def Let_def id using assms(3)
    by (simp add: filter_map comp_def split_def hd_map sym_row_of_sel [OF assms(1)] fs)
qed

definition syscall_row_of :: "trace_tables \<Rightarrow> int \<Rightarrow> int \<Rightarrow> call \<Rightarrow> syscall_row" where
  "syscall_row_of T s e c = (let v = visible T s e c in
     \<lparr>sc_call_time = any_value (map (\<lambda>x. call_time (snd x)) (filter (\<lambda>x. fst x = 3) v)),
      sc_return_time = any_value (map (\<lambda>x. return_time (snd x)) (filter (\<lambda>x. fst x = 3) v)),
      syscall_kernel_name = frame_symbol T (snd (hd v)), sc_call_id = cid c\<rparr>)"

definition looks_like_syscall :: "trace_tables \<Rightarrow> int \<Rightarrow> int \<Rightarrow> call \<Rightarrow> bool" where
  "looks_like_syscall T s e c \<longleftrightarrow>
     list_slice 2 4 (map (\<lambda>x. frame_symbol T (snd x)) (visible T s e c)) = entry_symbols"

lemma looks_like_visible: "looks_like_syscall T s e c \<Longrightarrow> visible T s e c \<noteq> []"
  by (auto simp: looks_like_syscall_def list_slice_def entry_symbols_def)

text \<open>The rows of the table: one for each call whose visible frames look like a system call.\<close>

lemma full_syscalls_rows:
  assumes "keys_unique T" "full_syscalls s e T = Some rows"
  shows "set rows = syscall_row_of T s e ` {c \<in> set (t_calls T). looks_like_syscall T s e c}"
    and "distinct (map sc_call_id rows)"
proof -
  obtain hs where hs: "call_hierarchy (t_calls T) = Some hs"
    and rows: "rows = map syscall_of (agged (filter (in_view s e) (call_hierarchy_with_symbols T hs)))"
    using assms(2) by (auto simp: full_syscalls_def)
  let ?f = "filter (in_view s e) (call_hierarchy_with_symbols T hs)"
  let ?grp = "\<lambda>g. filter (\<lambda>r. group_id r = g) ?f"
  have agg: "\<And>c. c \<in> set (t_calls T) \<Longrightarrow> ?grp (cid c) \<noteq> [] \<Longrightarrow>
      syscall_of (agg_of (cid c) (?grp (cid c))) = syscall_row_of T s e c
      \<and> (list_slice 2 4 (symbol_list (agg_of (cid c) (?grp (cid c)))) = entry_symbols \<longleftrightarrow> looks_like_syscall T s e c)"
    unfolding group_rows [OF assms(1) hs]
    using agg_group [OF assms(1) refl] by (simp add: syscall_row_of_def looks_like_syscall_def Let_def)
  have vis: "\<And>c. c \<in> set (t_calls T) \<Longrightarrow> ?grp (cid c) \<noteq> [] \<longleftrightarrow> visible T s e c \<noteq> []"
    unfolding group_rows [OF assms(1) hs] by simp
  have gid: "\<exists>c\<in>set (t_calls T). g = cid c" if "g \<in> set (map group_id ?f)" for g
    using that hierarchy_groups [OF hs]
    by (auto simp: with_symbols_unique [OF assms(1)] sym_row_of_sel [OF assms(1)])
  have mem: "g \<in> set (map group_id ?f) \<longleftrightarrow> ?grp g \<noteq> []" for g
    by (auto simp: filter_empty_conv)
  have set_rows: "r \<in> set rows \<longleftrightarrow> (\<exists>g\<in>set (map group_id ?f).
      r = syscall_of (agg_of g (?grp g)) \<and> list_slice 2 4 (symbol_list (agg_of g (?grp g))) = entry_symbols)" for r
    unfolding rows agged_def by (simp only: set_map set_filter set_remdups) blast
  show "set rows = syscall_row_of T s e ` {c \<in> set (t_calls T). looks_like_syscall T s e c}"
  proof (rule set_eqI)
    fix r
    have "r \<in> set rows \<longleftrightarrow> (\<exists>c\<in>set (t_calls T). ?grp (cid c) \<noteq> [] \<and> r = syscall_row_of T s e c \<and> looks_like_syscall T s e c)"
      unfolding set_rows using gid mem agg by metis
    then show "r \<in> set rows \<longleftrightarrow> r \<in> syscall_row_of T s e ` {c \<in> set (t_calls T). looks_like_syscall T s e c}"
      using vis looks_like_visible by blast
  qed
  have "map sc_call_id rows = map a_group_id (agged ?f)"
    by (simp add: rows syscall_of_def)
  moreover have "distinct (map a_group_id (agged ?f))"
    unfolding agged_def by (rule distinct_map_filter) (simp add: comp_def agg_of_def Let_def)
  ultimately show "distinct (map sc_call_id rows)" by simp
qed

lemma syscall_row_sel [simp]: "sc_call_id (syscall_row_of T s e c) = cid c"
  by (simp add: syscall_row_of_def Let_def)

lemma syscall_row_of_call:
  assumes "keys_unique T" "full_syscalls s e T = Some rows" "c \<in> set (t_calls T)"
  shows "r \<in> set rows \<and> sc_call_id r = cid c \<longleftrightarrow> looks_like_syscall T s e c \<and> r = syscall_row_of T s e c"
proof
  assume "r \<in> set rows \<and> sc_call_id r = cid c"
  then obtain x where "x \<in> set (t_calls T)" "looks_like_syscall T s e x" "r = syscall_row_of T s e x" "cid x = cid c"
    unfolding full_syscalls_rows(1) [OF assms(1,2)] by auto
  moreover from this have "x = c"
    using assms(1,3) by (auto simp: keys_unique_def distinct_map dest: inj_onD)
  ultimately show "looks_like_syscall T s e c \<and> r = syscall_row_of T s e c" by simp
next
  assume "looks_like_syscall T s e c \<and> r = syscall_row_of T s e c"
  then show "r \<in> set rows \<and> sc_call_id r = cid c"
    unfolding full_syscalls_rows(1) [OF assms(1,2)] using assms(3) by auto
qed

text \<open>The visible frames, when the first four are.\<close>

lemma visible_four:
  assumes "call_stack (t_calls T) c = f # a # b # n # fs"
  shows "visible T s e c = filter (\<lambda>(d, p). in_view s e p) [(0, f), (1, a), (2, b), (3, n)]
    @ filter (\<lambda>(d, p). in_view s e p) (enumerate 4 fs)"
  unfolding visible_def assms by (simp add: numeral_eq_Suc)

lemma filter_enumerate_less:
  "k < m \<Longrightarrow> filter (\<lambda>x. fst x = k) (filter P (enumerate m xs)) = []"
  by (auto simp: filter_empty_conv in_set_enumerate_eq)

lemma any_value_single [simp]: "any_value [x] = x"
  by (cases x) (simp_all add: any_value_def)

lemma four_frames: "\<not> length xs < 4 \<Longrightarrow> \<exists>f a b n fs. xs = f # a # b # n # fs"
  by (cases xs; cases "tl xs"; cases "tl (tl xs)"; cases "tl (tl (tl xs))") auto

lemma looks_like_four:
  assumes "call_stack (t_calls T) c = f # a # b # n # fs" "in_view s e a" "in_view s e b" "in_view s e n"
  shows "in_view s e f \<Longrightarrow> looks_like_syscall T s e c \<longleftrightarrow> map (frame_symbol T) [a, b, n] = entry_symbols"
    and "in_view s e f \<Longrightarrow> syscall_row_of T s e c =
        \<lparr>sc_call_time = call_time n, sc_return_time = return_time n,
         syscall_kernel_name = frame_symbol T f, sc_call_id = cid c\<rparr>"
proof -
  assume f: "in_view s e f"
  then have v: "visible T s e c = (0, f) # (1, a) # (2, b) # (3, n) # filter (\<lambda>(d, p). in_view s e p) (enumerate 4 fs)"
    using assms(2-) by (simp add: visible_four [OF assms(1)])
  then have at3: "filter (\<lambda>x. fst x = 3) (visible T s e c) = [(3, n)]"
    using filter_enumerate_less [of 3 4 "\<lambda>(d, p). in_view s e p" fs] by simp
  show "looks_like_syscall T s e c \<longleftrightarrow> map (frame_symbol T) [a, b, n] = entry_symbols"
    by (simp add: looks_like_syscall_def v list_slice_def)
  show "syscall_row_of T s e c = \<lparr>sc_call_time = call_time n, sc_return_time = return_time n,
         syscall_kernel_name = frame_symbol T f, sc_call_id = cid c\<rparr>"
    unfolding syscall_row_of_def Let_def at3 by (simp add: v)
qed

lemma short_stack_no_syscall:
  assumes "length (call_stack (t_calls T) c) < 4"
  shows "\<not> looks_like_syscall T s e c"
proof
  assume "looks_like_syscall T s e c"
  then have "length (list_slice 2 4 (map (\<lambda>x. frame_symbol T (snd x)) (visible T s e c))) = 3"
    by (simp add: looks_like_syscall_def entry_symbols_def)
  moreover have "length (visible T s e c) \<le> length (call_stack (t_calls T) c)"
    unfolding visible_def by (metis length_enumerate length_filter_le)
  ultimately show False using assms by (simp add: list_slice_def)
qed

section \<open>Properties\<close>

definition demo_tables :: trace_tables where
  "demo_tables = \<lparr>t_calls = demo_calls,
     t_call_paths = map (\<lambda>i. \<lparr>path_key = i, path_symbol = Some (i + 10)\<rparr>) [0, 1, 2, 3, 4, 5, 6],
     t_symbols = map (\<lambda>(i, n). \<lparr>symbol_key = i, symbol_dso = Some 1, symbol_name = Some n\<rparr>)
       [(11, ''do_syscall_64''), (12, ''x64_sys_call''), (13, ''__x64_sys_read''),
        (14, ''entry_SYSCALL_64''), (15, ''vfs_read''), (16, ''fput'')],
     t_dsos = [\<lparr>dso_key = 1, short_name = Some ''[kernel.kallsyms]''\<rparr>]\<rparr>"

text \<open>C5: For a call whose first four frames lie in the plotted stretch, \<open>full_syscalls\<close> has a row
  exactly when its callers are the dispatcher, \<open>do_syscall_64\<close> and the entry stub; the row carries
  the call's own symbol and the times of the entry stub, and there is only one.\<close>

theorem full_syscalls_exact:
  assumes "keys_unique T" and "full_syscalls s e T = Some rows" and "c \<in> set (t_calls T)"
    and "\<forall>p\<in>set (take 4 (call_stack (t_calls T) c)). in_view s e p"
  shows "r \<in> set rows \<and> sc_call_id r = cid c \<longleftrightarrow>
    (\<exists>f a b n fs. call_stack (t_calls T) c = f # a # b # n # fs
       \<and> map (frame_symbol T) [a, b, n] = entry_symbols
       \<and> r = \<lparr>sc_call_time = call_time n, sc_return_time = return_time n,
              syscall_kernel_name = frame_symbol T f, sc_call_id = cid c\<rparr>)"
proof (cases "length (call_stack (t_calls T) c) < 4")
  case True
  then show ?thesis
    using short_stack_no_syscall [OF True] syscall_row_of_call [OF assms(1-3)] by auto
next
  case False
  then obtain f a b n fs where st: "call_stack (t_calls T) c = f # a # b # n # fs"
    using four_frames by blast
  with assms(4) have "in_view s e f" "in_view s e a" "in_view s e b" "in_view s e n" by simp_all
  then show ?thesis
    unfolding syscall_row_of_call [OF assms(1-3)] by (simp add: looks_like_four [OF st] st)
qed

lemma demo_keys: "keys_unique demo_tables"
  by (simp add: keys_unique_def demo_tables_def demo_calls_def)

lemma demo_full_syscalls:
  "full_syscalls 0 50 demo_tables = Some
     [\<lparr>sc_call_time = Some 5, sc_return_time = Some 95, syscall_kernel_name = Some ''__x64_sys_read'', sc_call_id = 3\<rparr>,
      \<lparr>sc_call_time = Some 10, sc_return_time = Some 90, syscall_kernel_name = Some ''__x64_sys_read'', sc_call_id = 6\<rparr>]"
  by code_simp

lemma demo_syscalls_100:
  "full_syscalls 0 100 demo_tables = Some
     [\<lparr>sc_call_time = Some 5, sc_return_time = Some 95, syscall_kernel_name = Some ''__x64_sys_read'', sc_call_id = 3\<rparr>]"
  by code_simp

text \<open>Two system calls, one after the other.\<close>

definition demo_two :: trace_tables where
  "demo_two = demo_tables\<lparr>t_calls := map (\<lambda>(i, p, f, s, t).
       \<lparr>cid = i, parent_id = Some p, call_path_id = Some f, call_time = Some s, return_time = Some t\<rparr>)
     [(0, 0, 0, 0, 0), (4, 0, 4, 5, 95), (1, 4, 1, 10, 90), (2, 1, 2, 15, 85), (3, 2, 3, 20, 80),
      (14, 0, 4, 105, 195), (11, 14, 1, 110, 190), (12, 11, 2, 115, 185), (13, 12, 3, 120, 180)]\<rparr>"

lemma demo_two_keys: "keys_unique demo_two"
  by (simp add: keys_unique_def demo_two_def demo_tables_def)

lemma demo_two_syscalls:
  "full_syscalls 0 200 demo_two = Some
     [\<lparr>sc_call_time = Some 5, sc_return_time = Some 95, syscall_kernel_name = Some ''__x64_sys_read'', sc_call_id = 3\<rparr>,
      \<lparr>sc_call_time = Some 105, sc_return_time = Some 195, syscall_kernel_name = Some ''__x64_sys_read'', sc_call_id = 13\<rparr>]"
  by code_simp

theorem full_syscalls_exact_witness:
  "\<exists>f a b n fs. call_stack demo_calls demo_call = f # a # b # n # fs
     \<and> map (frame_symbol demo_tables) [a, b, n] = entry_symbols \<and> call_time n = Some 5"
proof -
  have T: "t_calls demo_tables = demo_calls" by (simp add: demo_tables_def)
  have "\<forall>p\<in>set (take 4 (call_stack (t_calls demo_tables) demo_call)). in_view 0 50 p" by code_simp
  note * = full_syscalls_exact [OF demo_keys demo_full_syscalls _ this, unfolded T, OF demo_call(1), unfolded demo_call(2),
    of "\<lparr>sc_call_time = Some 5, sc_return_time = Some 95, syscall_kernel_name = Some ''__x64_sys_read'', sc_call_id = 3\<rparr>"]
  show ?thesis using iffD1 [OF *] by auto
qed

lemma spurious_row:
  assumes "keys_unique T" and "full_syscalls s e T = Some rows" and "g \<in> set (t_calls T)"
    and "caller_of (t_calls T) g = Some f" and "call_stack (t_calls T) f = f # a # b # n # fs"
    and "map (frame_symbol T) [a, b, n] = entry_symbols"
    and "in_view s e f" and "in_view s e a" and "in_view s e b" and "in_view s e n" and "\<not> in_view s e g"
  shows "\<lparr>sc_call_time = call_time b, sc_return_time = return_time b,
      syscall_kernel_name = frame_symbol T f, sc_call_id = cid g\<rparr> \<in> set rows"
proof -
  have "\<exists>hs. call_hierarchy (t_calls T) = Some hs" using assms(2) by (auto simp: full_syscalls_def)
  then have acyc: "acyclic (caller (t_calls T))" unfolding hierarchy_returns_iff .
  have "call_stack (t_calls T) g = g # f # a # b # n # fs"
    using call_stack_Cons [OF _ acyc assms(3)] assms(1,4,5) by (simp add: keys_unique_def)
  note v = visible_four [OF this, of s e]
  have v': "visible T s e g = (1, f) # (2, a) # (3, b) # (4, n) # filter (\<lambda>(d, p). in_view s e p) (enumerate 5 fs)"
    using assms(7-11) by (simp add: v)
  then have at3: "filter (\<lambda>x. fst x = 3) (visible T s e g) = [(3, b)]"
    using filter_enumerate_less [of 3 5 "\<lambda>(d, p). in_view s e p" fs] by simp
  have "looks_like_syscall T s e g" using assms(6) by (simp add: looks_like_syscall_def v' list_slice_def)
  moreover have "syscall_row_of T s e g = \<lparr>sc_call_time = call_time b, sc_return_time = return_time b,
      syscall_kernel_name = frame_symbol T f, sc_call_id = cid g\<rparr>"
    unfolding syscall_row_of_def Let_def at3 by (simp add: v')
  ultimately show ?thesis using syscall_row_of_call [OF assms(1-3)] by metis
qed

text \<open>C37: The table also has rows that are no system calls. The position of a symbol in the list counts
  visible frames, the entry's depth counts all of them: a callee \<open>g\<close> of a system call \<open>f\<close> that lies
  outside the plotted stretch yields a second row for \<open>f\<close>, under the id of \<open>g\<close> and with the times
  of \<open>do_syscall_64\<close> instead of the entry stub's.\<close>

theorem spurious_syscall_row:
  assumes "keys_unique T" and "full_syscalls s e T = Some rows" and "g \<in> set (t_calls T)"
    and "caller_of (t_calls T) g = Some f" and "call_stack (t_calls T) f = f # a # b # n # fs"
    and "map (frame_symbol T) [a, b, n] = entry_symbols"
    and "in_view s e f" and "in_view s e a" and "in_view s e b" and "in_view s e n" and "\<not> in_view s e g"
  shows "\<lparr>sc_call_time = call_time b, sc_return_time = return_time b,
      syscall_kernel_name = frame_symbol T f, sc_call_id = cid g\<rparr> \<in> set rows"
  by (rule spurious_row [OF assms])

theorem spurious_syscall_row_witness:
  "\<lparr>sc_call_time = Some 10, sc_return_time = Some 90, syscall_kernel_name = Some ''__x64_sys_read'', sc_call_id = 6\<rparr>
     \<in> set (the (full_syscalls 0 50 demo_tables))"
proof -
  let ?call = "\<lambda>i p s t. \<lparr>cid = i, parent_id = Some p, call_path_id = Some i, call_time = Some s, return_time = Some t\<rparr>"
  have "?call 6 3 60 70 \<in> set (t_calls demo_tables)"
    by (simp add: demo_tables_def demo_calls_def)
  moreover have "caller_of (t_calls demo_tables) (?call 6 3 60 70) = Some demo_call" by code_simp
  moreover have "call_stack (t_calls demo_tables) demo_call
      = demo_call # ?call 2 1 15 85 # ?call 1 4 10 90 # ?call 4 0 5 95 # [?call 0 0 0 0]" by code_simp
  moreover have "map (frame_symbol demo_tables) [?call 2 1 15 85, ?call 1 4 10 90, ?call 4 0 5 95] = entry_symbols"
    by code_simp
  moreover have "frame_symbol demo_tables demo_call = Some ''__x64_sys_read''" by code_simp
  ultimately show ?thesis
    using spurious_syscall_row [OF demo_keys demo_full_syscalls, of "?call 6 3 60 70" demo_call
        "?call 2 1 15 85" "?call 1 4 10 90" "?call 4 0 5 95" "[?call 0 0 0 0]"]
    by (simp add: in_view_def demo_call_def demo_full_syscalls)
qed

end
