(* ===== verification/Ranges.thy ===== *)
theory Ranges
  imports Sql "HOL-Library.Multiset"
begin

text \<open>
  \<open>sql/timestamped_ranges.sql\<close>, which \<open>SqlUtil.setup\<close> executes: the samples that carry an
  instruction or cycle count become a table of adjacent time ranges with cumulative counts.
  Cumulative cycles are the time axis of everything computed later, so the main result here is
  the shape of that table (\<open>ranges_ok\<close>): every range starts where the previous one ended.
\<close>

section \<open>The rows read and the rows produced\<close>

text \<open>The columns of \<open>samples_view\<close> the script selects (\<open>t1\<close>).\<close>

record view_row =
  vid :: int
  vtime :: int
  v_insn_count :: int
  v_cyc_count :: int
  v_event :: "string option"
  v_symbol :: "string option"
  v_to_symbol :: "string option"
  v_branch_type_name :: "string option"

text \<open>\<open>t2\<close>: each row of \<open>t1\<close> with its offset, cumulative counts and row number.\<close>

record cum_row = view_row +
  offset_time :: int
  cumulative_insn_count :: int
  cumulative_cyc_count :: int
  sample_row_number :: int

text \<open>\<open>t3\<close>, the table \<open>timestamped_ranges\<close>. The start columns of the first range are NULL.\<close>

record trange =
  start_sample_id :: "int option"
  start_time :: "int option"
  start_offset_time :: "int option"
  start_cum_insns :: "int option"
  start_cum_cyc :: "int option"
  end_sample_id :: int
  end_time :: int
  end_offset_time :: int
  end_cum_insns :: int
  end_cum_cyc :: int
  end_sample_row_number :: int
  insn_count :: int
  cyc_count :: int
  event :: "string option"
  symbol :: "string option"
  to_symbol :: "string option"
  branch_type_name :: "string option"

section \<open>The query\<close>

definition ranges_t1 :: "view_row list \<Rightarrow> view_row list" where
  "ranges_t1 samples = filter (\<lambda>s. 0 < v_insn_count s \<or> 0 < v_cyc_count s) samples"

definition cum_of :: "view_row list \<Rightarrow> int \<Rightarrow> nat \<Rightarrow> view_row \<Rightarrow> cum_row" where
  "cum_of t1 tmin n r =
     view_row.extend r
       \<lparr>offset_time = vtime r - tmin,
        cumulative_insn_count = range_sum vid v_insn_count t1 r,
        cumulative_cyc_count = range_sum vid v_cyc_count t1 r,
        sample_row_number = int n\<rparr>"

definition ranges_t2 :: "view_row list \<Rightarrow> cum_row list" where
  "ranges_t2 t1 =
     (let rows = sort_key vid t1 in
      case sql_min (map vtime t1) of
        None \<Rightarrow> []
      | Some tmin \<Rightarrow> map (\<lambda>(n, r). cum_of t1 tmin n r) (enumerate 1 rows))"

definition range_of :: "cum_row option \<Rightarrow> cum_row \<Rightarrow> trange" where
  "range_of p r =
     \<lparr>start_sample_id = map_option vid p,
      start_time = map_option vtime p,
      start_offset_time = map_option offset_time p,
      start_cum_insns = map_option cumulative_insn_count p,
      start_cum_cyc = map_option cumulative_cyc_count p,
      end_sample_id = vid r,
      end_time = vtime r,
      end_offset_time = offset_time r,
      end_cum_insns = cumulative_insn_count r,
      end_cum_cyc = cumulative_cyc_count r,
      end_sample_row_number = sample_row_number r,
      insn_count = v_insn_count r,
      cyc_count = v_cyc_count r,
      event = v_event r,
      symbol = v_symbol r,
      to_symbol = v_to_symbol r,
      branch_type_name = v_branch_type_name r\<rparr>"

definition ranges_t3 :: "cum_row list \<Rightarrow> trange list" where
  "ranges_t3 t2 = map2 range_of (lag1 (\<lambda>r. r) t2) t2"

definition timestamped_ranges :: "view_row list \<Rightarrow> trange list" where
  "timestamped_ranges samples = ranges_t3 (ranges_t2 (ranges_t1 samples))"

section \<open>The shape of the result\<close>

text \<open>
  \<open>ranges_ok c n rs\<close>: the ranges \<open>rs\<close> follow each other on the cycle axis from cycle \<open>c\<close>
  and instruction \<open>n\<close> on, each with at least one cycle and no negative instruction count.
\<close>

fun ranges_ok :: "int \<Rightarrow> int \<Rightarrow> trange list \<Rightarrow> bool" where
  "ranges_ok c n [] \<longleftrightarrow> True"
| "ranges_ok c n (r # rs) \<longleftrightarrow>
     0 < cyc_count r \<and> 0 \<le> insn_count r
     \<and> end_cum_cyc r = c + cyc_count r \<and> end_cum_insns r = n + insn_count r
     \<and> ranges_ok (end_cum_cyc r) (end_cum_insns r) rs"

text \<open>
  What the export guarantees of its samples: ids are the primary key, counts are never
  negative. A sample with instructions but no cycles is legal, but it gives an empty range;
  \<open>cycles_positive\<close> excludes it where a result needs proper ranges.
\<close>

definition samples_ok :: "view_row list \<Rightarrow> bool" where
  "samples_ok samples \<longleftrightarrow> distinct (map vid samples)
     \<and> (\<forall>s\<in>set samples. 0 \<le> v_insn_count s \<and> 0 \<le> v_cyc_count s)"

definition cycles_positive :: "view_row list \<Rightarrow> bool" where
  "cycles_positive samples \<longleftrightarrow> (\<forall>s\<in>set samples. 0 < v_insn_count s \<longrightarrow> 0 < v_cyc_count s)"

lemma sorted_by_id:
  assumes "distinct (map vid t1)"
  shows "sorted_wrt (\<lambda>a b. vid a < vid b) (sort_key vid t1)"
proof -
  have "sorted (map vid (sort_key vid t1))" "distinct (map vid (sort_key vid t1))"
    using assms by (simp_all add: distinct_map)
  then have "sorted_wrt (<) (map vid (sort_key vid t1))"
    by (simp add: strict_sorted_iff)
  then show ?thesis by (simp add: sorted_wrt_map)
qed

lemma sum_list_mset_cong:
  fixes f :: "'a \<Rightarrow> int"
  assumes "mset xs = mset ys"
  shows "sum_list (map f xs) = sum_list (map f ys)"
proof -
  have "mset (map f xs) = mset (map f ys)" using assms by simp
  then have "sum_mset (mset (map f xs)) = sum_mset (mset (map f ys))" by (rule arg_cong)
  then show ?thesis by (simp only: sum_mset_sum_list)
qed

lemma range_sum_mset: "mset xs = mset ys \<Longrightarrow> range_sum k v xs r = range_sum k v ys r"
  unfolding range_sum_def by (rule sum_list_mset_cong)

lemma ranges_t2_nth:
  assumes "distinct (map vid t1)" and "i < length (ranges_t2 t1)"
  defines "rows \<equiv> sort_key vid t1"
  shows "view_row.truncate (ranges_t2 t1 ! i) = rows ! i"
    and "cumulative_insn_count (ranges_t2 t1 ! i) = sum_list (map v_insn_count (take (Suc i) rows))"
    and "cumulative_cyc_count (ranges_t2 t1 ! i) = sum_list (map v_cyc_count (take (Suc i) rows))"
    and "sample_row_number (ranges_t2 t1 ! i) = int i + 1"
proof -
  obtain tmin where t2: "ranges_t2 t1 = map (\<lambda>(n, r). cum_of t1 tmin n r) (enumerate 1 rows)"
    using assms(2) by (auto simp: ranges_t2_def rows_def Let_def split: option.splits)
  then have len: "i < length rows" using assms(2) by simp
  then have row: "ranges_t2 t1 ! i = cum_of t1 tmin (Suc i) (rows ! i)"
    by (simp add: t2 nth_enumerate_eq)
  have sum: "range_sum vid v t1 (rows ! i) = sum_list (map v (take (Suc i) rows))" for v
    using range_sum_prefix [OF sorted_by_id [OF assms(1)], of i v] len
      range_sum_mset [of t1 rows vid v] by (simp add: rows_def)
  show "view_row.truncate (ranges_t2 t1 ! i) = rows ! i"
    by (simp add: row cum_of_def view_row.defs)
  show "cumulative_insn_count (ranges_t2 t1 ! i) = sum_list (map v_insn_count (take (Suc i) rows))"
    and "cumulative_cyc_count (ranges_t2 t1 ! i) = sum_list (map v_cyc_count (take (Suc i) rows))"
    and "sample_row_number (ranges_t2 t1 ! i) = int i + 1"
    by (simp_all add: row cum_of_def view_row.defs sum)
qed

lemma length_ranges_t2 [simp]: "length (ranges_t2 t1) = length t1"
  by (cases t1) (simp_all add: ranges_t2_def Let_def sql_min_def)

lemma length_timestamped_ranges:
  "length (timestamped_ranges samples) = length (ranges_t1 samples)"
  by (simp add: timestamped_ranges_def ranges_t3_def)

lemma ranges_t3_nth:
  "i < length t2 \<Longrightarrow>
     ranges_t3 t2 ! i = range_of (if i = 0 then None else Some (t2 ! (i - 1))) (t2 ! i)"
  by (simp add: ranges_t3_def lag1_nth)

lemma truncate_selectors:
  "view_row.truncate r = s \<Longrightarrow> vid (r :: cum_row) = vid s \<and> vtime r = vtime s
     \<and> v_insn_count r = v_insn_count s \<and> v_cyc_count r = v_cyc_count s"
  by (auto simp: view_row.defs)

text \<open>Every column of a range that the later queries read, in terms of the sorted samples.\<close>

lemma timestamped_ranges_nth:
  assumes "samples_ok samples" and "i < length (timestamped_ranges samples)"
  defines "rows \<equiv> sort_key vid (ranges_t1 samples)" and "r \<equiv> timestamped_ranges samples ! i"
  shows "cyc_count r = v_cyc_count (rows ! i)" and "insn_count r = v_insn_count (rows ! i)"
    and "end_time r = vtime (rows ! i)" and "end_sample_id r = vid (rows ! i)"
    and "end_cum_cyc r = sum_list (map v_cyc_count (take (Suc i) rows))"
    and "end_cum_insns r = sum_list (map v_insn_count (take (Suc i) rows))"
    and "end_sample_row_number r = int i + 1"
proof -
  let ?t1 = "ranges_t1 samples"
  have d: "distinct (map vid ?t1)"
    using assms(1) by (simp add: samples_ok_def ranges_t1_def distinct_map inj_on_def)
  have i: "i < length (ranges_t2 ?t1)"
    using assms(2) by (simp add: length_timestamped_ranges)
  note t2 = ranges_t2_nth [OF d i, folded rows_def]
  note sel = truncate_selectors [OF t2(1)]
  show "cyc_count r = v_cyc_count (rows ! i)" and "insn_count r = v_insn_count (rows ! i)"
    and "end_time r = vtime (rows ! i)" and "end_sample_id r = vid (rows ! i)"
    and "end_cum_cyc r = sum_list (map v_cyc_count (take (Suc i) rows))"
    and "end_cum_insns r = sum_list (map v_insn_count (take (Suc i) rows))"
    and "end_sample_row_number r = int i + 1"
    using sel t2(2-4) ranges_t3_nth [OF i]
    by (simp_all add: r_def timestamped_ranges_def range_of_def)
qed

text \<open>Each range starts at the cumulative counts, the sample and the time the previous one ended at.\<close>

lemma timestamped_ranges_start:
  assumes "Suc i < length (timestamped_ranges samples)"
  defines "p \<equiv> timestamped_ranges samples ! i" and "r \<equiv> timestamped_ranges samples ! Suc i"
  shows "start_cum_cyc r = Some (end_cum_cyc p) \<and> start_cum_insns r = Some (end_cum_insns p)
     \<and> start_time r = Some (end_time p) \<and> start_sample_id r = Some (end_sample_id p)
     \<and> start_offset_time r = Some (end_offset_time p)"
  using assms(1) ranges_t3_nth [of i "ranges_t2 (ranges_t1 samples)"]
    ranges_t3_nth [of "Suc i" "ranges_t2 (ranges_t1 samples)"]
  by (simp add: p_def r_def timestamped_ranges_def [symmetric] length_timestamped_ranges)
    (simp add: timestamped_ranges_def range_of_def)

text \<open>\<open>ranges_ok\<close> by index, both ways.\<close>

lemma ranges_ok_indexI:
  assumes "\<And>i. i < length rs \<Longrightarrow> 0 < cyc_count (rs ! i) \<and> 0 \<le> insn_count (rs ! i)
      \<and> end_cum_cyc (rs ! i) = (if i = 0 then c else end_cum_cyc (rs ! (i - 1))) + cyc_count (rs ! i)
      \<and> end_cum_insns (rs ! i) = (if i = 0 then n else end_cum_insns (rs ! (i - 1))) + insn_count (rs ! i)"
  shows "ranges_ok c n rs"
  using assms
proof (induction rs arbitrary: c n)
  case Nil
  then show ?case by simp
next
  case (Cons r rs)
  have "ranges_ok (end_cum_cyc r) (end_cum_insns r) rs"
  proof (rule Cons.IH)
    fix i assume "i < length rs"
    then show "0 < cyc_count (rs ! i) \<and> 0 \<le> insn_count (rs ! i)
      \<and> end_cum_cyc (rs ! i) = (if i = 0 then end_cum_cyc r else end_cum_cyc (rs ! (i - 1))) + cyc_count (rs ! i)
      \<and> end_cum_insns (rs ! i) = (if i = 0 then end_cum_insns r else end_cum_insns (rs ! (i - 1))) + insn_count (rs ! i)"
      using Cons.prems [of "Suc i"] by (cases i) simp_all
  qed
  then show ?case using Cons.prems [of 0] by simp
qed

lemma timestamped_ranges_ok:
  assumes "samples_ok samples" and "cycles_positive samples"
  shows "ranges_ok 0 0 (timestamped_ranges samples)"
proof (rule ranges_ok_indexI)
  fix i assume i: "i < length (timestamped_ranges samples)"
  let ?rows = "sort_key vid (ranges_t1 samples)"
  note at = timestamped_ranges_nth [OF assms(1) i]
  have len: "i < length ?rows" using i by (simp add: length_timestamped_ranges)
  then have "?rows ! i \<in> set ?rows" by (rule nth_mem)
  then have mem: "?rows ! i \<in> set (ranges_t1 samples)" by simp
  have pos: "0 < v_cyc_count (?rows ! i)" "0 \<le> v_insn_count (?rows ! i)"
    using mem assms by (auto simp: ranges_t1_def samples_ok_def cycles_positive_def)
  have step: "take (Suc i) ?rows = take i ?rows @ [?rows ! i]"
    using len by (rule take_Suc_conv_app_nth)
  show "0 < cyc_count (timestamped_ranges samples ! i) \<and> 0 \<le> insn_count (timestamped_ranges samples ! i)
      \<and> end_cum_cyc (timestamped_ranges samples ! i)
        = (if i = 0 then 0 else end_cum_cyc (timestamped_ranges samples ! (i - 1)))
          + cyc_count (timestamped_ranges samples ! i)
      \<and> end_cum_insns (timestamped_ranges samples ! i)
        = (if i = 0 then 0 else end_cum_insns (timestamped_ranges samples ! (i - 1)))
          + insn_count (timestamped_ranges samples ! i)"
  proof (cases i)
    case 0
    then show ?thesis using at pos step by simp
  next
    case (Suc j)
    then have "j < length (timestamped_ranges samples)" using i by simp
    note prev = timestamped_ranges_nth [OF assms(1) this]
    show ?thesis using at pos step prev Suc by simp
  qed
qed

section \<open>Positions on the cycle axis\<close>

lemma ranges_ok_nth:
  assumes "ranges_ok c n rs" "i < length rs"
  shows "0 < cyc_count (rs ! i)" "0 \<le> insn_count (rs ! i)"
    and "end_cum_cyc (rs ! i) = (if i = 0 then c else end_cum_cyc (rs ! (i - 1))) + cyc_count (rs ! i)"
    and "end_cum_insns (rs ! i) = (if i = 0 then n else end_cum_insns (rs ! (i - 1))) + insn_count (rs ! i)"
proof -
  have "0 < cyc_count (rs ! i) \<and> 0 \<le> insn_count (rs ! i)
    \<and> end_cum_cyc (rs ! i) = (if i = 0 then c else end_cum_cyc (rs ! (i - 1))) + cyc_count (rs ! i)
    \<and> end_cum_insns (rs ! i) = (if i = 0 then n else end_cum_insns (rs ! (i - 1))) + insn_count (rs ! i)"
    using assms
  proof (induction rs arbitrary: c n i)
    case Nil
    then show ?case by simp
  next
    case (Cons r rs)
    show ?case
    proof (cases i)
      case 0
      then show ?thesis using Cons.prems by simp
    next
      case (Suc j)
      have "ranges_ok (end_cum_cyc r) (end_cum_insns r) rs" "j < length rs"
        using Cons.prems Suc by auto
      note IH = Cons.IH [OF this]
      show ?thesis using IH Cons.prems Suc by (cases j) simp_all
    qed
  qed
  then show "0 < cyc_count (rs ! i)" "0 \<le> insn_count (rs ! i)"
    and "end_cum_cyc (rs ! i) = (if i = 0 then c else end_cum_cyc (rs ! (i - 1))) + cyc_count (rs ! i)"
    and "end_cum_insns (rs ! i) = (if i = 0 then n else end_cum_insns (rs ! (i - 1))) + insn_count (rs ! i)"
    by auto
qed

lemma ranges_ok_less:
  assumes "ranges_ok c n rs" "i < j" "j < length rs"
  shows "end_cum_cyc (rs ! i) \<le> end_cum_cyc (rs ! j) - cyc_count (rs ! j)
    \<and> end_cum_insns (rs ! i) \<le> end_cum_insns (rs ! j) - insn_count (rs ! j)"
  using assms(2,3)
proof (induction j)
  case 0
  then show ?case by simp
next
  case (Suc j)
  note at = ranges_ok_nth [OF assms(1) Suc.prems(2)]
  have prev: "j < length rs" using Suc.prems(2) by simp
  note before = ranges_ok_nth [OF assms(1) prev]
  show ?case
  proof (cases "i = j")
    case True
    then show ?thesis using at by simp
  next
    case False
    then show ?thesis using Suc at before by simp
  qed
qed

lemma ranges_ok_strict:
  assumes "ranges_ok c n rs" "i < j" "j < length rs"
  shows "end_cum_cyc (rs ! i) < end_cum_cyc (rs ! j)"
  using ranges_ok_less [OF assms] ranges_ok_nth(1) [OF assms(1,3)] by linarith

lemma ranges_ok_end_inj:
  assumes "ranges_ok c n rs"
  shows "inj_on end_cum_cyc (set rs)" and "distinct (map end_cum_cyc rs)"
proof -
  have "sorted_wrt (<) (map end_cum_cyc rs)"
    unfolding sorted_wrt_iff_nth_less using ranges_ok_strict [OF assms] by simp
  then have d: "distinct (map end_cum_cyc rs)" by (simp add: strict_sorted_iff)
  then show "distinct (map end_cum_cyc rs)" "inj_on end_cum_cyc (set rs)"
    by (simp_all add: distinct_map)
qed

lemma ranges_ok_first_cyc:
  assumes "ranges_ok c n rs" "r \<in> set rs"
  shows "c + cyc_count r \<le> end_cum_cyc r \<and> n + insn_count r \<le> end_cum_insns r"
proof -
  obtain i where i: "i < length rs" "r = rs ! i" using assms(2) by (auto simp: in_set_conv_nth)
  have "0 < length rs" using i(1) by linarith
  note first = ranges_ok_nth [OF assms(1) this]
  show ?thesis
    using ranges_ok_less [OF assms(1), of 0 i] first ranges_ok_nth [OF assms(1) i(1)] i
    by (cases "i = 0") auto
qed

lemma ranges_ok_pos: "ranges_ok c n rs \<Longrightarrow> r \<in> set rs \<Longrightarrow> 0 < cyc_count r \<and> 0 \<le> insn_count r"
  by (metis in_set_conv_nth ranges_ok_nth(1,2))

text \<open>Two ranges of one table: equal, or one ends before the other begins.\<close>

lemma ranges_ok_order:
  assumes "ranges_ok c n rs" "r \<in> set rs" "s \<in> set rs" "end_cum_cyc r < end_cum_cyc s"
  shows "end_cum_cyc r \<le> end_cum_cyc s - cyc_count s
     \<and> end_cum_insns r \<le> end_cum_insns s - insn_count s"
proof -
  obtain i j where ij: "i < length rs" "r = rs ! i" "j < length rs" "s = rs ! j"
    using assms(2,3) by (auto simp: in_set_conv_nth)
  have "i < j"
  proof (rule ccontr)
    assume "\<not> i < j"
    then have "j = i \<or> j < i" by linarith
    then show False using ranges_ok_strict [OF assms(1), of j i] assms(4) ij by auto
  qed
  then show ?thesis using ranges_ok_less [OF assms(1) _ ij(3)] ij by simp
qed

text \<open>The range before a given one, where there is one.\<close>

lemma ranges_ok_prev:
  assumes "ranges_ok c n rs" "r \<in> set rs" "c < end_cum_cyc r - cyc_count r"
  obtains q where "q \<in> set rs" "end_cum_cyc q = end_cum_cyc r - cyc_count r"
    "end_cum_insns q = end_cum_insns r - insn_count r"
proof -
  obtain i where i: "i < length rs" "r = rs ! i" using assms(2) by (auto simp: in_set_conv_nth)
  note at = ranges_ok_nth [OF assms(1) i(1)]
  have "i \<noteq> 0"
  proof
    assume "i = 0"
    then show False using at(3) assms(3) i(2) by simp
  qed
  then show thesis
    using that [of "rs ! (i - 1)"] at i by (simp add: less_imp_diff_less)
qed

end
