(* ===== verification/Time_Bounds.thy ===== *)
theory Time_Bounds
  imports Ranges Rounding
begin

text \<open>
  \<open>SqlUtil.configure\<close>, the part of \<open>setup\<close> after the script, the end of \<open>time_series_prep\<close> and
  the two conversions: which stretch of the trace is plotted, and how cycles become nanoseconds.
  Times are integers; everything computed from them in Python is a double, rounded by \<open>fl\<close>
  (\<open>f64\<close>). A NULL that reaches \<open>int()\<close> is a NaN there, hence a \<open>ValueError\<close>.
\<close>

record util_config =
  window_size_cyc :: int
  long_sample_limit_cyc :: int
  timeline_duration_ns :: int
  cumulative_longest_time_to_discard :: rat

section \<open>setup\<close>

text \<open>\<open>int()\<close> of a float truncates.\<close>

definition py_int :: "rat \<Rightarrow> int" where
  "py_int x = (if 0 \<le> x then \<lfloor>x\<rfloor> else \<lceil>x\<rceil>)"

definition midpoint :: "(rat \<Rightarrow> rat) \<Rightarrow> int \<Rightarrow> int \<Rightarrow> int" where
  "midpoint fl first_time last_time =
     py_int (fl (fl (of_int first_time) + fl (fl (of_int (last_time - first_time)) / 2)))"

record time_bound =
  tb_ns :: int
  tb_cyc :: "int option"

definition time_bounds :: "int \<Rightarrow> int \<Rightarrow> trange list \<Rightarrow> time_bound list" where
  "time_bounds start_ns end_ns rs =
     map (\<lambda>col0. \<lparr>tb_ns = col0, tb_cyc = sql_min (map end_cum_cyc (filter (\<lambda>r. col0 < end_time r) rs))\<rparr>)
       [start_ns, end_ns]"

definition first_time :: "trange list \<Rightarrow> int option" where
  "first_time rs = sql_min (map end_time (filter (\<lambda>r. 0 < end_time r) rs))"

definition last_time :: "trange list \<Rightarrow> int option" where
  "last_time rs = sql_max (map end_time rs)"

definition setup_start :: "(rat \<Rightarrow> rat) \<Rightarrow> trange list \<Rightarrow> int result" where
  "setup_start fl rs = (case (first_time rs, last_time rs) of
      (Some a, Some b) \<Rightarrow> Inr (midpoint fl a b)
    | _ \<Rightarrow> Inl ValueError)"

text \<open>The duration is a constant of the code, not the configured one.\<close>

definition util_setup :: "(rat \<Rightarrow> rat) \<Rightarrow> util_config \<Rightarrow> trange list \<Rightarrow> time_bound list result" where
  "util_setup fl cfg rs =
     bind_res (setup_start fl rs) (\<lambda>start_ns.
       let duration_ns = 15000;
           end_ns = start_ns + duration_ns;
           range_data = time_bounds start_ns end_ns rs
       in if list_all (\<lambda>b. tb_cyc b \<noteq> None) range_data then Inr range_data else Inl ValueError)"

section \<open>The clock\<close>

text \<open>
  \<open>ORDER BY cyc\<close> puts NULL last. The casts to \<open>ubigint\<close> fail on negative values. The rows are
  unpacked into Python numbers, so two bounds on the same cycle divide by zero and raise; a NULL
  bound is a NaN and so is the rate (\<open>None\<close>).
\<close>

record clock =
  start_ns :: int
  start_cyc :: "int option"
  end_ns :: int
  end_cyc :: "int option"
  ns_rate :: "rat option"

definition nulls_last :: "('r \<Rightarrow> int option) \<Rightarrow> 'r list \<Rightarrow> 'r list" where
  "nulls_last key rows =
     sort_key (\<lambda>r. the (key r)) (filter (\<lambda>r. key r \<noteq> None) rows) @ filter (\<lambda>r. key r = None) rows"

definition clock_bounds :: "time_bound list \<Rightarrow> (time_bound \<times> time_bound) result" where
  "clock_bounds tb =
     (if list_ex (\<lambda>b. tb_ns b < 0 \<or> (case tb_cyc b of None \<Rightarrow> False | Some c \<Rightarrow> c < 0)) tb then Inl ConversionError
      else case nulls_last tb_cyc tb of [b, e] \<Rightarrow> Inr (b, e) | _ \<Rightarrow> Inl ValueError)"

definition rate_of :: "(rat \<Rightarrow> rat) \<Rightarrow> time_bound \<Rightarrow> time_bound \<Rightarrow> rat option result" where
  "rate_of fl b e = (case (tb_cyc b, tb_cyc e) of
      (Some x, Some y) \<Rightarrow>
        if y - x = 0 then Inl ZeroDivisionError
        else Inr (Some (fl (fl (of_int (tb_ns e - tb_ns b)) / fl (of_int (y - x)))))
    | _ \<Rightarrow> Inr None)"

definition clock_between :: "time_bound \<Rightarrow> time_bound \<Rightarrow> rat option \<Rightarrow> clock" where
  "clock_between b e rate =
     \<lparr>start_ns = tb_ns b, start_cyc = tb_cyc b, end_ns = tb_ns e, end_cyc = tb_cyc e, ns_rate = rate\<rparr>"

definition clock_of :: "(rat \<Rightarrow> rat) \<Rightarrow> time_bound list \<Rightarrow> clock result" where
  "clock_of fl tb = bind_res (clock_bounds tb) (\<lambda>(b, e).
     bind_res (rate_of fl b e) (\<lambda>rate. Inr (clock_between b e rate)))"

definition duration_cyc_to_ns :: "(rat \<Rightarrow> rat) \<Rightarrow> clock \<Rightarrow> int \<Rightarrow> rat option" where
  "duration_cyc_to_ns fl c duration_cyc =
     map_option (\<lambda>rate. fl (fl (of_int duration_cyc) * rate)) (ns_rate c)"

definition time_cyc_to_ns :: "(rat \<Rightarrow> rat) \<Rightarrow> clock \<Rightarrow> int \<Rightarrow> rat option" where
  "time_cyc_to_ns fl c cyc = (case start_cyc c of
      None \<Rightarrow> None
    | Some s \<Rightarrow> map_option (\<lambda>d. fl (fl (of_int (start_ns c)) + d)) (duration_cyc_to_ns fl c (cyc - s)))"

section \<open>Lemmas\<close>

lemma util_setup_Inr_iff:
  "util_setup fl cfg rs = Inr tb \<longleftrightarrow> (\<exists>s. setup_start fl rs = Inr s \<and> tb = time_bounds s (s + 15000) rs
     \<and> (\<exists>r\<in>set rs. s + 15000 < end_time r))"
proof -
  have "list_all (\<lambda>b. tb_cyc b \<noteq> None) (time_bounds s (s + 15000) rs) \<longleftrightarrow> (\<exists>r\<in>set rs. s + 15000 < end_time r)" for s
    by (auto simp: time_bounds_def filter_empty_conv simp flip: not_None_eq) force
  then show ?thesis
    by (auto simp: util_setup_def bind_res_Inr_iff Let_def)
qed

lemma setup_start_Inr_iff:
  "setup_start fl rs = Inr s \<longleftrightarrow> (\<exists>a b. first_time rs = Some a \<and> last_time rs = Some b \<and> s = midpoint fl a b)"
  by (auto simp: setup_start_def split: option.splits)

text \<open>A bound's cycle is the first range end, on the cycle axis, whose time is later.\<close>

lemma time_bound_cyc:
  assumes "\<exists>r\<in>set rs. n < end_time r"
  obtains r where "r \<in> set rs" "n < end_time r"
    "sql_min (map end_cum_cyc (filter (\<lambda>r. n < end_time r) rs)) = Some (end_cum_cyc r)"
    "\<forall>q\<in>set rs. n < end_time q \<longrightarrow> end_cum_cyc r \<le> end_cum_cyc q"
proof -
  obtain m where m: "sql_min (map end_cum_cyc (filter (\<lambda>r. n < end_time r) rs)) = Some m"
    using assms by (cases "sql_min (map end_cum_cyc (filter (\<lambda>r. n < end_time r) rs))")
      (auto simp: filter_empty_conv)
  then obtain r where "r \<in> set rs" "n < end_time r" "m = end_cum_cyc r"
    by (auto simp: sql_min_Some_iff)
  with m that show thesis by (auto simp: sql_min_Some_iff)
qed

lemma time_bound_cycI:
  "p \<in> set rs \<Longrightarrow> n < end_time p \<Longrightarrow> \<forall>r\<in>set rs. n < end_time r \<longrightarrow> end_cum_cyc p \<le> end_cum_cyc r \<Longrightarrow>
     sql_min (map end_cum_cyc (filter (\<lambda>r. n < end_time r) rs)) = Some (end_cum_cyc p)"
  by (auto simp: sql_min_Some_iff)

lemma setup_cases:
  assumes "util_setup fl cfg rs = Inr tb"
  obtains s b e where "setup_start fl rs = Inr s"
    "tb = [\<lparr>tb_ns = s, tb_cyc = Some (end_cum_cyc b)\<rparr>, \<lparr>tb_ns = s + 15000, tb_cyc = Some (end_cum_cyc e)\<rparr>]"
    "b \<in> set rs" "s < end_time b" "\<forall>q\<in>set rs. s < end_time q \<longrightarrow> end_cum_cyc b \<le> end_cum_cyc q"
    "e \<in> set rs" "s + 15000 < end_time e" "\<forall>q\<in>set rs. s + 15000 < end_time q \<longrightarrow> end_cum_cyc e \<le> end_cum_cyc q"
    "end_cum_cyc b \<le> end_cum_cyc e"
proof -
  obtain s where s: "setup_start fl rs = Inr s" "tb = time_bounds s (s + 15000) rs"
      "\<exists>r\<in>set rs. s + 15000 < end_time r"
    using assms by (auto simp: util_setup_Inr_iff)
  then have "\<exists>r\<in>set rs. s < end_time r" by force
  then obtain b where b: "b \<in> set rs" "s < end_time b"
      "sql_min (map end_cum_cyc (filter (\<lambda>r. s < end_time r) rs)) = Some (end_cum_cyc b)"
      "\<forall>q\<in>set rs. s < end_time q \<longrightarrow> end_cum_cyc b \<le> end_cum_cyc q"
    by (rule time_bound_cyc)
  obtain e where e: "e \<in> set rs" "s + 15000 < end_time e"
      "sql_min (map end_cum_cyc (filter (\<lambda>r. s + 15000 < end_time r) rs)) = Some (end_cum_cyc e)"
      "\<forall>q\<in>set rs. s + 15000 < end_time q \<longrightarrow> end_cum_cyc e \<le> end_cum_cyc q"
    by (rule time_bound_cyc [OF s(3)])
  have "end_cum_cyc b \<le> end_cum_cyc e" using b(4) e(1,2) by force
  then show thesis
    using that [OF s(1) _ b(1,2,4) e(1,2,4)] b(3) e(3) s(2) by (simp add: time_bounds_def)
qed

lemma clock_bounds_two:
  assumes "x \<le> y" and "0 \<le> n" and "0 \<le> m" and "0 \<le> x"
  shows "clock_bounds [\<lparr>tb_ns = n, tb_cyc = Some x\<rparr>, \<lparr>tb_ns = m, tb_cyc = Some y\<rparr>] =
    Inr (\<lparr>tb_ns = n, tb_cyc = Some x\<rparr>, \<lparr>tb_ns = m, tb_cyc = Some y\<rparr>)"
  using assms by (simp add: clock_bounds_def nulls_last_def)

lemma clock_of_two:
  assumes "x \<le> y" and "0 \<le> n" and "0 \<le> m" and "0 \<le> x"
  shows "clock_of fl [\<lparr>tb_ns = n, tb_cyc = Some x\<rparr>, \<lparr>tb_ns = m, tb_cyc = Some y\<rparr>] =
    (if x = y then Inl ZeroDivisionError
     else Inr \<lparr>start_ns = n, start_cyc = Some x, end_ns = m, end_cyc = Some y,
       ns_rate = Some (fl (fl (of_int (m - n)) / fl (of_int (y - x))))\<rparr>)"
  by (simp add: clock_of_def clock_bounds_two [OF assms] rate_of_def clock_between_def bind_res_def del: of_int_diff)

lemma set_nulls_last: "set (nulls_last key rows) = set rows"
  by (auto simp: nulls_last_def)

lemma mset_nulls_last: "mset (nulls_last key rows) = mset rows"
  unfolding nulls_last_def by (induction rows) auto

lemma clock_bounds_nonneg:
  assumes "clock_bounds tb = Inr (b, e)"
  shows "0 \<le> tb_ns b \<and> 0 \<le> tb_ns e \<and> {b, e} = set tb"
proof -
  have "nulls_last tb_cyc tb = [b, e]"
    "\<not> list_ex (\<lambda>b. tb_ns b < 0 \<or> (case tb_cyc b of None \<Rightarrow> False | Some c \<Rightarrow> c < 0)) tb"
    using assms by (auto simp: clock_bounds_def split: if_splits list.splits)
  moreover from this(1) have "set tb = {b, e}" using set_nulls_last [of tb_cyc tb] by simp
  ultimately show ?thesis by (simp add: list_ex_iff)
qed

lemma clock_of_Inr_iff:
  "clock_of fl tb = Inr c \<longleftrightarrow>
     (\<exists>b e rate. clock_bounds tb = Inr (b, e) \<and> rate_of fl b e = Inr rate \<and> c = clock_between b e rate)"
  by (auto simp: clock_of_def bind_res_Inr_iff)

lemma clock_start_nonneg:
  assumes "clock_of fl tb = Inr c"
  shows "0 \<le> start_ns c"
  using assms clock_bounds_nonneg by (auto simp: clock_of_Inr_iff clock_between_def)

text \<open>The clock of a trace whose ranges are ordered in time.\<close>

definition times_ordered :: "trange list \<Rightarrow> bool" where
  "times_ordered rs \<longleftrightarrow> (\<forall>p\<in>set rs. \<forall>q\<in>set rs. end_cum_cyc p \<le> end_cum_cyc q \<longrightarrow> end_time p \<le> end_time q)"

lemma clock_cases:
  assumes "util_setup fl cfg rs = Inr tb" "clock_of gl tb = Inr c"
  obtains s b e where "setup_start fl rs = Inr s" "b \<in> set rs" "e \<in> set rs"
    "s < end_time b" "\<forall>q\<in>set rs. s < end_time q \<longrightarrow> end_cum_cyc b \<le> end_cum_cyc q"
    "s + 15000 < end_time e" "\<forall>q\<in>set rs. s + 15000 < end_time q \<longrightarrow> end_cum_cyc e \<le> end_cum_cyc q"
    "end_cum_cyc b < end_cum_cyc e"
    "c = \<lparr>start_ns = s, start_cyc = Some (end_cum_cyc b), end_ns = s + 15000, end_cyc = Some (end_cum_cyc e),
      ns_rate = Some (gl (gl 15000 / gl (of_int (end_cum_cyc e - end_cum_cyc b))))\<rparr>"
proof -
  obtain s b e where *: "setup_start fl rs = Inr s"
    "tb = [\<lparr>tb_ns = s, tb_cyc = Some (end_cum_cyc b)\<rparr>, \<lparr>tb_ns = s + 15000, tb_cyc = Some (end_cum_cyc e)\<rparr>]"
    "b \<in> set rs" "s < end_time b" "\<forall>q\<in>set rs. s < end_time q \<longrightarrow> end_cum_cyc b \<le> end_cum_cyc q"
    "e \<in> set rs" "s + 15000 < end_time e" "\<forall>q\<in>set rs. s + 15000 < end_time q \<longrightarrow> end_cum_cyc e \<le> end_cum_cyc q"
    "end_cum_cyc b \<le> end_cum_cyc e"
    by (rule setup_cases [OF assms(1)])
  then have "0 \<le> s" "0 \<le> end_cum_cyc b"
    using assms(2) by (auto simp: clock_of_Inr_iff clock_bounds_def split: if_splits)
  then have "end_cum_cyc b \<noteq> end_cum_cyc e" "c = \<lparr>start_ns = s, start_cyc = Some (end_cum_cyc b), end_ns = s + 15000,
      end_cyc = Some (end_cum_cyc e), ns_rate = Some (gl (gl 15000 / gl (of_int (end_cum_cyc e - end_cum_cyc b))))\<rparr>"
    using assms(2) *(9) by (simp_all add: *(2) clock_of_two del: of_int_diff split: if_splits)
  then show thesis using that [OF *(1,3,6,4,5,7,8)] *(9) by simp
qed

context rounding begin

text \<open>The conversion is monotone whatever the rounding, as long as the rate is not negative.\<close>

lemma time_cyc_to_ns_mono:
  assumes "ns_rate c = Some (fl (fl 15000 / fl (of_int (y - x))))" "x \<le> y" "start_cyc c = Some x"
    and "p \<le> q" "time_cyc_to_ns fl c p = Some t" "time_cyc_to_ns fl c q = Some u"
  shows "t \<le> u"
proof -
  define r where "r = fl (fl 15000 / fl (of_int (y - x)))"
  then have r: "ns_rate c = Some r" using assms(1) by simp
  note r_def
  moreover have "0 \<le> fl (of_int (y - x))" "0 \<le> fl 15000" using assms(2) by (simp_all add: fl_nonneg)
  ultimately have "0 \<le> r" by (simp add: fl_nonneg)
  moreover have "fl (of_int (p - x)) \<le> fl (of_int (q - x))" using assms(4) by (intro fl_mono) simp
  ultimately have "fl (of_int (p - x)) * r \<le> fl (of_int (q - x)) * r" by (rule mult_right_mono [rotated])
  then have "fl (fl (of_int (p - x)) * r) \<le> fl (fl (of_int (q - x)) * r)" by (rule fl_mono)
  then show ?thesis using assms(3,5,6) r
    by (auto simp: time_cyc_to_ns_def duration_cyc_to_ns_def intro!: fl_mono)
qed

end

lemma py_int_half: "0 \<le> m \<Longrightarrow> py_int (of_int m / 2) = m div 2"
  by (simp add: py_int_def floor_divide_of_int_eq [of m 2, simplified])

section \<open>Properties\<close>

text \<open>Three ranges ending at 100, 120 and 60000 ns.\<close>

definition demo_range :: "int \<Rightarrow> int \<Rightarrow> int \<Rightarrow> trange" where
  "demo_range i t c = \<lparr>start_sample_id = None, start_time = None, start_offset_time = None,
     start_cum_insns = None, start_cum_cyc = None, end_sample_id = i, end_time = t,
     end_offset_time = 0, end_cum_insns = c, end_cum_cyc = c, end_sample_row_number = i,
     insn_count = 1, cyc_count = 1, event = None, symbol = None, to_symbol = None,
     branch_type_name = None\<rparr>"

definition demo_times :: "trange list" where
  "demo_times = [demo_range 1 100 1, demo_range 2 30060 4, demo_range 3 60000 9]"

definition demo_util_config :: util_config where
  "demo_util_config = \<lparr>window_size_cyc = 2000, long_sample_limit_cyc = 500,
     timeline_duration_ns = 15000, cumulative_longest_time_to_discard = 1 / 100\<rparr>"

lemma demo_setup:
  "util_setup f64 demo_util_config demo_times
     = Inr [\<lparr>tb_ns = 30050, tb_cyc = Some 4\<rparr>, \<lparr>tb_ns = 45050, tb_cyc = Some 9\<rparr>]"
proof -
  have "midpoint f64 100 60000 = 30050" by code_simp
  moreover have "first_time demo_times = Some 100" "last_time demo_times = Some 60000" by code_simp+
  ultimately have "setup_start f64 demo_times = Inr 30050" by (simp add: setup_start_def)
  moreover have "time_bounds 30050 45050 demo_times
      = [\<lparr>tb_ns = 30050, tb_cyc = Some 4\<rparr>, \<lparr>tb_ns = 45050, tb_cyc = Some 9\<rparr>]" by code_simp
  ultimately show ?thesis by (simp add: util_setup_def Let_def)
qed

text \<open>The plotted stretch starts at the integer midpoint of the trace's times: the rounding of
  the three floating-point operations is exact for every trace shorter than 2^52 ns.\<close>

theorem midpoint_exact:
  assumes "0 \<le> a" and "a \<le> b" and "b \<le> 2 ^ 52"
  shows "midpoint f64 a b = (a + b) div 2"
proof -
  have "f64 (of_int (b - a)) = of_int (b - a)" "f64 (of_int a) = of_int a"
    using assms by (intro f64.fl_int; simp)+
  moreover have "f64 (of_int (b - a) / 2) = of_int (b - a) / 2"
    by (rule f64_half_exact) (use assms in simp)
  moreover have "of_int a + of_int (b - a) / 2 = (of_int (a + b) / 2 :: rat)"
    by (simp add: field_simps)
  moreover have "f64 (of_int (a + b) / 2) = of_int (a + b) / 2"
    by (rule f64_half_exact) (use assms in simp)
  moreover have "0 \<le> a + b" using assms by simp
  ultimately show ?thesis unfolding midpoint_def by (simp only: py_int_half)
qed

theorem midpoint_exact_witness: "midpoint f64 100 60001 = 30050"
  using midpoint_exact [of 100 60001] by simp

text \<open>\<open>setup\<close> succeeds exactly when some range ends at a positive time and some range ends more
  than 15000 ns after the midpoint. It then stores two rows: the midpoint and the midpoint plus
  15000 ns, each with the first cumulative cycle count whose range ends later, in increasing order.\<close>

theorem setup_time_bounds:
  "util_setup fl cfg rs = Inr tb \<longleftrightarrow>
     (\<exists>a b s. first_time rs = Some a \<and> last_time rs = Some b \<and> s = midpoint fl a b
       \<and> (\<exists>r\<in>set rs. s + 15000 < end_time r)
       \<and> (\<exists>p\<in>set rs. \<exists>q\<in>set rs. s < end_time p \<and> s + 15000 < end_time q
            \<and> (\<forall>r\<in>set rs. s < end_time r \<longrightarrow> end_cum_cyc p \<le> end_cum_cyc r)
            \<and> (\<forall>r\<in>set rs. s + 15000 < end_time r \<longrightarrow> end_cum_cyc q \<le> end_cum_cyc r)
            \<and> end_cum_cyc p \<le> end_cum_cyc q
            \<and> tb = [\<lparr>tb_ns = s, tb_cyc = Some (end_cum_cyc p)\<rparr>,
                    \<lparr>tb_ns = s + 15000, tb_cyc = Some (end_cum_cyc q)\<rparr>]))" (is "?L \<longleftrightarrow> ?R")
proof
  assume ?L
  then obtain s b e where "setup_start fl rs = Inr s"
      "tb = [\<lparr>tb_ns = s, tb_cyc = Some (end_cum_cyc b)\<rparr>, \<lparr>tb_ns = s + 15000, tb_cyc = Some (end_cum_cyc e)\<rparr>]"
      "b \<in> set rs" "s < end_time b" "\<forall>q\<in>set rs. s < end_time q \<longrightarrow> end_cum_cyc b \<le> end_cum_cyc q"
      "e \<in> set rs" "s + 15000 < end_time e"
      "\<forall>q\<in>set rs. s + 15000 < end_time q \<longrightarrow> end_cum_cyc e \<le> end_cum_cyc q"
      "end_cum_cyc b \<le> end_cum_cyc e"
    by (rule setup_cases)
  then show ?R unfolding setup_start_Inr_iff by blast
next
  assume ?R
  then obtain s p q where s: "setup_start fl rs = Inr s" "\<exists>r\<in>set rs. s + 15000 < end_time r"
    and tb: "tb = [\<lparr>tb_ns = s, tb_cyc = Some (end_cum_cyc p)\<rparr>, \<lparr>tb_ns = s + 15000, tb_cyc = Some (end_cum_cyc q)\<rparr>]"
    and p: "p \<in> set rs" "s < end_time p" "\<forall>r\<in>set rs. s < end_time r \<longrightarrow> end_cum_cyc p \<le> end_cum_cyc r"
    and q: "q \<in> set rs" "s + 15000 < end_time q"
      "\<forall>r\<in>set rs. s + 15000 < end_time r \<longrightarrow> end_cum_cyc q \<le> end_cum_cyc r"
    unfolding setup_start_Inr_iff by blast
  have "tb = time_bounds s (s + 15000) rs"
    by (simp add: tb time_bounds_def time_bound_cycI [OF p] time_bound_cycI [OF q])
  then show ?L using s by (simp add: util_setup_Inr_iff)
qed

theorem setup_time_bounds_witness:
  "\<exists>a b. first_time demo_times = Some a \<and> last_time demo_times = Some b \<and> midpoint f64 a b = 30050"
  using iffD1 [OF setup_time_bounds demo_setup] by auto

text \<open>C31: In a trace whose times follow its cycles, the clock of the plotted stretch cuts the ranges
  where the times say: a range ends before the clock's first (last) cycle exactly when it ends at
  or before its first (last) nanosecond. When no range ends within the plotted 15000 ns, an idle
  gap in the middle of the trace, there is no clock: the two bounds are one cycle and the rate
  divides by zero.\<close>

theorem clock_cuts:
  assumes "setup_start fl rs = Inr s" and "util_setup fl cfg rs = Inr tb" and "times_ordered rs"
    and "0 \<le> s" and "\<forall>r\<in>set rs. 0 \<le> end_cum_cyc r"
  shows "if \<exists>q\<in>set rs. s < end_time q \<and> end_time q \<le> s + 15000
    then \<exists>c. clock_of gl tb = Inr c \<and> start_ns c = s \<and> end_ns c = s + 15000
      \<and> (\<forall>r\<in>set rs. (end_cum_cyc r < the (start_cyc c) \<longleftrightarrow> end_time r \<le> s)
            \<and> (end_cum_cyc r < the (end_cyc c) \<longleftrightarrow> end_time r \<le> s + 15000))
    else clock_of gl tb = Inl ZeroDivisionError"
proof -
  obtain b e where *: "b \<in> set rs" "e \<in> set rs"
    "tb = [\<lparr>tb_ns = s, tb_cyc = Some (end_cum_cyc b)\<rparr>, \<lparr>tb_ns = s + 15000, tb_cyc = Some (end_cum_cyc e)\<rparr>]"
    "s < end_time b" "\<forall>q\<in>set rs. s < end_time q \<longrightarrow> end_cum_cyc b \<le> end_cum_cyc q"
    "s + 15000 < end_time e" "\<forall>q\<in>set rs. s + 15000 < end_time q \<longrightarrow> end_cum_cyc e \<le> end_cum_cyc q"
    "end_cum_cyc b \<le> end_cum_cyc e"
    using setup_cases [OF assms(2)] assms(1) by (metis sum.inject(2))
  have cut: "end_cum_cyc q < end_cum_cyc p \<longleftrightarrow> end_time q \<le> n"
    if "p \<in> set rs" "n < end_time p" "\<forall>q\<in>set rs. n < end_time q \<longrightarrow> end_cum_cyc p \<le> end_cum_cyc q" "q \<in> set rs"
    for p n q
    using that assms(3) unfolding times_ordered_def by (meson leD le_less_linear less_le_trans)
  have clock: "clock_of gl tb = (if end_cum_cyc b = end_cum_cyc e then Inl ZeroDivisionError
      else Inr \<lparr>start_ns = s, start_cyc = Some (end_cum_cyc b), end_ns = s + 15000, end_cyc = Some (end_cum_cyc e),
       ns_rate = Some (gl (gl (of_int (s + 15000 - s)) / gl (of_int (end_cum_cyc e - end_cum_cyc b))))\<rparr>)"
    unfolding *(3) by (rule clock_of_two) (use assms(4,5) *(1,8) in auto)
  have "end_cum_cyc b = end_cum_cyc e \<longleftrightarrow> \<not> end_cum_cyc b < end_cum_cyc e" using *(8) by auto
  also have "\<dots> \<longleftrightarrow> \<not> (\<exists>q\<in>set rs. s < end_time q \<and> end_time q \<le> s + 15000)"
    using cut [OF *(2,6,7)] cut [OF *(1,4,5)] *(1,4,5) by (metis le_less_trans linorder_not_le)
  finally show ?thesis
    using cut [OF *(1,4,5)] cut [OF *(2,6,7)] by (simp add: clock del: of_int_diff)
qed

definition demo_clock :: clock where
  "demo_clock = \<lparr>start_ns = 30050, start_cyc = Some 4, end_ns = 45050, end_cyc = Some 9, ns_rate = Some 3000\<rparr>"

lemma demo_clock_of:
  "clock_of (\<lambda>x. x) [\<lparr>tb_ns = 30050, tb_cyc = Some 4\<rparr>, \<lparr>tb_ns = 45050, tb_cyc = Some 9\<rparr>] = Inr demo_clock"
  by code_simp

lemma demo_setup_start: "setup_start f64 demo_times = Inr 30050"
proof -
  have "midpoint f64 100 60000 = 30050" by code_simp
  moreover have "first_time demo_times = Some 100" "last_time demo_times = Some 60000" by code_simp+
  ultimately show ?thesis by (simp add: setup_start_def)
qed

text \<open>A trace that is idle from 100 to 60000 ns: no range ends in the stretch from 30050 to 45050 ns.\<close>

definition demo_idle :: "trange list" where
  "demo_idle = [demo_range 1 100 1, demo_range 2 60000 9]"

lemma demo_idle_setup:
  "setup_start f64 demo_idle = Inr 30050"
  "util_setup f64 demo_util_config demo_idle
     = Inr [\<lparr>tb_ns = 30050, tb_cyc = Some 9\<rparr>, \<lparr>tb_ns = 45050, tb_cyc = Some 9\<rparr>]"
proof -
  have "midpoint f64 100 60000 = 30050" by code_simp
  moreover have "first_time demo_idle = Some 100" "last_time demo_idle = Some 60000" by code_simp+
  ultimately show start: "setup_start f64 demo_idle = Inr 30050" by (simp add: setup_start_def)
  have "time_bounds 30050 45050 demo_idle
      = [\<lparr>tb_ns = 30050, tb_cyc = Some 9\<rparr>, \<lparr>tb_ns = 45050, tb_cyc = Some 9\<rparr>]" by code_simp
  with start show "util_setup f64 demo_util_config demo_idle
     = Inr [\<lparr>tb_ns = 30050, tb_cyc = Some 9\<rparr>, \<lparr>tb_ns = 45050, tb_cyc = Some 9\<rparr>]" by (simp add: util_setup_def Let_def)
qed

theorem clock_cuts_witness:
  "clock_of f64 [\<lparr>tb_ns = 30050, tb_cyc = Some 9\<rparr>, \<lparr>tb_ns = 45050, tb_cyc = Some 9\<rparr>] = Inl ZeroDivisionError
   \<and> (\<exists>c. clock_of f64 [\<lparr>tb_ns = 30050, tb_cyc = Some 4\<rparr>, \<lparr>tb_ns = 45050, tb_cyc = Some 9\<rparr>] = Inr c
        \<and> 1 < the (start_cyc c) \<and> \<not> 4 < the (start_cyc c) \<and> 4 < the (end_cyc c))"
proof -
  have "times_ordered demo_idle" "times_ordered demo_times"
    by (auto simp: times_ordered_def demo_times_def demo_idle_def demo_range_def)
  from clock_cuts [OF demo_idle_setup this(1), of f64] clock_cuts [OF demo_setup_start demo_setup this(2), of f64]
  show ?thesis by (auto simp: demo_range_def demo_idle_def demo_times_def)
qed

text \<open>C30: The conversion sends the first plotted cycle to the first plotted nanosecond and, in exact
  arithmetic, the last one to the last; under any monotone rounding it keeps the order of cycles.\<close>

theorem clock_converts:
  assumes "util_setup fl cfg rs = Inr tb" and "clock_of f64 tb = Inr c" and "clock_of (\<lambda>x. x) tb = Inr d"
    and "end_ns c \<le> 2 ^ 53"
  shows "time_cyc_to_ns f64 c (the (start_cyc c)) = Some (of_int (start_ns c))
    \<and> time_cyc_to_ns (\<lambda>x. x) d (the (end_cyc d)) = Some (of_int (end_ns d))
    \<and> (\<forall>p q t u. p \<le> q \<longrightarrow> time_cyc_to_ns f64 c p = Some t \<longrightarrow> time_cyc_to_ns f64 c q = Some u \<longrightarrow> t \<le> u)"
proof -
  obtain s and b e :: trange where c: "end_cum_cyc b < end_cum_cyc e"
    "c = \<lparr>start_ns = s, start_cyc = Some (end_cum_cyc b), end_ns = s + 15000, end_cyc = Some (end_cum_cyc e),
      ns_rate = Some (f64 (f64 15000 / f64 (of_int (end_cum_cyc e - end_cum_cyc b))))\<rparr>"
    by (rule clock_cases [OF assms(1,2)]) blast
  obtain s' and b' e' :: trange where d: "end_cum_cyc b' < end_cum_cyc e'"
    "d = \<lparr>start_ns = s', start_cyc = Some (end_cum_cyc b'), end_ns = s' + 15000, end_cyc = Some (end_cum_cyc e'),
      ns_rate = Some (15000 / of_int (end_cum_cyc e' - end_cum_cyc b'))\<rparr>"
    by (rule clock_cases [OF assms(1,3)]) blast
  have ns: "0 \<le> s" using clock_start_nonneg [OF assms(2)] by (simp add: c(2))
  have "f64 (of_int s) = of_int s" using assms(4) ns by (intro f64.fl_int) (simp add: c(2))
  then have "time_cyc_to_ns f64 c (the (start_cyc c)) = Some (of_int (start_ns c))"
    by (simp add: c(2) time_cyc_to_ns_def duration_cyc_to_ns_def f64.fl_zero)
  moreover have "time_cyc_to_ns (\<lambda>x. x) d (the (end_cyc d)) = Some (of_int (end_ns d))"
    using d(1) by (auto simp: d(2) time_cyc_to_ns_def duration_cyc_to_ns_def simp del: of_int_diff)
  moreover have "t \<le> u" if "p \<le> q" "time_cyc_to_ns f64 c p = Some t" "time_cyc_to_ns f64 c q = Some u" for p q t u
    by (rule f64.time_cyc_to_ns_mono [OF _ less_imp_le [OF c(1)] _ that]) (simp_all add: c(2) del: of_int_diff)
  ultimately show ?thesis by blast
qed

lemma demo_clock_of_f64:
  "clock_of f64 [\<lparr>tb_ns = 30050, tb_cyc = Some 4\<rparr>, \<lparr>tb_ns = 45050, tb_cyc = Some 9\<rparr>] = Inr demo_clock"
  by code_simp

theorem clock_converts_witness:
  "time_cyc_to_ns f64 demo_clock 4 = Some 30050 \<and> time_cyc_to_ns (\<lambda>x. x) demo_clock 9 = Some 45050"
  using clock_converts [OF demo_setup demo_clock_of_f64 demo_clock_of] by (simp add: demo_clock_def)

end
