(* ===== verification/Events.thy ===== *)
theory Events
  imports Syscalls Time_Bounds
begin

text \<open>
  The rest of \<open>events_prep\<close>: context switches in the call trace, the stretches of time a system
  call is on the CPU (both ends found by ASOF joins), the check of the result, and the table of
  trace overflows. \<open>lo\<close> and \<open>hi\<close> are the clock's \<open>self.start_ns\<close> and \<open>self.end_ns\<close>.
\<close>

section \<open>Context switches\<close>

record kernel_call =
  k_call_id :: int
  k_call_time :: "int option"
  k_call_return_time :: "int option"

definition kernel_calls :: "trace_tables \<Rightarrow> string \<Rightarrow> kernel_call list" where
  "kernel_calls T fn =
     concat (map (\<lambda>c. map (\<lambda>_. \<lparr>k_call_id = cid c, k_call_time = call_time c, k_call_return_time = return_time c\<rparr>)
         (filter (\<lambda>(cp, s, d). Option.bind s symbol_name = Some fn
             \<and> Option.bind d short_name = Some ''[kernel.kallsyms]'')
           (join_symbols T (call_path_id c))))
       (t_calls T))"

definition prepare_task_switch :: "trace_tables \<Rightarrow> kernel_call list" where
  "prepare_task_switch T = kernel_calls T ''prepare_task_switch''"

definition switch_mm_irqs_off :: "trace_tables \<Rightarrow> kernel_call list" where
  "switch_mm_irqs_off T = kernel_calls T ''switch_mm_irqs_off''"

definition sql_less :: "int option \<Rightarrow> int option \<Rightarrow> bool" where
  "sql_less x y = (case (x, y) of (Some a, Some b) \<Rightarrow> a < b | _ \<Rightarrow> False)"

record switch_row =
  pts :: kernel_call
  smio :: "kernel_call option"

definition event_switches :: "(int option list \<Rightarrow> nat option) \<Rightarrow> trace_tables \<Rightarrow> switch_row list" where
  "event_switches pick T =
     map (\<lambda>p. \<lparr>pts = p, smio = asof_least pick (\<lambda>q. sql_less (k_call_time p) (k_call_time q))
                 (\<lambda>q. the (k_call_time q)) (switch_mm_irqs_off T)\<rparr>)
       (prepare_task_switch T)"

section \<open>System calls on the CPU\<close>

record endpoint =
  e_time :: "int option"
  e_name :: "string option"
  e_call_id :: "int option"

definition in_view_context_switches :: "int \<Rightarrow> int \<Rightarrow> switch_row list \<Rightarrow> endpoint list" where
  "in_view_context_switches lo hi sws =
     filter (\<lambda>p. sql_between (e_time p) lo hi)
       (map (\<lambda>w. \<lparr>e_time = Option.bind (smio w) k_call_time, e_name = None, e_call_id = None\<rparr>) sws)"

definition syscall_start :: "syscall_row \<Rightarrow> endpoint" where
  "syscall_start r = \<lparr>e_time = sc_call_time r, e_name = syscall_kernel_name r, e_call_id = Some (sc_call_id r)\<rparr>"

definition syscall_end :: "syscall_row \<Rightarrow> endpoint" where
  "syscall_end r = \<lparr>e_time = sc_return_time r, e_name = syscall_kernel_name r, e_call_id = Some (sc_call_id r)\<rparr>"

definition range_starts :: "int \<Rightarrow> int \<Rightarrow> switch_row list \<Rightarrow> syscall_row list \<Rightarrow> endpoint list" where
  "range_starts lo hi sws rows = in_view_context_switches lo hi sws @ map syscall_start rows"

definition range_ends :: "int \<Rightarrow> int \<Rightarrow> switch_row list \<Rightarrow> syscall_row list \<Rightarrow> endpoint list" where
  "range_ends lo hi sws rows = in_view_context_switches lo hi sws @ map syscall_end rows"

record on_cpu_row =
  starts_time :: "int option"
  starts_name :: "string option"
  starts_call_id :: "int option"
  ends_time :: "int option"
  ends_name :: "string option"
  ends_call_id :: "int option"

definition on_cpu_of :: "endpoint \<Rightarrow> endpoint \<Rightarrow> on_cpu_row" where
  "on_cpu_of a b = \<lparr>starts_time = e_time a, starts_name = e_name a, starts_call_id = e_call_id a,
     ends_time = e_time b, ends_name = e_name b, ends_call_id = e_call_id b\<rparr>"

definition next_end :: "(int option list \<Rightarrow> nat option) \<Rightarrow> endpoint list \<Rightarrow> endpoint \<Rightarrow> endpoint option" where
  "next_end pick ends a = asof_least pick (\<lambda>b. sql_less (e_time a) (e_time b)) (\<lambda>b. the (e_time b)) ends"

definition on_cpu_syscalls ::
  "(int option list \<Rightarrow> nat option) \<Rightarrow> int \<Rightarrow> int \<Rightarrow> switch_row list \<Rightarrow> syscall_row list \<Rightarrow> on_cpu_row list" where
  "on_cpu_syscalls pick lo hi sws rows =
     concat (map (\<lambda>a. case next_end pick (range_ends lo hi sws rows) a of
         None \<Rightarrow> [] | Some b \<Rightarrow> [on_cpu_of a b])
       (range_starts lo hi sws rows))"

definition inconsistent :: "int \<Rightarrow> int \<Rightarrow> on_cpu_row \<Rightarrow> bool" where
  "inconsistent lo hi r \<longleftrightarrow>
     (sql_between (starts_time r) lo hi \<or> sql_between (ends_time r) lo hi)
     \<and> (case (starts_call_id r, ends_call_id r) of
          (None, None) \<Rightarrow> True
        | (Some a, Some b) \<Rightarrow> a \<noteq> b
        | _ \<Rightarrow> False)"

section \<open>Trace overflows\<close>

record error_row =
  ae_time :: "int option"
  ae_msg :: "string option"

record error_range =
  er_time :: "int option"
  er_start_time :: "int option"
  er_start_cum_cyc :: "int option"
  er_end_time :: "int option"
  er_end_cum_cyc :: "int option"
  er_cyc_count :: "int option"
  er_duration_ns :: "int option"

definition error_range_of :: "error_row \<Rightarrow> trange option \<Rightarrow> error_range" where
  "error_range_of a tr =
     \<lparr>er_time = ae_time a, er_start_time = Option.bind tr start_time,
      er_start_cum_cyc = Option.bind tr start_cum_cyc, er_end_time = map_option end_time tr,
      er_end_cum_cyc = map_option end_cum_cyc tr, er_cyc_count = map_option cyc_count tr,
      er_duration_ns = Option.bind tr (\<lambda>r. map_option (\<lambda>s. end_time r - s) (start_time r))\<rparr>"

definition errors_and_ranges ::
  "(int option list \<Rightarrow> nat option) \<Rightarrow> error_row list \<Rightarrow> trange list \<Rightarrow> error_range list" where
  "errors_and_ranges pick errors ranges =
     nulls_last er_end_cum_cyc
       (map (\<lambda>a. error_range_of a
           (asof_least pick (\<lambda>r. sql_less (ae_time a) (Some (end_time r))) end_time ranges))
         (filter (\<lambda>a. ae_msg a = Some ''Overflow packet'') errors))"

section \<open>events_prep\<close>

text \<open>
  What \<open>events_prep\<close> writes: three tables, the flag \<open>have_errors_table\<close>, and a temporary table that
  is created without OR REPLACE. The tables exist also after the assertion has failed.
\<close>

record event_tables =
  full_syscalls_table :: "syscall_row list option"
  context_switches_table :: "switch_row list option"
  on_cpu_table :: "on_cpu_row list option"
  have_errors_table :: "bool option"
  errors_temp :: "error_range list option"

text \<open>The outer \<open>None\<close> is a query that does not return; the error is \<open>None\<close> when the method returns.\<close>

definition events_prep ::
  "(int option list \<Rightarrow> nat option) \<Rightarrow> int \<Rightarrow> int \<Rightarrow> trace_tables \<Rightarrow> error_row list option \<Rightarrow> trange list
     \<Rightarrow> event_tables \<Rightarrow> (py_error option \<times> event_tables) option" where
  "events_prep pick lo hi T errors ranges db =
     map_option (\<lambda>rows.
       let sws = event_switches pick T;
           cpu = on_cpu_syscalls pick lo hi sws rows;
           db = db\<lparr>full_syscalls_table := Some rows, context_switches_table := Some sws, on_cpu_table := Some cpu\<rparr>
       in if list_ex (inconsistent lo hi) cpu then (Some AssertionError, db)
          else (let db = db\<lparr>have_errors_table := Some (errors \<noteq> None)\<rparr> in
            case errors of
              None \<Rightarrow> (None, db)
            | Some es \<Rightarrow>
                if errors_temp db \<noteq> None then (Some (CatalogError ''errors_and_ranges''), db)
                else (None, db\<lparr>errors_temp := Some (errors_and_ranges pick es ranges)\<rparr>)))
       (full_syscalls lo hi T)"

end
