(* ===== verification/Event_Props.thy ===== *)
theory Event_Props
  imports Events
begin

text \<open>
  What \<open>events_prep\<close> establishes when its assertion holds, and when the assertion fails: the ends of
  system calls and the context switches separate the on-CPU stretches, for any choice among equal
  rows the ASOF join makes.
\<close>

section \<open>Lemmas\<close>

lemma sql_less_iff: "sql_less x y \<longleftrightarrow> (\<exists>a b. x = Some a \<and> y = Some b \<and> a < b)"
  by (auto simp: sql_less_def split: option.splits)

lemma range_startsE:
  assumes "p \<in> set (range_starts lo hi sws rows)"
  obtains "e_call_id p = None" "sql_between (e_time p) lo hi"
    | r where "r \<in> set rows" "p = syscall_start r"
  using assms by (auto simp: range_starts_def in_view_context_switches_def)

lemma range_endsE:
  assumes "p \<in> set (range_ends lo hi sws rows)"
  obtains "p \<in> set (in_view_context_switches lo hi sws)" "e_call_id p = None" "sql_between (e_time p) lo hi"
    | r where "r \<in> set rows" "p = syscall_end r"
  using assms by (auto simp: range_ends_def in_view_context_switches_def)

context asof_engine begin

lemma next_end_SomeD:
  assumes "next_end pick ends a = Some b"
  shows "b \<in> set ends" "\<exists>x y. e_time a = Some x \<and> e_time b = Some y \<and> x < y
    \<and> (\<forall>p\<in>set ends. \<forall>z. e_time p = Some z \<and> x < z \<longrightarrow> y \<le> z)"
proof -
  note * = asof_SomeD [OF assms [unfolded next_end_def]]
  show "b \<in> set ends" by (rule *(1))
  show "\<exists>x y. e_time a = Some x \<and> e_time b = Some y \<and> x < y
    \<and> (\<forall>p\<in>set ends. \<forall>z. e_time p = Some z \<and> x < z \<longrightarrow> y \<le> z)"
    using *(2) *(3) by (fastforce simp: sql_less_iff)
qed

lemma next_end_exists:
  assumes "p \<in> set ends" "e_time a = Some x" "e_time p = Some z" "x < z"
  obtains b y where "next_end pick ends a = Some b" "b \<in> set ends" "e_time b = Some y" "x < y" "y \<le> z"
proof -
  obtain b where b: "next_end pick ends a = Some b"
    using asof_exists [OF assms(1)] assms(2-4) unfolding next_end_def by (metis sql_less_iff)
  from next_end_SomeD [OF this] show thesis using that [OF b] assms by auto
qed

lemma on_cpu_iff:
  "r \<in> set (on_cpu_syscalls pick lo hi sws rows) \<longleftrightarrow>
     (\<exists>a\<in>set (range_starts lo hi sws rows). \<exists>b. next_end pick (range_ends lo hi sws rows) a = Some b \<and> r = on_cpu_of a b)"
  unfolding on_cpu_syscalls_def by (auto split: option.splits) (metis, metis)

text \<open>With the assertion, the end nearest to a system call's start is its own or a switch.\<close>

lemma no_overlap:
  assumes ok: "\<not> list_ex (inconsistent lo hi) (on_cpu_syscalls pick lo hi sws rows)"
    and ids: "distinct (map sc_call_id rows)"
    and a: "a \<in> set rows" "sc_call_time a = Some ta" "lo \<le> ta" "ta \<le> hi"
    and b: "b \<in> set rows" "sc_return_time b = Some tb" "ta < tb"
  shows "(\<exists>t. sc_return_time a = Some t \<and> ta < t \<and> t \<le> tb)
    \<or> (\<exists>w\<in>set sws. \<exists>q t. smio w = Some q \<and> k_call_time q = Some t \<and> ta < t \<and> t \<le> tb)"
proof -
  let ?ends = "range_ends lo hi sws rows"
  have "syscall_end b \<in> set ?ends" using b by (simp add: range_ends_def)
  then obtain e y where e: "next_end pick ?ends (syscall_start a) = Some e" "e \<in> set ?ends"
      "e_time e = Some y" "ta < y" "y \<le> tb"
    by (rule next_end_exists [where a = "syscall_start a" and x = ta and z = tb])
      (use a b in \<open>simp_all add: syscall_start_def syscall_end_def\<close>)
  have "on_cpu_of (syscall_start a) e \<in> set (on_cpu_syscalls pick lo hi sws rows)"
    unfolding on_cpu_iff using a(1) e(1) by (auto simp: range_starts_def)
  with ok have "\<not> inconsistent lo hi (on_cpu_of (syscall_start a) e)" by (auto simp: list_ex_iff)
  then have id: "e_call_id e = None \<or> e_call_id e = Some (sc_call_id a)"
    using a by (auto simp: inconsistent_def on_cpu_of_def syscall_start_def split: option.splits)
  from e(2) show ?thesis
  proof (cases rule: range_endsE)
    case 1
    then obtain w q where "w \<in> set sws" "smio w = Some q" "k_call_time q = Some y"
      using e(3) by (auto simp: in_view_context_switches_def bind_eq_Some_conv)
    with e show ?thesis by blast
  next
    case (2 r)
    with id have "sc_call_id r = sc_call_id a" by (simp add: syscall_end_def)
    with ids 2(1) a(1) have "r = a" by (auto simp: distinct_map dest: inj_onD)
    with 2 e show ?thesis by (auto simp: syscall_end_def)
  qed
qed

end

section \<open>Marks on the time line\<close>

text \<open>
  What the assertion is about, without the joins: the instants at which something starts or ends,
  each with the system call it belongs to, if any. A context switch in view is both.
\<close>

definition switch_marks :: "int \<Rightarrow> int \<Rightarrow> switch_row list \<Rightarrow> (int \<times> int option) set" where
  "switch_marks lo hi sws =
     {(t, None) | t. lo \<le> t \<and> t \<le> hi \<and> (\<exists>w\<in>set sws. \<exists>q. smio w = Some q \<and> k_call_time q = Some t)}"

definition call_marks :: "(syscall_row \<Rightarrow> int option) \<Rightarrow> syscall_row list \<Rightarrow> (int \<times> int option) set" where
  "call_marks f rows = {(t, Some (sc_call_id r)) | t r. r \<in> set rows \<and> f r = Some t}"

definition start_marks :: "int \<Rightarrow> int \<Rightarrow> switch_row list \<Rightarrow> syscall_row list \<Rightarrow> (int \<times> int option) set" where
  "start_marks lo hi sws rows = switch_marks lo hi sws \<union> call_marks sc_call_time rows"

definition end_marks :: "int \<Rightarrow> int \<Rightarrow> switch_row list \<Rightarrow> syscall_row list \<Rightarrow> (int \<times> int option) set" where
  "end_marks lo hi sws rows = switch_marks lo hi sws \<union> call_marks sc_return_time rows"

definition next_marks :: "(int \<times> int option) set \<Rightarrow> int \<Rightarrow> (int \<times> int option) set" where
  "next_marks ends t = {n \<in> ends. t < fst n \<and> (\<forall>m\<in>ends. t < fst m \<longrightarrow> fst n \<le> fst m)}"

definition conflicting :: "int \<Rightarrow> int \<Rightarrow> int \<times> int option \<Rightarrow> int \<times> int option \<Rightarrow> bool" where
  "conflicting lo hi s n \<longleftrightarrow> (fst s \<in> {lo..hi} \<or> fst n \<in> {lo..hi})
     \<and> (snd s = None \<and> snd n = None \<or> (\<exists>i j. snd s = Some i \<and> snd n = Some j \<and> i \<noteq> j))"

lemma switch_marks_iff:
  "(t, i) \<in> switch_marks lo hi sws \<longleftrightarrow> (\<exists>p\<in>set (in_view_context_switches lo hi sws). e_time p = Some t \<and> e_call_id p = i)"
  by (auto simp: switch_marks_def in_view_context_switches_def sql_between_def bind_eq_Some_conv split: option.splits) force+

lemma start_marks_iff:
  "(t, i) \<in> start_marks lo hi sws rows \<longleftrightarrow> (\<exists>p\<in>set (range_starts lo hi sws rows). e_time p = Some t \<and> e_call_id p = i)"
  by (simp add: start_marks_def switch_marks_iff call_marks_def range_starts_def syscall_start_def bex_Un image_iff) blast

lemma end_marks_iff:
  "(t, i) \<in> end_marks lo hi sws rows \<longleftrightarrow> (\<exists>p\<in>set (range_ends lo hi sws rows). e_time p = Some t \<and> e_call_id p = i)"
  by (simp add: end_marks_def switch_marks_iff call_marks_def range_ends_def syscall_end_def bex_Un image_iff) blast

lemma inconsistent_conflicting:
  assumes "e_time a = Some x" "e_time b = Some y"
  shows "inconsistent lo hi (on_cpu_of a b) \<longleftrightarrow> conflicting lo hi (x, e_call_id a) (y, e_call_id b)"
  by (auto simp: inconsistent_def on_cpu_of_def conflicting_def assms sql_between_def split: option.splits)

context asof_engine begin

text \<open>The join takes one of the nearest later ends.\<close>

lemma next_end_mark:
  assumes "next_end pick (range_ends lo hi sws rows) a = Some b"
  obtains x y where "e_time a = Some x" "e_time b = Some y"
    "(y, e_call_id b) \<in> next_marks (end_marks lo hi sws rows) x"
proof -
  obtain x y where xy: "e_time a = Some x" "e_time b = Some y" "x < y"
      "\<forall>p\<in>set (range_ends lo hi sws rows). \<forall>z. e_time p = Some z \<and> x < z \<longrightarrow> y \<le> z"
    using next_end_SomeD(2) [OF assms] by blast
  have "(y, e_call_id b) \<in> end_marks lo hi sws rows"
    using next_end_SomeD(1) [OF assms] xy(2) by (auto simp: end_marks_iff)
  moreover have "\<forall>m\<in>end_marks lo hi sws rows. x < fst m \<longrightarrow> y \<le> fst m"
    using xy(4) by (auto simp: end_marks_iff)
  ultimately show thesis using that [OF xy(1,2)] xy(3) by (simp add: next_marks_def)
qed

lemma inconsistent_needs_conflict:
  assumes "\<exists>r\<in>set (on_cpu_syscalls pick lo hi sws rows). inconsistent lo hi r"
  shows "\<exists>s\<in>start_marks lo hi sws rows. \<exists>n\<in>next_marks (end_marks lo hi sws rows) (fst s). conflicting lo hi s n"
proof -
  obtain a b where ab: "a \<in> set (range_starts lo hi sws rows)" "next_end pick (range_ends lo hi sws rows) a = Some b"
      "inconsistent lo hi (on_cpu_of a b)" using assms unfolding Bex_def on_cpu_iff by blast
  obtain x y where xy: "e_time a = Some x" "e_time b = Some y"
      "(y, e_call_id b) \<in> next_marks (end_marks lo hi sws rows) x" by (rule next_end_mark [OF ab(2)])
  have "(x, e_call_id a) \<in> start_marks lo hi sws rows" using ab(1) xy(1) by (auto simp: start_marks_iff)
  then show ?thesis
    using ab(3) xy(3) unfolding inconsistent_conflicting [OF xy(1,2)] by (metis fst_conv)
qed

lemma conflict_is_inconsistent:
  assumes "s \<in> start_marks lo hi sws rows" "next_marks (end_marks lo hi sws rows) (fst s) \<noteq> {}"
    and "\<forall>n\<in>next_marks (end_marks lo hi sws rows) (fst s). conflicting lo hi s n"
  shows "\<exists>r\<in>set (on_cpu_syscalls pick lo hi sws rows). inconsistent lo hi r"
proof -
  obtain a where a: "a \<in> set (range_starts lo hi sws rows)" "e_time a = Some (fst s)" "e_call_id a = snd s"
    using assms(1) by (cases s) (auto simp: start_marks_iff)
  obtain z i where "(z, i) \<in> end_marks lo hi sws rows" "fst s < z" using assms(2) by (auto simp: next_marks_def)
  then obtain p where p: "p \<in> set (range_ends lo hi sws rows)" "e_time p = Some z" "fst s < z"
    by (auto simp: end_marks_iff)
  obtain b where b: "next_end pick (range_ends lo hi sws rows) a = Some b"
    by (rule next_end_exists [OF p(1) a(2) p(2,3)])
  obtain y where y: "e_time b = Some y" "(y, e_call_id b) \<in> next_marks (end_marks lo hi sws rows) (fst s)"
    by (rule next_end_mark [OF b]) (simp add: a(2))
  have "inconsistent lo hi (on_cpu_of a b)"
    using assms(3) y(2) unfolding inconsistent_conflicting [OF a(2) y(1)] a(3) by force
  then show ?thesis using a(1) b unfolding Bex_def on_cpu_iff by blast
qed

end

lemma events_prep_Some:
  "events_prep pick lo hi T errors ranges db = Some (e, db') \<Longrightarrow>
     \<exists>rows. full_syscalls lo hi T = Some rows \<and> full_syscalls_table db' = Some rows
       \<and> context_switches_table db' = Some (event_switches pick T)
       \<and> on_cpu_table db' = Some (on_cpu_syscalls pick lo hi (event_switches pick T) rows)
       \<and> (e = Some AssertionError \<longleftrightarrow>
            list_ex (inconsistent lo hi) (on_cpu_syscalls pick lo hi (event_switches pick T) rows))"
  by (auto simp: events_prep_def Let_def split: if_splits option.splits)

lemma timestamped_ranges_start_time:
  "i < length (timestamped_ranges samples) \<Longrightarrow> start_time (timestamped_ranges samples ! i) =
     (if i = 0 then None else Some (end_time (timestamped_ranges samples ! (i - 1))))"
  by (auto simp: timestamped_ranges_def ranges_t3_def lag1_nth range_of_def)

text \<open>The four ways \<open>events_prep\<close> returns.\<close>

lemma events_prep_returns:
  fixes pick :: "int option list \<Rightarrow> nat option" and db :: event_tables
  assumes "full_syscalls lo hi T = Some rows"
  defines "sws \<equiv> event_switches pick T"
  defines "cpu \<equiv> on_cpu_syscalls pick lo hi sws rows"
  defines "db1 \<equiv> db\<lparr>full_syscalls_table := Some rows, context_switches_table := Some sws, on_cpu_table := Some cpu\<rparr>"
  shows "events_prep pick lo hi T errors ranges db = Some
    (if \<exists>r\<in>set cpu. inconsistent lo hi r then (Some AssertionError, db1)
     else case errors of
         None \<Rightarrow> (None, db1\<lparr>have_errors_table := Some False\<rparr>)
       | Some es \<Rightarrow> if errors_temp db \<noteq> None
           then (Some (CatalogError ''errors_and_ranges''), db1\<lparr>have_errors_table := Some True\<rparr>)
           else (None, db1\<lparr>have_errors_table := Some True, errors_temp := Some (errors_and_ranges pick es ranges)\<rparr>))"
  by (simp add: events_prep_def assms Let_def list_ex_iff split: option.split)

section \<open>Properties\<close>

definition demo_db :: event_tables where
  "demo_db = \<lparr>full_syscalls_table = None, context_switches_table = None, on_cpu_table = None,
     have_errors_table = None, errors_temp = None\<rparr>"

lemma demo_no_switches: "event_switches pick_first demo_tables = []"
  by code_simp

lemma demo_consistent:
  "list_all (\<lambda>r. \<not> inconsistent 0 100 r) (on_cpu_syscalls pick_first 0 100 []
     [\<lparr>sc_call_time = Some 5, sc_return_time = Some 95, syscall_kernel_name = Some ''__x64_sys_read'', sc_call_id = 3\<rparr>])"
  by code_simp

lemma demo_events: "\<exists>db'. events_prep pick_first 0 100 demo_tables (Some []) [] demo_db = Some (None, db')"
  using demo_consistent
  by (simp add: events_prep_returns [OF demo_syscalls_100] demo_no_switches list_all_iff demo_db_def)

text \<open>C9: \<open>events_prep\<close> on a database whose call hierarchy returns, whatever row its ASOF joins take
  among equals: the assertion fails when some start (of a system call, or a context switch in view)
  is followed by ends that all conflict with it, and it fails only if the nearest later ends of some
  start include a conflicting one. A conflict is two switches with no end of a system call in
  between, or the start of one call followed by the end of another, one of the two instants being
  in the plotted stretch. (If no two ends coincide, the two conditions are the same.) Otherwise the
  method fails exactly when it would create its temporary table a second time. The system calls are
  stored in every case, the overflows when the method succeeds.\<close>

theorem events_prep_outcome:
  assumes "asof_engine pick" and "full_syscalls lo hi T = Some rows"
  defines "starts \<equiv> start_marks lo hi (event_switches pick T) rows"
    and "ends \<equiv> end_marks lo hi (event_switches pick T) rows"
  shows "\<exists>e db'. events_prep pick lo hi T errors ranges db = Some (e, db')
    \<and> ((\<exists>s\<in>starts. next_marks ends (fst s) \<noteq> {} \<and> (\<forall>n\<in>next_marks ends (fst s). conflicting lo hi s n))
         \<longrightarrow> e = Some AssertionError)
    \<and> (e = Some AssertionError \<longrightarrow> (\<exists>s\<in>starts. \<exists>n\<in>next_marks ends (fst s). conflicting lo hi s n))
    \<and> (e = Some AssertionError
         \<or> e = (if errors \<noteq> None \<and> errors_temp db \<noteq> None then Some (CatalogError ''errors_and_ranges'') else None))
    \<and> full_syscalls_table db' = Some rows
    \<and> (e = None \<longrightarrow> have_errors_table db' = Some (errors \<noteq> None)
         \<and> (\<forall>es. errors = Some es \<longrightarrow> errors_temp db' = Some (errors_and_ranges pick es ranges)))"
proof -
  define cpu where "cpu = on_cpu_syscalls pick lo hi (event_switches pick T) rows"
  let ?bad = "\<exists>r\<in>set cpu. inconsistent lo hi r"
  note r = events_prep_returns [OF assms(2), where pick = pick and errors = errors and ranges = ranges and db = db,
      folded cpu_def]
  have needs: "?bad \<Longrightarrow> \<exists>s\<in>starts. \<exists>n\<in>next_marks ends (fst s). conflicting lo hi s n"
    unfolding cpu_def starts_def ends_def by (rule asof_engine.inconsistent_needs_conflict [OF assms(1)])
  have fails: "\<exists>s\<in>starts. next_marks ends (fst s) \<noteq> {} \<and> (\<forall>n\<in>next_marks ends (fst s). conflicting lo hi s n) \<Longrightarrow> ?bad"
    unfolding cpu_def starts_def ends_def by (elim bexE conjE) (rule asof_engine.conflict_is_inconsistent [OF assms(1)])
  show ?thesis
  proof (cases ?bad)
    case True
    then show ?thesis using needs r by simp
  next
    case False
    then show ?thesis using fails r by (cases errors; cases "errors_temp db") auto
  qed
qed

theorem events_prep_outcome_witness:
  "(\<exists>db'. events_prep pick_first 0 100 demo_tables (Some []) [] demo_db = Some (None, db')
       \<and> errors_temp db' = Some (errors_and_ranges pick_first [] []))
   \<and> (\<exists>rows. full_syscalls 0 100 demo_tables = Some rows)"
proof -
  obtain rows where rows: "full_syscalls 0 100 demo_tables = Some rows" using demo_syscalls_100 by blast
  from events_prep_outcome [OF first_engine.asof_engine_axioms rows, of "Some []" "[]" demo_db] demo_events rows
  show ?thesis by auto
qed

text \<open>Running \<open>events_prep\<close> twice on a database with trace errors fails: the temporary table of the
  first run is still there.\<close>

theorem events_prep_not_repeatable:
  assumes "events_prep pick lo hi T (Some es) ranges db = Some (None, db')"
  shows "\<exists>db''. events_prep pick lo hi T (Some es) ranges db' = Some (Some (CatalogError ''errors_and_ranges''), db'')"
  using assms by (auto simp: events_prep_def Let_def split: if_splits)

theorem events_prep_not_repeatable_witness:
  "\<exists>db' db''. events_prep pick_first 0 100 demo_tables (Some []) [] db' = Some (Some (CatalogError ''errors_and_ranges''), db'')"
proof -
  obtain db' where "events_prep pick_first 0 100 demo_tables (Some []) [] demo_db = Some (None, db')"
    using demo_events by blast
  from events_prep_not_repeatable [OF this] show ?thesis by blast
qed

text \<open>C6: When \<open>events_prep\<close> succeeds, system calls in the plotted stretch do not overlap: between the
  start of one and the end of another one lies its own end or a context switch, whatever row the
  ASOF join takes among equals.\<close>

theorem on_cpu_no_overlap:
  assumes "asof_engine pick" and "keys_unique T"
    and "events_prep pick lo hi T errors ranges db = Some (None, db')"
    and "full_syscalls_table db' = Some rows" and "context_switches_table db' = Some sws"
    and "a \<in> set rows" and "sc_call_time a = Some ta" and "lo \<le> ta" and "ta \<le> hi"
    and "b \<in> set rows" and "sc_return_time b = Some tb" and "ta < tb"
  shows "(\<exists>t. sc_return_time a = Some t \<and> ta < t \<and> t \<le> tb)
    \<or> (\<exists>w\<in>set sws. \<exists>q t. smio w = Some q \<and> k_call_time q = Some t \<and> ta < t \<and> t \<le> tb)"
proof -
  from events_prep_Some [OF assms(3)] assms(4,5)
  have *: "full_syscalls lo hi T = Some rows" "sws = event_switches pick T"
    "\<not> list_ex (inconsistent lo hi) (on_cpu_syscalls pick lo hi sws rows)" by auto
  have "distinct (map sc_call_id rows)" by (rule full_syscalls_rows(2) [OF assms(2) *(1)])
  then show ?thesis by (rule asof_engine.no_overlap [OF assms(1) *(3) _ assms(6-12)])
qed

lemma demo_two_consistent:
  "list_all (\<lambda>r. \<not> inconsistent 0 200 r) (on_cpu_syscalls pick_first 0 200 [] (the (full_syscalls 0 200 demo_two)))"
  unfolding demo_two_syscalls by code_simp

lemma demo_two_no_switches: "event_switches pick_first demo_two = []"
  by code_simp

theorem on_cpu_no_overlap_witness:
  "\<exists>t. sc_return_time (the (full_syscalls 0 200 demo_two) ! 0) = Some t \<and> 5 < t \<and> t \<le> 195"
proof -
  obtain db' where db': "events_prep pick_first 0 200 demo_two (Some []) [] demo_db = Some (None, db')"
    using demo_two_consistent
    by (simp add: events_prep_returns [OF demo_two_syscalls] demo_two_no_switches demo_two_syscalls list_all_iff demo_db_def)
  from events_prep_Some [OF this] have tables: "full_syscalls_table db' = full_syscalls 0 200 demo_two"
      "context_switches_table db' = Some []" by (auto simp: demo_two_no_switches)
  show ?thesis
    using on_cpu_no_overlap [OF first_engine.asof_engine_axioms demo_two_keys db' tables(1) [unfolded demo_two_syscalls] tables(2),
        of "the (full_syscalls 0 200 demo_two) ! 0" 5 "the (full_syscalls 0 200 demo_two) ! 1" 195]
    by (simp add: demo_two_syscalls)
qed

text \<open>C36: A plotted stretch that cuts a system call off after its first part is rejected, under these
  conditions: the function \<open>f\<close> and the three frames of the entry path that called it are in view, the
  entry stub starts in the stretch, \<open>f\<close> has a callee \<open>g\<close> outside the view, the frame below the
  stub returns before the stub, and no context switch lies between the start of the stub and that
  return. Then the spurious row of \<open>g\<close> ends before the row of \<open>f\<close>, and \<open>events_prep\<close> raises an
  AssertionError.\<close>

theorem cut_syscall_rejected:
  assumes "asof_engine pick" and "keys_unique T" and "acyclic (caller (t_calls T))" and "g \<in> set (t_calls T)"
    and "caller_of (t_calls T) g = Some f" and "call_stack (t_calls T) f = f # a # b # n # fs"
    and "map (frame_symbol T) [a, b, n] = entry_symbols"
    and "in_view lo hi f" and "in_view lo hi a" and "in_view lo hi b" and "in_view lo hi n" and "\<not> in_view lo hi g"
    and "call_time n = Some tn" and "lo \<le> tn" and "tn \<le> hi"
    and "return_time b = Some rb" and "tn < rb" and "return_time n = Some rn" and "rb < rn"
    and "\<forall>w\<in>set (event_switches pick T). \<forall>q t. smio w = Some q \<and> k_call_time q = Some t \<longrightarrow> t \<le> tn \<or> rb < t"
  shows "\<exists>db'. events_prep pick lo hi T errors ranges db = Some (Some AssertionError, db')"
proof -
  obtain rows where rows: "full_syscalls lo hi T = Some rows"
    using assms(3) by (auto simp: full_syscalls_def hierarchy_returns_iff [symmetric])
  let ?a = "\<lparr>sc_call_time = call_time n, sc_return_time = return_time n,
    syscall_kernel_name = frame_symbol T f, sc_call_id = cid f\<rparr>"
  let ?b = "\<lparr>sc_call_time = call_time b, sc_return_time = return_time b,
    syscall_kernel_name = frame_symbol T f, sc_call_id = cid g\<rparr>"
  have dist: "distinct (map cid (t_calls T))" using assms(2) by (simp add: keys_unique_def)
  then have f: "f \<in> set (t_calls T)" using caller_of_Some [OF dist assms(4), of f] assms(5) by (simp add: caller_def)
  have b: "?b \<in> set rows" by (rule spurious_row [OF assms(2) rows assms(4-12)])
  have a: "?a \<in> set rows"
    using syscall_row_of_call [OF assms(2) rows f] looks_like_four [OF assms(6,9-11,8)] assms(7) by metis
  have "list_ex (inconsistent lo hi) (on_cpu_syscalls pick lo hi (event_switches pick T) rows)"
  proof (rule ccontr)
    assume ok: "\<not> ?thesis"
    have "(\<exists>t. sc_return_time ?a = Some t \<and> tn < t \<and> t \<le> rb)
        \<or> (\<exists>w\<in>set (event_switches pick T). \<exists>q t. smio w = Some q \<and> k_call_time q = Some t \<and> tn < t \<and> t \<le> rb)"
      by (rule asof_engine.no_overlap [OF assms(1) ok full_syscalls_rows(2) [OF assms(2) rows] a _ assms(14,15) b _ assms(17)])
        (simp_all add: assms(13,16))
    then show False using assms(18-20) by auto
  qed
  then show ?thesis by (simp add: events_prep_def rows Let_def)
qed

theorem cut_syscall_rejected_witness:
  "\<exists>db'. events_prep pick_first 0 50 demo_tables None [] demo_db = Some (Some AssertionError, db')"
proof -
  let ?call = "\<lambda>i p s t. \<lparr>cid = i, parent_id = Some p, call_path_id = Some i, call_time = Some s, return_time = Some t\<rparr>"
  have "\<exists>hs. call_hierarchy (t_calls demo_tables) = Some hs"
    using demo_full_syscalls by (auto simp: full_syscalls_def)
  then have "acyclic (caller (t_calls demo_tables))" unfolding hierarchy_returns_iff .
  moreover have "?call 6 3 60 70 \<in> set (t_calls demo_tables)"
    by (simp add: demo_tables_def demo_calls_def)
  moreover have "caller_of (t_calls demo_tables) (?call 6 3 60 70) = Some demo_call" by code_simp
  moreover have "call_stack (t_calls demo_tables) demo_call
      = demo_call # ?call 2 1 15 85 # ?call 1 4 10 90 # ?call 4 0 5 95 # [?call 0 0 0 0]" by code_simp
  moreover have "map (frame_symbol demo_tables) [?call 2 1 15 85, ?call 1 4 10 90, ?call 4 0 5 95] = entry_symbols"
    by code_simp
  ultimately show ?thesis
    by (rule cut_syscall_rejected [OF first_engine.asof_engine_axioms demo_keys, where tn = 5 and rb = 90 and rn = 95])
      (simp_all add: in_view_def demo_call_def demo_no_switches)
qed

text \<open>The ranges an instant lies in.\<close>

definition covering :: "int option \<Rightarrow> trange list \<Rightarrow> trange list" where
  "covering time ranges = (case time of None \<Rightarrow> []
    | Some t \<Rightarrow> filter (\<lambda>r. t < end_time r \<and> (case start_time r of None \<Rightarrow> True | Some s \<Rightarrow> s \<le> t)) ranges)"

lemma covering_unique:
  assumes "sorted_wrt (\<lambda>a b. end_time a < end_time b) (timestamped_ranges samples)"
    and "p \<in> set (covering time (timestamped_ranges samples))" "q \<in> set (covering time (timestamped_ranges samples))"
  shows "p = q"
proof -
  let ?rs = "timestamped_ranges samples"
  obtain t where t: "time = Some t" using assms(2) by (auto simp: covering_def split: option.splits)
  have le: "\<not> i < j" if "i < length ?rs" "j < length ?rs" "?rs ! i \<in> set (covering time ?rs)" "?rs ! j \<in> set (covering time ?rs)" for i j
  proof
    assume "i < j"
    then obtain k where k: "j = Suc k" "i \<le> k" by (cases j) auto
    then have "start_time (?rs ! j) = Some (end_time (?rs ! k))"
      using timestamped_ranges_start_time [of j samples] that(2) by simp
    moreover have "end_time (?rs ! i) \<le> end_time (?rs ! k)"
      using sorted_wrt_nth_less [OF assms(1), of i k] k that(2) by (cases "i = k") auto
    ultimately show False using that(3,4) by (auto simp: covering_def t)
  qed
  have "p \<in> set ?rs" "q \<in> set ?rs" using assms(2,3) by (auto simp: covering_def t)
  then obtain i j where "i < length ?rs" "p = ?rs ! i" "j < length ?rs" "q = ?rs ! j" by (metis in_set_conv_nth)
  then show ?thesis using le [of i j] le [of j i] assms(2,3) by (cases i j rule: linorder_cases) simp_all
qed

lemma asof_covering:
  assumes "asof_engine pick" "sorted_wrt (\<lambda>a b. end_time a < end_time b) (timestamped_ranges samples)"
  shows "asof_least pick (\<lambda>r. sql_less time (Some (end_time r))) end_time (timestamped_ranges samples)
    = (case covering time (timestamped_ranges samples) of [] \<Rightarrow> None | r # _ \<Rightarrow> Some r)"
proof (cases "asof_least pick (\<lambda>r. sql_less time (Some (end_time r))) end_time (timestamped_ranges samples)")
  case None
  then have "covering time (timestamped_ranges samples) = []"
    unfolding asof_engine.asof_None_iff [OF assms(1)]
    by (auto simp: covering_def sql_less_def filter_empty_conv split: option.splits)
  with None show ?thesis by simp
next
  case (Some r)
  let ?rs = "timestamped_ranges samples"
  note r = asof_engine.asof_SomeD [OF assms(1) Some]
  obtain t where t: "time = Some t" "t < end_time r" using r(2) by (auto simp: sql_less_def split: option.splits)
  obtain i where i: "i < length ?rs" "r = ?rs ! i" using r(1) by (auto simp: in_set_conv_nth)
  have "s \<le> t" if st: "start_time r = Some s" for s
  proof (cases i)
    case 0
    then show ?thesis using st i timestamped_ranges_start_time [of 0 samples] by simp
  next
    case (Suc j)
    then have "s = end_time (?rs ! j)" using st i timestamped_ranges_start_time [of i samples] by simp
    moreover have "end_time (?rs ! j) < end_time r"
      using sorted_wrt_nth_less [OF assms(2), of j i] i Suc by simp
    ultimately show ?thesis using r(3) [of "?rs ! j"] i Suc t by (force simp: sql_less_def)
  qed
  then have "r \<in> set (covering time ?rs)" using t r(1) by (auto simp: covering_def split: option.split)
  then obtain r' l where l: "covering time ?rs = r' # l" by (cases "covering time ?rs") auto
  have "r' = r" by (rule covering_unique [OF assms(2), where time = time]) (use l \<open>r \<in> set (covering time ?rs)\<close> in simp_all)
  then show ?thesis using l Some by simp
qed

text \<open>C34: When the times of the ranges strictly increase, the overflow table has one row for every
  \<open>Overflow packet\<close> error and no other, with the range it happened in: the only one that ends after
  it and does not start after it. An overflow that no range covers, one at or after the end of
  the trace, keeps its row, without a range.\<close>

theorem overflow_in_range:
  assumes "asof_engine pick" and "sorted_wrt (\<lambda>a b. end_time a < end_time b) (timestamped_ranges samples)"
  defines "rs \<equiv> timestamped_ranges samples"
  shows "image_mset (\<lambda>x. (er_time x, er_start_time x, er_end_time x, er_duration_ns x, er_start_cum_cyc x, er_end_cum_cyc x, er_cyc_count x)) (mset (errors_and_ranges pick errors rs))
      = image_mset (\<lambda>a. case covering (ae_time a) rs of
            [] \<Rightarrow> (ae_time a, None, None, None, None, None, None)
          | r # _ \<Rightarrow> (ae_time a, start_time r, Some (end_time r), map_option (\<lambda>s. end_time r - s) (start_time r),
              start_cum_cyc r, Some (end_cum_cyc r), Some (cyc_count r)))
        (filter_mset (\<lambda>a. ae_msg a = Some ''Overflow packet'') (mset errors))
    \<and> (\<forall>t. length (covering (Some t) rs) \<le> 1)
    \<and> (\<forall>t. covering (Some t) rs = [] \<longleftrightarrow> (\<forall>r\<in>set rs. end_time r \<le> t))"
proof (intro conjI allI)
  let ?row = "\<lambda>a. error_range_of a (case covering (ae_time a) rs of [] \<Rightarrow> None | r # _ \<Rightarrow> Some r)"
  have "mset (errors_and_ranges pick errors rs)
      = image_mset ?row (filter_mset (\<lambda>a. ae_msg a = Some ''Overflow packet'') (mset errors))"
    unfolding errors_and_ranges_def mset_nulls_last rs_def asof_covering [OF assms(1,2)] by (simp add: mset_filter)
  moreover have "(er_time (?row a), er_start_time (?row a), er_end_time (?row a), er_duration_ns (?row a),
        er_start_cum_cyc (?row a), er_end_cum_cyc (?row a), er_cyc_count (?row a))
      = (case covering (ae_time a) rs of [] \<Rightarrow> (ae_time a, None, None, None, None, None, None)
          | r # _ \<Rightarrow> (ae_time a, start_time r, Some (end_time r), map_option (\<lambda>s. end_time r - s) (start_time r),
              start_cum_cyc r, Some (end_cum_cyc r), Some (cyc_count r)))" for a
    by (simp add: error_range_of_def split: list.split)
  ultimately show "image_mset (\<lambda>x. (er_time x, er_start_time x, er_end_time x, er_duration_ns x, er_start_cum_cyc x, er_end_cum_cyc x, er_cyc_count x)) (mset (errors_and_ranges pick errors rs))
      = image_mset (\<lambda>a. case covering (ae_time a) rs of
            [] \<Rightarrow> (ae_time a, None, None, None, None, None, None)
          | r # _ \<Rightarrow> (ae_time a, start_time r, Some (end_time r), map_option (\<lambda>s. end_time r - s) (start_time r),
              start_cum_cyc r, Some (end_cum_cyc r), Some (cyc_count r)))
        (filter_mset (\<lambda>a. ae_msg a = Some ''Overflow packet'') (mset errors))"
    by (simp only: multiset.map_comp comp_def)
next
  fix t
  have "sorted_wrt (\<lambda>a b. end_time a < end_time b) (covering (Some t) rs)"
    using assms(2) by (simp add: covering_def rs_def sorted_wrt_filter)
  then show "length (covering (Some t) rs) \<le> 1"
    using covering_unique [OF assms(2), of _ "Some t", folded rs_def]
    by (cases "covering (Some t) rs" rule: remdups_adj.cases) (simp, simp, metis insert_iff list.set(2) order_less_irrefl sorted_wrt.simps(2))
  have "covering (Some t) rs = [] \<longleftrightarrow> asof_least pick (\<lambda>r. sql_less (Some t) (Some (end_time r))) end_time rs = None"
    by (simp add: asof_covering [OF assms(1,2)] rs_def split: list.split)
  also have "\<dots> \<longleftrightarrow> (\<forall>r\<in>set rs. end_time r \<le> t)"
    unfolding asof_engine.asof_None_iff [OF assms(1)] by (auto simp: sql_less_def)
  finally show "covering (Some t) rs = [] \<longleftrightarrow> (\<forall>r\<in>set rs. end_time r \<le> t)" .
qed

definition demo_error_samples :: "view_row list" where
  "demo_error_samples = map (\<lambda>(i, t). \<lparr>vid = i, vtime = t, v_insn_count = 1, v_cyc_count = 5, v_event = None,
     v_symbol = None, v_to_symbol = None, v_branch_type_name = None\<rparr>) [(1, 10), (2, 20)]"

lemma demo_error_ranges:
  "map (\<lambda>r. (start_time r, end_time r, start_cum_cyc r, end_cum_cyc r, cyc_count r)) (timestamped_ranges demo_error_samples)
     = [(None, 10, None, 5, 5), (Some 10, 20, Some 5, 10, 5)]"
  by (simp add: timestamped_ranges_def ranges_t1_def ranges_t2_def ranges_t3_def demo_error_samples_def
      sql_min_def cum_of_def view_row.extend_def lag1_def range_of_def numeral_eq_Suc range_sum_def)

theorem overflow_in_range_witness:
  "image_mset (\<lambda>x. (er_time x, er_start_time x, er_end_time x, er_duration_ns x, er_start_cum_cyc x, er_end_cum_cyc x, er_cyc_count x))
     (mset (errors_and_ranges pick_first
       [\<lparr>ae_time = Some 15, ae_msg = Some ''Overflow packet''\<rparr>, \<lparr>ae_time = Some 30, ae_msg = Some ''Overflow packet''\<rparr>,
        \<lparr>ae_time = Some 15, ae_msg = Some ''Lost trace data''\<rparr>] (timestamped_ranges demo_error_samples)))
   = {#(Some 15, Some 10, Some 20, Some 10, Some 5, Some 10, Some 5), (Some 30, None, None, None, None, None, None)#}"
proof -
  let ?rs = "timestamped_ranges demo_error_samples"
  obtain p q where rs: "?rs = [p, q]" "start_time p = None" "end_time p = 10" "start_time q = Some 10" "end_time q = 20"
      "start_cum_cyc q = Some 5" "end_cum_cyc q = 10" "cyc_count q = 5"
    using demo_error_ranges by (auto simp: map_eq_Cons_conv)
  then have inc: "sorted_wrt (\<lambda>a b. end_time a < end_time b) ?rs" by simp
  show ?thesis
    using overflow_in_range [OF first_engine.asof_engine_axioms inc] by (simp add: rs covering_def)
qed

end
