(* ===== verification/Cycle_Density.thy ===== *)
theory Cycle_Density
  imports Ranges Complex_Main
begin

text \<open>
  The abstract meaning of a table of ranges: a range of \<open>c\<close> cycles and \<open>i\<close> instructions says
  that \<open>i / c\<close> instructions retired in each of its cycles (the trace holds no finer
  information). \<open>cycle_ipc\<close> is that density on the cycle axis and \<open>avg_ipc\<close> its mean over a
  window: the specification the sliding-window queries are measured against.
\<close>

definition cycle_ipc :: "trange list \<Rightarrow> int \<Rightarrow> rat" where
  "cycle_ipc rs k =
     (case find (\<lambda>r. end_cum_cyc r - cyc_count r < k \<and> k \<le> end_cum_cyc r) rs of
        None \<Rightarrow> 0
      | Some r \<Rightarrow> of_int (insn_count r) / of_int (cyc_count r))"

definition window_insns :: "trange list \<Rightarrow> int \<Rightarrow> int \<Rightarrow> rat" where
  "window_insns rs lo hi = (\<Sum>k = lo..hi. cycle_ipc rs k)"

definition avg_ipc :: "trange list \<Rightarrow> int \<Rightarrow> int \<Rightarrow> rat" where
  "avg_ipc rs lo hi = window_insns rs lo hi / of_int (hi - lo + 1)"

lemma cycle_ipc_in_range:
  assumes "ranges_ok c n rs" "r \<in> set rs"
    and "end_cum_cyc r - cyc_count r < k" "k \<le> end_cum_cyc r"
  shows "cycle_ipc rs k = of_int (insn_count r) / of_int (cyc_count r)"
proof -
  obtain s where s: "find (\<lambda>r. end_cum_cyc r - cyc_count r < k \<and> k \<le> end_cum_cyc r) rs = Some s"
    using assms(2-4) by (cases "find (\<lambda>r. end_cum_cyc r - cyc_count r < k \<and> k \<le> end_cum_cyc r) rs")
      (auto simp: find_None_iff)
  then have m: "s \<in> set rs" "end_cum_cyc s - cyc_count s < k" "k \<le> end_cum_cyc s"
    by (auto simp: find_Some_iff)
  have "end_cum_cyc s = end_cum_cyc r"
    using ranges_ok_order [OF assms(1) m(1) assms(2)] ranges_ok_order [OF assms(1,2) m(1)]
      m assms(3,4) by linarith
  then have "s = r" using ranges_ok_end_inj(1) [OF assms(1)] m(1) assms(2) by (auto dest: inj_onD)
  with s show ?thesis by (simp add: cycle_ipc_def)
qed

lemma cycle_ipc_nonneg: "ranges_ok c n rs \<Longrightarrow> 0 \<le> cycle_ipc rs k"
  by (auto simp: cycle_ipc_def find_Some_iff split: option.splits
      dest!: ranges_ok_pos [OF _ nth_mem] intro!: divide_nonneg_pos)

lemma window_insns_nonneg: "ranges_ok c n rs \<Longrightarrow> 0 \<le> window_insns rs lo hi"
  unfolding window_insns_def by (rule sum_nonneg) (rule cycle_ipc_nonneg)

lemma window_insns_split:
  "lo \<le> m + 1 \<Longrightarrow> m \<le> hi \<Longrightarrow>
     window_insns rs lo hi = window_insns rs lo m + window_insns rs (m + 1) hi"
  unfolding window_insns_def
  by (subst sum.union_disjoint [symmetric]) (auto intro!: sum.cong)

lemma window_insns_empty [simp]: "hi < lo \<Longrightarrow> window_insns rs lo hi = 0"
  by (simp add: window_insns_def)

lemma window_insns_inside:
  assumes "ranges_ok c n rs" "r \<in> set rs"
    and "end_cum_cyc r - cyc_count r < lo" "hi \<le> end_cum_cyc r" "lo \<le> hi + 1"
  shows "window_insns rs lo hi = of_int (insn_count r) * (of_int (hi - lo + 1) / of_int (cyc_count r))"
proof -
  have "window_insns rs lo hi = (\<Sum>k = lo..hi. of_int (insn_count r) / of_int (cyc_count r))"
    unfolding window_insns_def
    by (rule sum.cong [OF refl], rule cycle_ipc_in_range [OF assms(1,2)]) (use assms(3,4) in auto)
  also have "\<dots> = of_int (insn_count r) * (of_int (hi - lo + 1) / of_int (cyc_count r))"
    using assms(5) by simp
  finally show ?thesis .
qed

lemma window_insns_whole:
  assumes "ranges_ok c n rs" "r \<in> set rs"
  shows "window_insns rs (end_cum_cyc r - cyc_count r + 1) (end_cum_cyc r) = of_int (insn_count r)"
  using window_insns_inside [OF assms, of "end_cum_cyc r - cyc_count r + 1" "end_cum_cyc r"]
    ranges_ok_pos [OF assms] by simp

text \<open>Between the ends of two ranges lie exactly the instructions of the ranges between them.\<close>

lemma window_insns_nth:
  assumes "ranges_ok c n rs" "i \<le> j" "j < length rs"
  shows "window_insns rs (end_cum_cyc (rs ! i) + 1) (end_cum_cyc (rs ! j))
    = of_int (end_cum_insns (rs ! j) - end_cum_insns (rs ! i))"
  using assms(2,3)
proof (induction j)
  case 0
  then show ?case by simp
next
  case (Suc j)
  show ?case
  proof (cases "i = Suc j")
    case True
    then show ?thesis by simp
  next
    case False
    then have ij: "i \<le> j" "j < length rs" using Suc.prems by simp_all
    note at = ranges_ok_nth [OF assms(1) Suc.prems(2)]
    have le: "end_cum_cyc (rs ! i) \<le> end_cum_cyc (rs ! j)"
      using ranges_ok_strict [OF assms(1), of i j] ij by (cases "i = j") auto
    have "window_insns rs (end_cum_cyc (rs ! i) + 1) (end_cum_cyc (rs ! Suc j))
        = window_insns rs (end_cum_cyc (rs ! i) + 1) (end_cum_cyc (rs ! j))
          + window_insns rs (end_cum_cyc (rs ! j) + 1) (end_cum_cyc (rs ! Suc j))"
      using le at by (intro window_insns_split) auto
    also have "window_insns rs (end_cum_cyc (rs ! j) + 1) (end_cum_cyc (rs ! Suc j))
        = of_int (insn_count (rs ! Suc j))"
      using window_insns_whole [OF assms(1) nth_mem [OF Suc.prems(2)]] at by simp
    finally show ?thesis using Suc.IH [OF ij] at by simp
  qed
qed

lemma window_insns_between:
  assumes "ranges_ok c n rs" "t \<in> set rs" "l \<in> set rs"
    and "end_cum_cyc t \<le> end_cum_cyc l - cyc_count l"
  shows "window_insns rs (end_cum_cyc t + 1) (end_cum_cyc l - cyc_count l)
    = of_int (end_cum_insns l - insn_count l - end_cum_insns t)"
proof -
  have "c < end_cum_cyc l - cyc_count l"
    using ranges_ok_first_cyc [OF assms(1,2)] ranges_ok_pos [OF assms(1,2)] assms(4) by linarith
  then obtain q where q: "q \<in> set rs" "end_cum_cyc q = end_cum_cyc l - cyc_count l"
      "end_cum_insns q = end_cum_insns l - insn_count l"
    by (rule ranges_ok_prev [OF assms(1,3)])
  obtain i j where ij: "i < length rs" "t = rs ! i" "j < length rs" "q = rs ! j"
    using assms(2) q(1) by (auto simp: in_set_conv_nth)
  have "i \<le> j"
  proof (rule ccontr)
    assume "\<not> i \<le> j"
    then have "end_cum_cyc q < end_cum_cyc t"
      using ranges_ok_strict [OF assms(1), of j i] ij by simp
    then show False using q(2) assms(4) by simp
  qed
  then show ?thesis
    using window_insns_nth [OF assms(1) _ ij(3), of i] ij q by simp
qed

section \<open>The instructions of a window, by the ranges at its two edges\<close>

text \<open>
  The window \<open>{lo..hi}\<close> starts inside \<open>t\<close> and ends inside the later range \<open>l\<close>.
\<close>

definition window_in :: "trange list \<Rightarrow> trange \<Rightarrow> trange \<Rightarrow> int \<Rightarrow> int \<Rightarrow> bool" where
  "window_in rs t l lo hi \<longleftrightarrow> t \<in> set rs \<and> l \<in> set rs
     \<and> end_cum_cyc t - cyc_count t < lo \<and> lo \<le> end_cum_cyc t
     \<and> end_cum_cyc t \<le> end_cum_cyc l - cyc_count l
     \<and> end_cum_cyc l - cyc_count l < hi \<and> hi \<le> end_cum_cyc l"

lemma window_insns_edges:
  assumes "ranges_ok c n rs" "window_in rs t l lo hi"
  shows "window_insns rs lo hi =
    of_int (insn_count t) * (of_int (end_cum_cyc t - lo + 1) / of_int (cyc_count t))
    + of_int (insn_count l) * (of_int (hi - (end_cum_cyc l - cyc_count l)) / of_int (cyc_count l))
    + of_int (end_cum_insns l - insn_count l - end_cum_insns t)"
proof -
  let ?p = "end_cum_cyc l - cyc_count l"
  from assms(2) have w: "t \<in> set rs" "l \<in> set rs" "end_cum_cyc t - cyc_count t < lo"
      "lo \<le> end_cum_cyc t" "end_cum_cyc t \<le> ?p" "?p < hi" "hi \<le> end_cum_cyc l"
    by (simp_all add: window_in_def)
  have "window_insns rs lo hi = window_insns rs lo (end_cum_cyc t)
      + window_insns rs (end_cum_cyc t + 1) hi"
    using w by (intro window_insns_split) auto
  also have "window_insns rs (end_cum_cyc t + 1) hi
      = window_insns rs (end_cum_cyc t + 1) ?p + window_insns rs (?p + 1) hi"
    using w by (intro window_insns_split) auto
  also have "window_insns rs (end_cum_cyc t + 1) ?p
      = of_int (end_cum_insns l - insn_count l - end_cum_insns t)"
    by (rule window_insns_between [OF assms(1) w(1,2,5)])
  also have "window_insns rs lo (end_cum_cyc t)
      = of_int (insn_count t) * (of_int (end_cum_cyc t - lo + 1) / of_int (cyc_count t))"
    by (rule window_insns_inside [OF assms(1) w(1,3)]) (use w(4) in auto)
  also have "window_insns rs (?p + 1) hi
      = of_int (insn_count l) * (of_int (hi - (?p + 1) + 1) / of_int (cyc_count l))"
    by (rule window_insns_inside [OF assms(1) w(2)]) (use w(6,7) in auto)
  finally show ?thesis by simp
qed

lemma share_bounds:
  assumes "0 \<le> i" "0 \<le> part" "part \<le> whole" "(0::int) < whole"
  shows "0 \<le> (of_int i :: rat) * (of_int part / of_int whole)"
    and "(of_int i :: rat) * (of_int part / of_int whole) \<le> of_int i"
proof -
  have "0 \<le> (of_int part / of_int whole :: rat)" "(of_int part / of_int whole :: rat) \<le> 1"
    using assms by simp_all
  then show "0 \<le> (of_int i :: rat) * (of_int part / of_int whole)"
    and "(of_int i :: rat) * (of_int part / of_int whole) \<le> of_int i"
    using assms(1) mult_left_mono [of "of_int part / of_int whole" 1 "of_int i :: rat"]
      mult_nonneg_nonneg [of "of_int i :: rat" "of_int part / of_int whole"]
    by simp_all
qed

lemma window_insns_bounds:
  assumes "ranges_ok c n rs" "window_in rs t l lo hi"
  shows "of_int (end_cum_insns l - insn_count l - end_cum_insns t) \<le> window_insns rs lo hi"
    and "window_insns rs lo hi
      \<le> of_int (insn_count t + insn_count l + (end_cum_insns l - insn_count l - end_cum_insns t))"
proof -
  from assms(2) have w: "t \<in> set rs" "l \<in> set rs" "end_cum_cyc t - cyc_count t < lo"
      "lo \<le> end_cum_cyc t" "end_cum_cyc l - cyc_count l < hi" "hi \<le> end_cum_cyc l"
    by (simp_all add: window_in_def)
  note pt = ranges_ok_pos [OF assms(1) w(1)] and pl = ranges_ok_pos [OF assms(1) w(2)]
  note bt = share_bounds [of "insn_count t" "end_cum_cyc t - lo + 1" "cyc_count t"]
  note bl = share_bounds [of "insn_count l" "hi - (end_cum_cyc l - cyc_count l)" "cyc_count l"]
  note eq = window_insns_edges [OF assms]
  show "of_int (end_cum_insns l - insn_count l - end_cum_insns t) \<le> window_insns rs lo hi"
    using bt(1) bl(1) pt pl w unfolding eq by linarith
  show "window_insns rs lo hi
      \<le> of_int (insn_count t + insn_count l + (end_cum_insns l - insn_count l - end_cum_insns t))"
    using bt(2) bl(2) pt pl w unfolding eq of_int_add by linarith
qed

end
