(* ===== verification/Sliding_Window.thy ===== *)
theory Sliding_Window
  imports Cycle_Density Rounding
begin

text \<open>
  \<open>SqlUtil.time_series_prep\<close>: the tables \<open>sliding_window\<close> and \<open>ipc_spans\<close>. For a window of
  \<open>window_size_cyc\<close> cycles sliding over the ranges, a row is made wherever the window's
  leading edge reaches the end of a range, and wherever its trailing edge does. Arguments:
  \<open>W\<close> the window size, \<open>pick\<close> the row choice of the ASOF joins (theory Sql), \<open>fl\<close> the
  rounding of REAL arithmetic (theory Rounding).
\<close>

section \<open>The table sliding\_window\<close>

datatype wside = Leading | Trailing

record window_row =
  is_single_range :: "bool option"
  window_end_cum_cyc :: int
  window_start_cum_cyc :: int
  w_end_time :: int
  leading_end_cum_cyc :: int
  leading_cyc_count :: int
  leading_end_cum_insns :: int
  leading_insn_count :: int
  trailing_end_cum_cyc :: "int option"
  trailing_cyc_count :: "int option"
  trailing_end_cum_insns :: "int option"
  trailing_insn_count :: "int option"
  side :: wside
  is_span_aliased :: "bool option"

text \<open>
  First SELECT: every range as the leading edge, with the earliest range that ends after the
  window starts (ASOF LEFT JOIN: the trailing columns are NULL if there is none).
\<close>

definition leading_row :: "int \<Rightarrow> trange \<Rightarrow> trange option \<Rightarrow> window_row" where
  "leading_row W l t =
     \<lparr>is_single_range = map_option (\<lambda>t. end_cum_cyc l = end_cum_cyc t) t,
      window_end_cum_cyc = end_cum_cyc l,
      window_start_cum_cyc = end_cum_cyc l - (W - 1),
      w_end_time = end_time l,
      leading_end_cum_cyc = end_cum_cyc l,
      leading_cyc_count = cyc_count l,
      leading_end_cum_insns = end_cum_insns l,
      leading_insn_count = insn_count l,
      trailing_end_cum_cyc = map_option end_cum_cyc t,
      trailing_cyc_count = map_option cyc_count t,
      trailing_end_cum_insns = map_option end_cum_insns t,
      trailing_insn_count = map_option insn_count t,
      side = Leading,
      is_span_aliased = map_option (\<lambda>t. end_cum_cyc l - (W - 1) = end_cum_cyc t) t\<rparr>"

text \<open>Second SELECT: every range as the trailing edge (ASOF JOIN: no row without a match).\<close>

definition trailing_row :: "int \<Rightarrow> trange \<Rightarrow> trange \<Rightarrow> window_row" where
  "trailing_row W t l =
     \<lparr>is_single_range = Some False,
      window_end_cum_cyc = end_cum_cyc t + W - 1,
      window_start_cum_cyc = end_cum_cyc t,
      w_end_time = end_time l,
      leading_end_cum_cyc = end_cum_cyc l,
      leading_cyc_count = cyc_count l,
      leading_end_cum_insns = end_cum_insns l,
      leading_insn_count = insn_count l,
      trailing_end_cum_cyc = Some (end_cum_cyc t),
      trailing_cyc_count = Some (cyc_count t),
      trailing_end_cum_insns = Some (end_cum_insns t),
      trailing_insn_count = Some (insn_count t),
      side = Trailing,
      is_span_aliased = Some (end_cum_cyc t + W - 1 = end_cum_cyc l)\<rparr>"

definition trailing_match ::
  "(int option list \<Rightarrow> nat option) \<Rightarrow> int \<Rightarrow> trange list \<Rightarrow> trange \<Rightarrow> trange option" where
  "trailing_match pick W rs l =
     asof_least pick (\<lambda>t. end_cum_cyc l - W < end_cum_cyc t) end_cum_cyc rs"

definition leading_match ::
  "(int option list \<Rightarrow> nat option) \<Rightarrow> int \<Rightarrow> trange list \<Rightarrow> trange \<Rightarrow> trange option" where
  "leading_match pick W rs t =
     asof_least pick (\<lambda>l. end_cum_cyc t + W - 1 \<le> end_cum_cyc l) end_cum_cyc rs"

definition sliding_window ::
  "(int option list \<Rightarrow> nat option) \<Rightarrow> int \<Rightarrow> trange list \<Rightarrow> window_row list" where
  "sliding_window pick W rs =
     map (\<lambda>l. leading_row W l (trailing_match pick W rs l)) rs
     @ List.map_filter (\<lambda>t. map_option (trailing_row W t) (leading_match pick W rs t)) rs"

section \<open>The table ipc\_spans\<close>

text \<open>\<open>t1\<close>: drop the trailing rows whose span the leading side makes too.\<close>

definition spans_t1 :: "window_row list \<Rightarrow> window_row list" where
  "spans_t1 = filter (\<lambda>w. case side w of
      Leading \<Rightarrow> True
    | Trailing \<Rightarrow> is_span_aliased w = Some False)"

record calc_row = window_row +
  trailing_insns :: "int option"
  trailing_cyc_in_window :: "int option"
  leading_insns :: int
  leading_cyc_in_window :: int
  interior_insns :: "int option"
  interior_cyc :: "int option"
  optimistic_ipc :: "rat option"
  conservative_ipc :: "rat option"
  end_linear_interp_ipc :: "rat option"

definition sql_div :: "(rat \<Rightarrow> rat) \<Rightarrow> rat \<Rightarrow> rat \<Rightarrow> rat option" where
  "sql_div fl a b = (if b = 0 then None else Some (fl (a / b)))"

text \<open>
  \<open>(trailing_insns * (CAST(trailing_cyc_in_window as real) / trailing_cyc_count)) + \<dots>\<close>:
  NULL as soon as one operand is NULL or a division is by zero.
\<close>

definition edge_share :: "(rat \<Rightarrow> rat) \<Rightarrow> int \<Rightarrow> int \<Rightarrow> int \<Rightarrow> rat option" where
  "edge_share fl insns part whole =
     map_option (\<lambda>q. fl (fl (of_int insns) * q)) (sql_div fl (fl (of_int part)) (fl (of_int whole)))"

definition linear_ipc ::
  "(rat \<Rightarrow> rat) \<Rightarrow> int \<Rightarrow> int \<Rightarrow> int \<Rightarrow> int \<Rightarrow> int \<Rightarrow> int \<Rightarrow> int \<Rightarrow> int \<Rightarrow> rat option" where
  "linear_ipc fl W tin tcw tcc lin lcw lcc iin =
     (case (edge_share fl tin tcw tcc, edge_share fl lin lcw lcc) of
        (Some a, Some b) \<Rightarrow> sql_div fl (fl (fl (a + b) + fl (of_int iin))) (fl (of_int W))
      | _ \<Rightarrow> None)"

definition real_div :: "(rat \<Rightarrow> rat) \<Rightarrow> int \<Rightarrow> int \<Rightarrow> rat option" where
  "real_div fl a W = sql_div fl (fl (of_int a)) (fl (of_int W))"

definition calc_of :: "(rat \<Rightarrow> rat) \<Rightarrow> int \<Rightarrow> window_row \<Rightarrow> calc_row" where
  "calc_of fl W w =
     (let single = (is_single_range w = Some True);
          tin = trailing_insn_count w;
          tcw = map_option (\<lambda>t. t - window_start_cum_cyc w + 1) (trailing_end_cum_cyc w);
          lin = (if single then 0 else leading_insn_count w);
          lcw = (if single then 0
                 else leading_cyc_count w - (leading_end_cum_cyc w - window_end_cum_cyc w));
          iin = (if single then Some 0
                 else map_option (\<lambda>t. (leading_end_cum_insns w - leading_insn_count w) - t)
                        (trailing_end_cum_insns w));
          icy = (if trailing_end_cum_cyc w = Some (leading_end_cum_cyc w) then Some 0
                 else map_option (\<lambda>t. (leading_end_cum_cyc w - leading_cyc_count w) - t)
                        (trailing_end_cum_cyc w))
      in window_row.extend w
        \<lparr>trailing_insns = tin,
         trailing_cyc_in_window = tcw,
         leading_insns = lin,
         leading_cyc_in_window = lcw,
         interior_insns = iin,
         interior_cyc = icy,
         optimistic_ipc = (case (tin, iin) of
             (Some t, Some i) \<Rightarrow> real_div fl (t + lin + i) W | _ \<Rightarrow> None),
         conservative_ipc = Option.bind iin (\<lambda>i. real_div fl i W),
         end_linear_interp_ipc = (case (tin, tcw, trailing_cyc_count w, iin) of
             (Some t, Some cw, Some cc, Some i) \<Rightarrow>
               linear_ipc fl W t cw cc lin lcw (leading_cyc_count w) i
           | _ \<Rightarrow> None)\<rparr>)"

record span_row = calc_row +
  span_width_cyc :: int

text \<open>\<open>t3\<close>: the width of a span is the distance to the previous window end, 0 for the first.\<close>

definition width_of :: "int option \<Rightarrow> calc_row \<Rightarrow> span_row" where
  "width_of prev w = calc_row.extend w
     \<lparr>span_width_cyc = (case prev of None \<Rightarrow> 0 | Some p \<Rightarrow> window_end_cum_cyc w - p)\<rparr>"

definition spans_t3 :: "calc_row list \<Rightarrow> span_row list" where
  "spans_t3 t2 = (let rows = sort_key window_end_cum_cyc t2
     in map2 width_of (lag1 window_end_cum_cyc rows) rows)"

text \<open>
  The final SELECT: casts to 64-bit columns (a conversion error out of range), NULL
  interpolations replaced by 10000, ordered by window end (\<open>t3\<close> already is).
\<close>

record ipc_span = span_row +
  span_start_cyc :: int
  linear_ipc_or_default :: rat

definition cast_bigint :: "int \<Rightarrow> int result" where
  "cast_bigint i = (if - (2 ^ 63) \<le> i \<and> i < 2 ^ 63 then Inr i else Inl ConversionError)"

definition cast_ubigint :: "int \<Rightarrow> int result" where
  "cast_ubigint i = (if 0 \<le> i \<and> i < 2 ^ 64 then Inr i else Inl ConversionError)"

definition span_of :: "span_row \<Rightarrow> ipc_span result" where
  "span_of s =
     bind_res (cast_bigint (window_end_cum_cyc s)) (\<lambda>e.
     bind_res (cast_bigint (window_start_cum_cyc s)) (\<lambda>b.
     bind_res (cast_ubigint (w_end_time s)) (\<lambda>t.
     bind_res (cast_bigint (span_width_cyc s)) (\<lambda>wd.
     bind_res (cast_bigint (window_end_cum_cyc s - span_width_cyc s)) (\<lambda>st.
     Inr (span_row.extend
        (s\<lparr>window_end_cum_cyc := e, window_start_cum_cyc := b, w_end_time := t, span_width_cyc := wd\<rparr>)
        \<lparr>span_start_cyc = st,
         linear_ipc_or_default =
           (case end_linear_interp_ipc s of None \<Rightarrow> 10000 | Some x \<Rightarrow> x)\<rparr>))))))"

definition spans_calc ::
  "(int option list \<Rightarrow> nat option) \<Rightarrow> (rat \<Rightarrow> rat) \<Rightarrow> int \<Rightarrow> trange list \<Rightarrow> calc_row list" where
  "spans_calc pick fl W rs = map (calc_of fl W) (spans_t1 (sliding_window pick W rs))"

definition ipc_spans ::
  "(int option list \<Rightarrow> nat option) \<Rightarrow> (rat \<Rightarrow> rat) \<Rightarrow> int \<Rightarrow> trange list \<Rightarrow> ipc_span list result" where
  "ipc_spans pick fl W rs = map_res span_of (spans_t3 (spans_calc pick fl W rs))"

end
