(* ===== verification/Window_Lemmas.thy ===== *)
theory Window_Lemmas
  imports Sliding_Window
begin

text \<open>
  What the sliding-window queries compute, for every ASOF engine (locale \<open>asof_engine\<close>) and
  every monotone rounding (locale \<open>rounding\<close>): the joins find the ranges at the two edges
  of a window, the three parts of a window add up to its size, and the IPC columns relate to
  the density of theory Cycle\_Density.
\<close>

section \<open>The joins\<close>

context asof_engine begin

lemma trailing_matchD:
  assumes ok: "ranges_ok c n rs" and l: "l \<in> set rs" and W: "1 \<le> W"
  obtains t where "trailing_match pick W rs l = Some t" "t \<in> set rs"
    "end_cum_cyc l - W < end_cum_cyc t" "end_cum_cyc t \<le> end_cum_cyc l"
    "c \<le> end_cum_cyc l - W \<longrightarrow> end_cum_cyc t - cyc_count t \<le> end_cum_cyc l - W"
proof -
  have "\<exists>t. trailing_match pick W rs l = Some t"
    unfolding trailing_match_def by (rule asof_exists [OF l]) (use W in simp)
  then obtain t where t: "trailing_match pick W rs l = Some t" ..
  note d = asof_SomeD [OF t [unfolded trailing_match_def]]
  have le: "end_cum_cyc t \<le> end_cum_cyc l" using d(3) [OF l] W by simp
  have "c \<le> end_cum_cyc l - W \<longrightarrow> end_cum_cyc t - cyc_count t \<le> end_cum_cyc l - W"
  proof (rule impI, rule ccontr)
    assume c: "c \<le> end_cum_cyc l - W" and gt: "\<not> end_cum_cyc t - cyc_count t \<le> end_cum_cyc l - W"
    then have "c < end_cum_cyc t - cyc_count t" by linarith
    then obtain q where q: "q \<in> set rs" "end_cum_cyc q = end_cum_cyc t - cyc_count t"
      by (rule ranges_ok_prev [OF ok d(1)])
    then show False using d(3) [OF q(1)] gt ranges_ok_pos [OF ok d(1)] by simp
  qed
  then show thesis by (rule that [OF t d(1,2) le])
qed

lemma leading_matchD:
  assumes ok: "ranges_ok c n rs" and t: "t \<in> set rs" and W: "1 \<le> W"
    and l: "leading_match pick W rs t = Some l"
  shows "l \<in> set rs" "end_cum_cyc t + W - 1 \<le> end_cum_cyc l"
    "end_cum_cyc l - cyc_count l < end_cum_cyc t + W - 1"
proof -
  note d = asof_SomeD [OF l [unfolded leading_match_def]]
  show "l \<in> set rs" "end_cum_cyc t + W - 1 \<le> end_cum_cyc l" using d(1,2) by auto
  show "end_cum_cyc l - cyc_count l < end_cum_cyc t + W - 1"
  proof (rule ccontr)
    assume ge: "\<not> end_cum_cyc l - cyc_count l < end_cum_cyc t + W - 1"
    moreover have "c < end_cum_cyc t"
      using ranges_ok_first_cyc [OF ok t] ranges_ok_pos [OF ok t] by linarith
    ultimately have "c < end_cum_cyc l - cyc_count l" using W by simp
    then obtain q where q: "q \<in> set rs" "end_cum_cyc q = end_cum_cyc l - cyc_count l"
      by (rule ranges_ok_prev [OF ok d(1)])
    then show False using d(3) [OF q(1)] ge ranges_ok_pos [OF ok d(1)] by simp
  qed
qed

lemma leading_match_exists:
  "l \<in> set rs \<Longrightarrow> end_cum_cyc t + W - 1 \<le> end_cum_cyc l \<Longrightarrow> \<exists>m. leading_match pick W rs t = Some m"
  unfolding leading_match_def by (rule asof_exists)

text \<open>The rows of \<open>sliding_window\<close> that survive the filter, by the side that made them.\<close>

lemma spans_t1_cases:
  assumes "ranges_ok c n rs" "1 \<le> W" "w \<in> set (spans_t1 (sliding_window pick W rs))"
  obtains (leading) l t where "l \<in> set rs" "trailing_match pick W rs l = Some t"
      "w = leading_row W l (Some t)"
  | (trailing) t l where "t \<in> set rs" "leading_match pick W rs t = Some l"
      "w = trailing_row W t l" "end_cum_cyc t + W - 1 \<noteq> end_cum_cyc l"
proof -
  from assms(3) consider l where "l \<in> set rs" "w = leading_row W l (trailing_match pick W rs l)"
    | t l where "t \<in> set rs" "leading_match pick W rs t = Some l"
      "w = trailing_row W t l" "is_span_aliased w = Some False"
    by (auto simp: spans_t1_def sliding_window_def map_filter_def leading_row_def trailing_row_def
        split: option.splits)
  then show thesis
  proof cases
    case 1
    then show ?thesis
      using trailing_matchD [OF assms(1) 1(1) assms(2)] leading by metis
  next
    case 2
    then show ?thesis using trailing by (auto simp: trailing_row_def)
  qed
qed

end

section \<open>The geometry of a window\<close>

text \<open>
  \<open>edges rs W w t l\<close>: the row \<open>w\<close> describes the window from \<open>window_start\<close> to
  \<open>window_end\<close>, which starts inside the range \<open>t\<close> and ends inside \<open>l\<close>.
\<close>

definition edges :: "trange list \<Rightarrow> int \<Rightarrow> window_row \<Rightarrow> trange \<Rightarrow> trange \<Rightarrow> bool" where
  "edges rs W w t l \<longleftrightarrow> t \<in> set rs \<and> l \<in> set rs
     \<and> trailing_end_cum_cyc w = Some (end_cum_cyc t)
     \<and> trailing_cyc_count w = Some (cyc_count t)
     \<and> trailing_end_cum_insns w = Some (end_cum_insns t)
     \<and> trailing_insn_count w = Some (insn_count t)
     \<and> leading_end_cum_cyc w = end_cum_cyc l
     \<and> leading_cyc_count w = cyc_count l
     \<and> leading_end_cum_insns w = end_cum_insns l
     \<and> leading_insn_count w = insn_count l
     \<and> is_single_range w = Some (end_cum_cyc l = end_cum_cyc t)
     \<and> window_end_cum_cyc w = window_start_cum_cyc w + W - 1
     \<and> window_start_cum_cyc w \<le> end_cum_cyc t
     \<and> end_cum_cyc t \<le> end_cum_cyc l
     \<and> end_cum_cyc l - cyc_count l < window_end_cum_cyc w
     \<and> window_end_cum_cyc w \<le> end_cum_cyc l
     \<and> (end_cum_cyc l = end_cum_cyc t \<longrightarrow> window_end_cum_cyc w = end_cum_cyc l)"

context asof_engine begin

lemma spans_edges:
  assumes ok: "ranges_ok c n rs" and W: "1 \<le> W"
    and w: "w \<in> set (spans_t1 (sliding_window pick W rs))"
  obtains t l where "edges rs W w t l"
    "c < window_start_cum_cyc w \<longrightarrow> end_cum_cyc t - cyc_count t < window_start_cum_cyc w"
  using ok W w
proof (cases rule: spans_t1_cases)
  case (leading l t)
  obtain t' where t': "trailing_match pick W rs l = Some t'" "t' \<in> set rs"
      "end_cum_cyc l - W < end_cum_cyc t'" "end_cum_cyc t' \<le> end_cum_cyc l"
      "c \<le> end_cum_cyc l - W \<longrightarrow> end_cum_cyc t' - cyc_count t' \<le> end_cum_cyc l - W"
    by (rule trailing_matchD [OF ok leading(1) W])
  moreover have "t' = t" using t'(1) leading(2) by simp
  ultimately have t: "t \<in> set rs" "end_cum_cyc l - W < end_cum_cyc t" "end_cum_cyc t \<le> end_cum_cyc l"
      "c \<le> end_cum_cyc l - W \<longrightarrow> end_cum_cyc t - cyc_count t \<le> end_cum_cyc l - W"
    by simp_all
  show thesis
    by (rule that [of t l])
      (use leading(1) t ranges_ok_pos [OF ok leading(1)] in
        \<open>auto simp: edges_def leading(3) leading_row_def\<close>)
next
  case (trailing t l)
  note l = leading_matchD [OF ok trailing(1) W trailing(2)]
  have lt: "end_cum_cyc t < end_cum_cyc l" using l(2) trailing(4) W by linarith
  show thesis
    by (rule that [of t l])
      (use trailing(1) l lt W ranges_ok_pos [OF ok trailing(1)] in
        \<open>auto simp: edges_def trailing(3) trailing_row_def\<close>)
qed

end

text \<open>The columns \<open>calc_of\<close> computes for such a row.\<close>

lemma calc_of_edges:
  fixes fl :: "rat \<Rightarrow> rat"
  assumes "edges rs W w t l"
  defines "x \<equiv> calc_of fl W w" and "single \<equiv> end_cum_cyc l = end_cum_cyc t"
  shows "window_row.truncate x = w"
    and "trailing_insns x = Some (insn_count t)"
    and "trailing_cyc_in_window x = Some (end_cum_cyc t - window_start_cum_cyc w + 1)"
    and "leading_insns x = (if single then 0 else insn_count l)"
    and "leading_cyc_in_window x =
      (if single then 0 else window_end_cum_cyc w - (end_cum_cyc l - cyc_count l))"
    and "interior_insns x = Some (if single then 0 else end_cum_insns l - insn_count l - end_cum_insns t)"
    and "interior_cyc x = Some (if single then 0 else end_cum_cyc l - cyc_count l - end_cum_cyc t)"
  using assms(1) by (auto simp: x_def single_def edges_def calc_of_def Let_def window_row.defs)

lemma calc_of_ipc:
  fixes fl :: "rat \<Rightarrow> rat"
  assumes "edges rs W w t l"
  defines "x \<equiv> calc_of fl W w"
  defines "iin \<equiv> (if end_cum_cyc l = end_cum_cyc t then 0
      else end_cum_insns l - insn_count l - end_cum_insns t)"
  shows "optimistic_ipc x = real_div fl (insn_count t + leading_insns x + iin) W"
    and "conservative_ipc x = real_div fl iin W"
    and "end_linear_interp_ipc x = linear_ipc fl W (insn_count t)
      (end_cum_cyc t - window_start_cum_cyc w + 1) (cyc_count t)
      (leading_insns x) (leading_cyc_in_window x) (cyc_count l) iin"
  using assms(1) by (auto simp: x_def iin_def edges_def calc_of_def Let_def window_row.defs)

text \<open>
  The parts of a window are non-negative, add up to its size and, once the window lies
  inside the trace, never exceed the ranges they are taken from.
\<close>

lemma edges_parts:
  assumes ok: "ranges_ok c n rs" and e: "edges rs W w t l" and W: "1 \<le> W"
  shows "1 \<le> end_cum_cyc t - window_start_cum_cyc w + 1"
    and "0 \<le> leading_cyc_in_window (calc_of fl W w)"
    and "leading_cyc_in_window (calc_of fl W w) \<le> cyc_count l"
    and "end_cum_cyc l \<noteq> end_cum_cyc t \<Longrightarrow> end_cum_cyc t \<le> end_cum_cyc l - cyc_count l
      \<and> end_cum_insns t \<le> end_cum_insns l - insn_count l"
    and "end_cum_cyc l = end_cum_cyc t \<Longrightarrow> l = t"
proof -
  from e have m: "t \<in> set rs" "l \<in> set rs" by (simp_all add: edges_def)
  note pl = ranges_ok_pos [OF ok m(2)]
  show "1 \<le> end_cum_cyc t - window_start_cum_cyc w + 1" using e by (simp add: edges_def)
  show "0 \<le> leading_cyc_in_window (calc_of fl W w)"
    and "leading_cyc_in_window (calc_of fl W w) \<le> cyc_count l"
    using e pl by (auto simp: calc_of_edges [OF e] edges_def)
  show "end_cum_cyc t \<le> end_cum_cyc l - cyc_count l \<and> end_cum_insns t \<le> end_cum_insns l - insn_count l"
    if "end_cum_cyc l \<noteq> end_cum_cyc t"
    using ranges_ok_order [OF ok m] that e by (simp add: edges_def)
  show "l = t" if "end_cum_cyc l = end_cum_cyc t"
    using ranges_ok_end_inj(1) [OF ok] m that by (auto dest: inj_onD)
qed

lemma edges_conservation:
  assumes "edges rs W w t l"
  shows "\<exists>a i. trailing_cyc_in_window (calc_of fl W w) = Some a \<and> interior_cyc (calc_of fl W w) = Some i
    \<and> a + leading_cyc_in_window (calc_of fl W w) + i = W"
  using assms by (auto simp: calc_of_edges [OF assms] edges_def)

lemma edges_window_in:
  assumes "ranges_ok c n rs" "edges rs W w t l" "1 \<le> W" "end_cum_cyc l \<noteq> end_cum_cyc t"
    and "end_cum_cyc t - cyc_count t < window_start_cum_cyc w"
  shows "window_in rs t l (window_start_cum_cyc w) (window_end_cum_cyc w)"
  using assms(2,5) edges_parts(4) [OF assms(1-4)] by (simp add: window_in_def edges_def)

section \<open>The interpolated IPC is the mean density of the window\<close>

lemma linear_ipc_exact:
  assumes "tcc \<noteq> 0" "lcc \<noteq> 0" "W \<noteq> 0"
  shows "linear_ipc (\<lambda>x. x) W tin tcw tcc lin lcw lcc iin = Some
    ((of_int tin * (of_int tcw / of_int tcc) + of_int lin * (of_int lcw / of_int lcc) + of_int iin)
      / of_int W)"
  using assms by (simp add: linear_ipc_def edge_share_def sql_div_def)

lemma edges_linear_exact:
  assumes ok: "ranges_ok c n rs" and e: "edges rs W w t l" and W: "1 \<le> W"
    and inside: "end_cum_cyc t - cyc_count t < window_start_cum_cyc w"
  shows "end_linear_interp_ipc (calc_of (\<lambda>x. x) W w)
    = Some (avg_ipc rs (window_start_cum_cyc w) (window_end_cum_cyc w))"
proof -
  from e have m: "t \<in> set rs" "l \<in> set rs" by (simp_all add: edges_def)
  note pt = ranges_ok_pos [OF ok m(1)] and pl = ranges_ok_pos [OF ok m(2)]
  have size: "window_end_cum_cyc w - window_start_cum_cyc w + 1 = W"
    using e by (simp add: edges_def)
  have nz: "cyc_count t \<noteq> 0" "cyc_count l \<noteq> 0" "W \<noteq> 0" using pt pl W by auto
  note col = calc_of_ipc(3) [OF e, of "\<lambda>x. x"] linear_ipc_exact [OF nz] calc_of_edges(4,5) [OF e]
  show ?thesis
  proof (cases "end_cum_cyc l = end_cum_cyc t")
    case True
    have "window_insns rs (window_start_cum_cyc w) (window_end_cum_cyc w) =
        of_int (insn_count t) * (of_int W / of_int (cyc_count t))"
      using window_insns_inside [OF ok m(1) inside, of "window_end_cum_cyc w"] e True size W
      by (simp add: edges_def)
    then show ?thesis
      using e True size by (simp add: col avg_ipc_def edges_def)
  next
    case False
    show ?thesis
      using window_insns_edges [OF ok edges_window_in [OF ok e W False inside]] size False
      by (simp add: col avg_ipc_def algebra_simps)
  qed
qed

section \<open>The interpolated IPC lies between the two bounds, under rounding\<close>

context rounding begin

lemma fl_pos_int: "1 \<le> i \<Longrightarrow> 1 \<le> fl (of_int i)"
  using fl_ge_int [of 1 "of_int i"] bound_pos by simp

lemma edge_share_bounds:
  assumes "0 \<le> insns" "insns \<le> bound" "0 \<le> part" "part \<le> whole" "0 < whole"
  shows "\<exists>a. edge_share fl insns part whole = Some a \<and> 0 \<le> a \<and> a \<le> of_int insns"
proof -
  let ?q = "fl (fl (of_int part) / fl (of_int whole))"
  have w: "1 \<le> fl (of_int whole)" using assms(5) by (intro fl_pos_int) simp
  have "0 \<le> fl (of_int part)" using assms(3) by (intro fl_nonneg) simp
  moreover have "fl (of_int part) \<le> fl (of_int whole)" using assms(4) by (intro fl_mono) simp
  ultimately have q: "0 \<le> ?q" "?q \<le> 1"
    using w fl_unit [of "fl (of_int part) / fl (of_int whole)"] by simp_all
  have i: "fl (of_int insns) = of_int insns" using assms(1,2) by (intro fl_int) simp
  have "0 \<le> fl (of_int insns * ?q)" using q assms(1) by (intro fl_nonneg) simp
  moreover have "fl (of_int insns * ?q) \<le> of_int insns"
    using q assms(1,2) mult_left_mono [of ?q 1 "of_int insns :: rat"] by (intro fl_le_int) simp_all
  ultimately show ?thesis using w by (simp add: edge_share_def sql_div_def i)
qed

lemma real_div_mono:
  assumes "1 \<le> W" "x \<le> y"
  shows "fl (x / fl (of_int W)) \<le> fl (y / fl (of_int W))"
  using fl_pos_int [OF assms(1)] assms(2) by (intro fl_mono divide_right_mono) auto

lemma linear_ipc_between:
  assumes "0 \<le> tin" "0 \<le> tcw" "tcw \<le> tcc" "0 < tcc" "0 \<le> lin" "0 \<le> lcw" "lcw \<le> lcc" "0 < lcc"
    and "0 \<le> iin" "1 \<le> W" "tin + lin + iin \<le> bound"
  shows "\<exists>lo x hi. real_div fl iin W = Some lo \<and> linear_ipc fl W tin tcw tcc lin lcw lcc iin = Some x
    \<and> real_div fl (tin + lin + iin) W = Some hi \<and> lo \<le> x \<and> x \<le> hi"
proof -
  obtain a where a: "edge_share fl tin tcw tcc = Some a" "0 \<le> a" "a \<le> of_int tin"
    using edge_share_bounds [of tin tcw tcc] assms by auto
  obtain b where b: "edge_share fl lin lcw lcc = Some b" "0 \<le> b" "b \<le> of_int lin"
    using edge_share_bounds [of lin lcw lcc] assms by auto
  let ?s = "fl (a + b)"
  have "0 \<le> ?s" using a b by (intro fl_nonneg) simp
  moreover have "?s \<le> of_int (tin + lin)" using a b assms by (intro fl_le_int) simp_all
  ultimately have s: "0 \<le> ?s" "?s \<le> of_int (tin + lin)" by auto
  have i: "fl (of_int iin) = of_int iin" using assms by (intro fl_int) simp
  let ?t = "fl (?s + fl (of_int iin))"
  have "of_int iin \<le> ?t" using s assms unfolding i by (intro fl_ge_int) simp_all
  moreover have "?t \<le> of_int (tin + lin + iin)" using s assms unfolding i by (intro fl_le_int) simp_all
  ultimately have t: "of_int iin \<le> ?t" "?t \<le> of_int (tin + lin + iin)" by auto
  have all: "fl (of_int (tin + lin + iin)) = of_int (tin + lin + iin)"
    using assms by (intro fl_int) simp
  have nz: "fl (of_int W) \<noteq> 0" using fl_pos_int [OF assms(10)] by auto
  show ?thesis
    using real_div_mono [OF assms(10) t(1)] real_div_mono [OF assms(10) t(2)] nz
    by (simp add: real_div_def sql_div_def linear_ipc_def a(1) b(1) i all del: of_int_add)
qed

lemma edges_ipc_between:
  assumes ok: "ranges_ok c n rs" and e: "edges rs W w t l" and W: "1 \<le> W"
    and inside: "end_cum_cyc t - cyc_count t < window_start_cum_cyc w"
  defines "x \<equiv> calc_of fl W w"
  defines "iin \<equiv> (if end_cum_cyc l = end_cum_cyc t then 0
      else end_cum_insns l - insn_count l - end_cum_insns t)"
  assumes bnd: "insn_count t + leading_insns x + iin \<le> bound"
  shows "\<exists>lo v hi. conservative_ipc x = Some lo \<and> end_linear_interp_ipc x = Some v
    \<and> optimistic_ipc x = Some hi \<and> lo \<le> v \<and> v \<le> hi"
proof -
  from e have m: "t \<in> set rs" "l \<in> set rs" by (simp_all add: edges_def)
  note pt = ranges_ok_pos [OF ok m(1)] and pl = ranges_ok_pos [OF ok m(2)]
  note parts = edges_parts(1) [OF ok e W] edges_parts(2,3) [OF ok e W, where fl = fl, folded x_def]
    edges_parts(4) [OF ok e W]
  note ipc = calc_of_ipc [OF e, of fl, folded x_def, folded iin_def]
  have li: "0 \<le> leading_insns x"
    using pl by (simp add: x_def calc_of_edges(4) [OF e])
  have ii: "0 \<le> iin" using parts(4) by (auto simp: iin_def)
  show ?thesis
    unfolding ipc
    by (rule linear_ipc_between) (use pt pl parts(1-3) li ii inside W bnd in auto)
qed

end

section \<open>From rows to spans\<close>

lemma spans_t3_nth:
  assumes "i < length t2"
  defines "rows \<equiv> sort_key window_end_cum_cyc t2"
  shows "spans_t3 t2 ! i
    = width_of (if i = 0 then None else Some (window_end_cum_cyc (rows ! (i - 1)))) (rows ! i)"
  using assms by (simp add: spans_t3_def Let_def lag1_nth)

lemma length_spans_t3 [simp]: "length (spans_t3 t2) = length t2"
  by (simp add: spans_t3_def Let_def)

lemma width_of_columns [simp]:
  "calc_row.truncate (width_of p w) = w"
  "window_end_cum_cyc (width_of p w) = window_end_cum_cyc w"
  "window_start_cum_cyc (width_of p w) = window_start_cum_cyc w"
  "w_end_time (width_of p w) = w_end_time w"
  "end_linear_interp_ipc (width_of p w) = end_linear_interp_ipc w"
  by (simp_all add: width_of_def calc_row.defs)

lemma span_of_Inr:
  assumes "span_of s = Inr x"
  shows "span_row.truncate x = s" "span_start_cyc x = window_end_cum_cyc s - span_width_cyc s"
  using assms
  by (auto simp: span_of_def bind_res_Inr_iff cast_bigint_def cast_ubigint_def span_row.defs
      split: if_splits)

lemma truncate_calc_columns:
  assumes "span_row.truncate (x :: ipc_span) = s"
  shows "calc_row.truncate x = calc_row.truncate s" "span_width_cyc x = span_width_cyc s"
    "window_end_cum_cyc x = window_end_cum_cyc s"
  using assms by (auto simp: span_row.defs calc_row.defs)

lemma calc_columns:
  assumes "calc_row.truncate (x :: ipc_span) = y"
  shows "window_row.truncate x = window_row.truncate y"
    "window_end_cum_cyc x = window_end_cum_cyc y" "window_start_cum_cyc x = window_start_cum_cyc y"
    "side x = side y" "trailing_cyc_count x = trailing_cyc_count y"
    "trailing_insns x = trailing_insns y" "trailing_cyc_in_window x = trailing_cyc_in_window y"
    "leading_insns x = leading_insns y" "leading_cyc_in_window x = leading_cyc_in_window y"
    "interior_insns x = interior_insns y" "interior_cyc x = interior_cyc y"
    "optimistic_ipc x = optimistic_ipc y" "conservative_ipc x = conservative_ipc y"
    "end_linear_interp_ipc x = end_linear_interp_ipc y"
  using assms by (auto simp: calc_row.defs window_row.defs)

text \<open>The spans are the rows of \<open>spans_calc\<close> in the order of their window ends.\<close>

lemma ipc_spans_nth:
  assumes "ipc_spans pick fl W rs = Inr out" "i < length out"
  defines "rows \<equiv> sort_key window_end_cum_cyc (spans_calc pick fl W rs)"
  shows "length out = length rows" "calc_row.truncate (out ! i) = rows ! i"
    "span_width_cyc (out ! i) =
      (if i = 0 then 0 else window_end_cum_cyc (rows ! i) - window_end_cum_cyc (rows ! (i - 1)))"
    "span_start_cyc (out ! i) =
      (if i = 0 then window_end_cum_cyc (rows ! i) else window_end_cum_cyc (rows ! (i - 1)))"
proof -
  let ?t3 = "spans_t3 (spans_calc pick fl W rs)"
  have a: "list_all2 (\<lambda>s x. span_of s = Inr x) ?t3 out"
    using assms(1) by (simp add: ipc_spans_def map_res_Inr_iff)
  then have len: "length out = length ?t3" using list_all2_lengthD by metis
  with len show "length out = length rows" by (simp add: rows_def)
  have "span_of (?t3 ! i) = Inr (out ! i)" using a assms(2) len by (simp add: list_all2_conv_all_nth)
  note s = span_of_Inr [OF this]
  have t3: "?t3 ! i = width_of (if i = 0 then None else Some (window_end_cum_cyc (rows ! (i - 1)))) (rows ! i)"
    using spans_t3_nth [of i "spans_calc pick fl W rs"] assms(2) len by (simp add: rows_def)
  show "calc_row.truncate (out ! i) = rows ! i"
    using truncate_calc_columns(1) [OF s(1)] by (simp add: t3)
  have w: "span_width_cyc (?t3 ! i) =
      (if i = 0 then 0 else window_end_cum_cyc (rows ! i) - window_end_cum_cyc (rows ! (i - 1)))"
    by (simp add: t3 width_of_def calc_row.defs)
  then show "span_width_cyc (out ! i) =
      (if i = 0 then 0 else window_end_cum_cyc (rows ! i) - window_end_cum_cyc (rows ! (i - 1)))"
    using truncate_calc_columns(2) [OF s(1)] by simp
  show "span_start_cyc (out ! i) =
      (if i = 0 then window_end_cum_cyc (rows ! i) else window_end_cum_cyc (rows ! (i - 1)))"
    using s(2) w by (simp add: t3)
qed

lemma ipc_spans_mem:
  assumes "ipc_spans pick fl W rs = Inr out" "x \<in> set out"
  obtains w where "w \<in> set (spans_t1 (sliding_window pick W rs))"
    "calc_row.truncate x = calc_of fl W w"
proof -
  obtain i where i: "i < length out" "x = out ! i" using assms(2) by (auto simp: in_set_conv_nth)
  note at = ipc_spans_nth [OF assms(1) i(1)]
  have "sort_key window_end_cum_cyc (spans_calc pick fl W rs) ! i \<in> set (spans_calc pick fl W rs)"
    using nth_mem [of i "sort_key window_end_cum_cyc (spans_calc pick fl W rs)"] at(1) i(1) by simp
  then show thesis using that at(2) i(2) by (auto simp: spans_calc_def)
qed

lemma calc_of_window_end [simp]:
  "window_end_cum_cyc (calc_of fl W w) = window_end_cum_cyc w"
  "window_start_cum_cyc (calc_of fl W w) = window_start_cum_cyc w"
  "w_end_time (calc_of fl W w) = w_end_time w"
  "window_row.truncate (calc_of fl W w) = w"
  by (simp_all add: calc_of_def Let_def window_row.defs)

lemma spans_ends:
  "map window_end_cum_cyc (spans_calc pick fl W rs)
    = map window_end_cum_cyc (spans_t1 (sliding_window pick W rs))"
  by (simp add: spans_calc_def comp_def)

text \<open>No other window end lies strictly inside a span.\<close>

lemma span_gap:
  assumes "ipc_spans pick fl W rs = Inr out" "x \<in> set out"
    and "w \<in> set (spans_t1 (sliding_window pick W rs))"
  shows "\<not> (span_start_cyc x < window_end_cum_cyc w \<and> window_end_cum_cyc w < window_end_cum_cyc x)"
proof -
  let ?rows = "sort_key window_end_cum_cyc (spans_calc pick fl W rs)"
  obtain i where i: "i < length out" "x = out ! i" using assms(2) by (auto simp: in_set_conv_nth)
  note at = ipc_spans_nth [OF assms(1) i(1)]
  have "window_end_cum_cyc w \<in> set (map window_end_cum_cyc (spans_calc pick fl W rs))"
    using assms(3) unfolding spans_ends by simp
  then obtain y where "y \<in> set (spans_calc pick fl W rs)"
      and y: "window_end_cum_cyc y = window_end_cum_cyc w"
    by auto
  then have "y \<in> set ?rows" by simp
  then obtain j where j: "j < length ?rows" "y = ?rows ! j"
    unfolding in_set_conv_nth by blast
  have sorted: "window_end_cum_cyc (?rows ! a) \<le> window_end_cum_cyc (?rows ! b)"
    if "a \<le> b" "b < length ?rows" for a b
    using sorted_nth_mono [OF sorted_sort_key, of a b window_end_cum_cyc "spans_calc pick fl W rs"] that
    by simp
  have xe: "window_end_cum_cyc x = window_end_cum_cyc (?rows ! i)"
    using at(2) i(2) by (metis calc_columns(2))
  show ?thesis
  proof (cases "i \<le> j")
    case True
    then show ?thesis using sorted [of i j] j y xe by simp
  next
    case False
    then have "j \<le> i - 1" "i \<noteq> 0" "i - 1 < length ?rows" using at(1) i(1) by linarith+
    then show ?thesis using sorted [of j "i - 1"] at(4) j y i(2) by simp
  qed
qed

end
