(* ===== verification/Cdf.thy ===== *)
theory Cdf
  imports Window_Lemmas
begin

text \<open>
  \<open>cdf_prep\<close>: the view \<open>samples_for_cdf\<close>, which discards the longest samples, and the table
  \<open>range_cdf\<close>, the distribution of sample durations by count and by cycles, with the shares of
  samples by number of instructions. \<open>fl\<close> rounds REAL arithmetic; a division by zero is NULL.
\<close>

section \<open>samples_for_cdf\<close>

record cdf_sample =
  s_insn_count :: int
  s_cyc_count :: int
  cum_cycles :: int
  cum_cycles_perc :: "rat option"

definition cdf_t1 :: "trange list \<Rightarrow> (int \<times> int) list" where
  "cdf_t1 ranges =
     map (\<lambda>r. (insn_count r, cyc_count r))
       (filter (\<lambda>r. case branch_type_name r of None \<Rightarrow> False | Some b \<Rightarrow> b \<noteq> ''trace begin'') ranges)"

text \<open>The window orders by \<open>cyc_count DESC\<close>: a row's frame is the rows at least as long.\<close>

definition cdf_t2 :: "(rat \<Rightarrow> rat) \<Rightarrow> (int \<times> int) list \<Rightarrow> cdf_sample list" where
  "cdf_t2 fl t1 =
     map (\<lambda>(i, c). let cum = range_sum (\<lambda>r. - snd r) snd t1 (i, c) in
         \<lparr>s_insn_count = i, s_cyc_count = c, cum_cycles = cum,
          cum_cycles_perc = real_div fl cum (sum_list (map snd t1))\<rparr>) t1"

text \<open>The threshold is a literal compared with a REAL column, in REAL.\<close>

definition samples_for_cdf :: "(rat \<Rightarrow> rat) \<Rightarrow> rat \<Rightarrow> trange list \<Rightarrow> cdf_sample list" where
  "samples_for_cdf fl longest_time_to_discard ranges =
     filter (\<lambda>s. case cum_cycles_perc s of None \<Rightarrow> False | Some p \<Rightarrow> fl longest_time_to_discard < p)
       (cdf_t2 fl (cdf_t1 ranges))"

section \<open>range_cdf\<close>

record cdf_group =
  g_cyc_count :: int
  group_count :: int
  weighted_c :: int
  c_insns_5 :: int
  c_insns_25 :: int
  c_insns_125 :: int

definition count_where :: "('a \<Rightarrow> bool) \<Rightarrow> 'a list \<Rightarrow> int" where
  "count_where P xs = int (length (filter P xs))"

definition cdf_groups :: "cdf_sample list \<Rightarrow> cdf_group list" where
  "cdf_groups samples =
     map (\<lambda>k. let g = filter (\<lambda>s. s_cyc_count s = k) samples in
         \<lparr>g_cyc_count = k, group_count = count_where (\<lambda>_. True) g, weighted_c = count_where (\<lambda>_. True) g * k,
          c_insns_5 = count_where (\<lambda>s. s_insn_count s \<le> 1) g,
          c_insns_25 = count_where (\<lambda>s. s_insn_count s \<le> 20) g,
          c_insns_125 = count_where (\<lambda>s. s_insn_count s \<le> 100) g\<rparr>)
       (remdups (map s_cyc_count samples))"

record cdf_cum = cdf_group +
  nonnormalized_cdf :: int
  nonnormalized_weighted_cdf :: int
  perc_insns_5 :: "rat option"
  perc_insns_25 :: "rat option"
  perc_insns_125 :: "rat option"

definition cdf_cum_of :: "(rat \<Rightarrow> rat) \<Rightarrow> cdf_group list \<Rightarrow> cdf_group \<Rightarrow> cdf_cum" where
  "cdf_cum_of fl t1 g = cdf_group.extend g
     \<lparr>nonnormalized_cdf = range_sum g_cyc_count group_count t1 g,
      nonnormalized_weighted_cdf = range_sum g_cyc_count weighted_c t1 g,
      perc_insns_5 = real_div fl (c_insns_5 g) (group_count g),
      perc_insns_25 = real_div fl (c_insns_25 g) (group_count g),
      perc_insns_125 = real_div fl (c_insns_125 g) (group_count g)\<rparr>"

record cdf_row =
  cdf_cyc_count :: int
  cdf :: "rat option"
  weighted_cdf :: "rat option"
  perc_insns_5_stacked :: "rat option"
  perc_insns_25_stacked :: "rat option"
  perc_insns_125_stacked :: "rat option"
  perc_insns_125_plus_stacked :: "rat option"

definition sql_minus :: "(rat \<Rightarrow> rat) \<Rightarrow> rat option \<Rightarrow> rat option \<Rightarrow> rat option" where
  "sql_minus fl x y = (case (x, y) of (Some a, Some b) \<Rightarrow> Some (fl (a - b)) | _ \<Rightarrow> None)"

definition cdf_row_of :: "(rat \<Rightarrow> rat) \<Rightarrow> cdf_cum list \<Rightarrow> cdf_cum \<Rightarrow> cdf_row" where
  "cdf_row_of fl t2 g =
     \<lparr>cdf_cyc_count = g_cyc_count g,
      cdf = Option.bind (sql_max (map nonnormalized_cdf t2)) (real_div fl (nonnormalized_cdf g)),
      weighted_cdf = Option.bind (sql_max (map nonnormalized_weighted_cdf t2))
        (real_div fl (nonnormalized_weighted_cdf g)),
      perc_insns_5_stacked = perc_insns_5 g,
      perc_insns_25_stacked = sql_minus fl (perc_insns_25 g) (perc_insns_5 g),
      perc_insns_125_stacked = sql_minus fl (perc_insns_125 g) (perc_insns_25 g),
      perc_insns_125_plus_stacked = sql_minus fl (Some 1) (perc_insns_125 g)\<rparr>"

definition range_cdf :: "(rat \<Rightarrow> rat) \<Rightarrow> cdf_sample list \<Rightarrow> cdf_row list" where
  "range_cdf fl samples =
     (let t1 = cdf_groups samples; t2 = map (cdf_cum_of fl t1) t1 in map (cdf_row_of fl t2) t2)"

section \<open>The samples that are kept\<close>

definition cycles_at_least :: "(int \<times> int) list \<Rightarrow> int \<Rightarrow> int" where
  "cycles_at_least t1 k = sum_list (map snd (filter (\<lambda>r. k \<le> snd r) t1))"

lemma range_sum_desc: "range_sum (\<lambda>r. - snd r) snd t1 (i, k) = cycles_at_least t1 k"
  unfolding range_sum_def cycles_at_least_def by (induction t1) auto

lemma samples_for_cdf_iff:
  "s \<in> set (samples_for_cdf fl thr ranges) \<longleftrightarrow>
     (let t1 = cdf_t1 ranges in
      \<exists>i k p. (i, k) \<in> set t1 \<and> real_div fl (cycles_at_least t1 k) (sum_list (map snd t1)) = Some p \<and> fl thr < p
        \<and> s = \<lparr>s_insn_count = i, s_cyc_count = k, cum_cycles = cycles_at_least t1 k, cum_cycles_perc = Some p\<rparr>)"
  by (auto simp: samples_for_cdf_def cdf_t2_def range_sum_desc Let_def image_iff Bex_def split: option.splits)

text \<open>The ranges that take part at all: the others are dropped whatever their length.\<close>

definition measured_range :: "trange \<Rightarrow> bool" where
  "measured_range r \<longleftrightarrow> branch_type_name r \<noteq> None \<and> branch_type_name r \<noteq> Some ''trace begin''"

lemma cdf_t1_measured: "cdf_t1 ranges = map (\<lambda>r. (insn_count r, cyc_count r)) (filter measured_range ranges)"
  unfolding cdf_t1_def by (rule arg_cong [of _ _ "map _"], rule filter_cong) (auto simp: measured_range_def split: option.split)

text \<open>Whether a sample is kept depends on its duration only.\<close>

definition share_above :: "(rat \<Rightarrow> rat) \<Rightarrow> rat \<Rightarrow> (int \<times> int) list \<Rightarrow> int \<Rightarrow> bool" where
  "share_above fl thr t1 k \<longleftrightarrow>
     (case real_div fl (cycles_at_least t1 k) (sum_list (map snd t1)) of None \<Rightarrow> False | Some p \<Rightarrow> fl thr < p)"

lemma samples_for_cdf_pairs:
  "map (\<lambda>s. (s_insn_count s, s_cyc_count s)) (samples_for_cdf fl thr ranges)
     = filter (\<lambda>q. share_above fl thr (cdf_t1 ranges) (snd q)) (cdf_t1 ranges)"
proof -
  let ?f = "\<lambda>(i, c). let cum = range_sum (\<lambda>r. - snd r) snd (cdf_t1 ranges) (i, c) in
     \<lparr>s_insn_count = i, s_cyc_count = c, cum_cycles = cum, cum_cycles_perc = real_div fl cum (sum_list (map snd (cdf_t1 ranges)))\<rparr>"
  have "map (\<lambda>s. (s_insn_count s, s_cyc_count s)) (filter (\<lambda>s. case cum_cycles_perc s of None \<Rightarrow> False | Some p \<Rightarrow> fl thr < p) (map ?f xs))
      = filter (\<lambda>q. share_above fl thr (cdf_t1 ranges) (snd q)) xs" for xs
    by (induction xs) (auto simp: Let_def range_sum_desc share_above_def)
  then show ?thesis by (simp add: samples_for_cdf_def cdf_t2_def)
qed

lemma sum_list_filter_le:
  assumes "\<forall>r\<in>set xs. (0::int) \<le> f r" "\<forall>r\<in>set xs. P r \<longrightarrow> Q r"
  shows "sum_list (map f (filter P xs)) \<le> sum_list (map f (filter Q xs))"
  using assms by (induction xs) auto

lemma cycles_at_least_bounds:
  assumes "\<forall>q\<in>set t1. 0 < snd q"
  shows "0 \<le> cycles_at_least t1 k" "cycles_at_least t1 k \<le> sum_list (map snd t1)"
    and "q \<in> set t1 \<Longrightarrow> 1 \<le> sum_list (map snd t1)"
proof -
  have nonneg: "\<forall>q\<in>set t1. 0 \<le> snd q" using assms by auto
  show "0 \<le> cycles_at_least t1 k" using nonneg by (auto simp: cycles_at_least_def intro!: sum_list_nonneg)
  show "cycles_at_least t1 k \<le> sum_list (map snd t1)"
    using sum_list_filter_le [OF nonneg, of "\<lambda>r. k \<le> snd r" "\<lambda>_. True"] by (simp add: cycles_at_least_def)
  assume "q \<in> set t1"
  then have "snd q \<le> sum_list (map snd t1)" using nonneg by (intro member_le_sum_list) auto
  with assms \<open>q \<in> set t1\<close> show "1 \<le> sum_list (map snd t1)" by force
qed

lemma cycles_at_least_antimono:
  assumes "\<forall>r\<in>set t1. 0 \<le> snd r" "j \<le> k"
  shows "cycles_at_least t1 k \<le> cycles_at_least t1 j"
  using assms unfolding cycles_at_least_def by (induction t1) auto

section \<open>The groups\<close>

lemma group_count_pos: "g \<in> set (cdf_groups samples) \<Longrightarrow> 1 \<le> group_count g"
  by (auto simp: cdf_groups_def count_where_def Let_def Suc_le_eq filter_empty_conv)

lemma count_where_mono: "(\<And>x. P x \<Longrightarrow> Q x) \<Longrightarrow> count_where P xs \<le> count_where Q xs"
  unfolding count_where_def by (induction xs) auto

lemma group_counts:
  assumes "g \<in> set (cdf_groups samples)"
  shows "0 \<le> c_insns_5 g" "c_insns_5 g \<le> c_insns_25 g" "c_insns_25 g \<le> c_insns_125 g"
    "c_insns_125 g \<le> group_count g" "weighted_c g = group_count g * g_cyc_count g"
  using assms by (auto simp: cdf_groups_def Let_def intro!: count_where_mono) (simp add: count_where_def)

lemma group_keys: "map g_cyc_count (cdf_groups samples) = remdups (map s_cyc_count samples)"
  by (simp add: cdf_groups_def comp_def Let_def)

text \<open>The running sums count samples, and cycles, up to a duration.\<close>

lemma sum_groups:
  fixes f :: "'b \<Rightarrow> int"
  assumes "distinct ks" "set (map key xs) \<subseteq> set ks"
  shows "(\<Sum>k\<leftarrow>ks. if P k then sum_list (map f (filter (\<lambda>x. key x = k) xs)) else 0)
    = sum_list (map f (filter (\<lambda>x. P (key x)) xs))"
  using assms(2)
proof (induction xs)
  case Nil
  show ?case by (induction ks) simp_all
next
  case (Cons x xs)
  have "(\<Sum>k\<leftarrow>ks. if P k then sum_list (map f (filter (\<lambda>y. key y = k) (x # xs))) else 0)
      = (\<Sum>k\<leftarrow>ks. (if P k \<and> key x = k then f x else 0)
          + (if P k then sum_list (map f (filter (\<lambda>y. key y = k) xs)) else 0))"
    by (rule arg_cong [of _ _ sum_list]) auto
  also have "\<dots> = (\<Sum>k\<leftarrow>ks. if P k \<and> key x = k then f x else 0) + sum_list (map f (filter (\<lambda>x. P (key x)) xs))"
    using Cons by (simp add: sum_list_addf)
  also have "(\<Sum>k\<leftarrow>ks. if P k \<and> key x = k then f x else 0) = (if P (key x) then f x else 0)"
  proof -
    have "(\<Sum>k\<leftarrow>ks. if P k \<and> key x = k then f x else 0) = (\<Sum>k\<in>set ks. if P k \<and> key x = k then f x else 0)"
      by (rule sum_list_distinct_conv_sum_set [OF assms(1)])
    also have "\<dots> = (\<Sum>k\<in>set ks. if key x = k then (if P (key x) then f x else 0) else 0)"
      by (rule sum.cong) auto
    also have "\<dots> = (if P (key x) then f x else 0)"
      using Cons.prems by (simp add: sum.delta')
    finally show ?thesis .
  qed
  finally show ?case by simp
qed

definition samples_up_to :: "cdf_sample list \<Rightarrow> int \<Rightarrow> int" where
  "samples_up_to samples k = count_where (\<lambda>s. s_cyc_count s \<le> k) samples"

definition cycles_up_to :: "cdf_sample list \<Rightarrow> int \<Rightarrow> int" where
  "cycles_up_to samples k = sum_list (map s_cyc_count (filter (\<lambda>s. s_cyc_count s \<le> k) samples))"

lemma sum_list_ones: "count_where P xs = sum_list (map (\<lambda>_. 1) (filter P xs))"
  unfolding count_where_def by (induction xs) auto

lemma group_sums:
  "range_sum g_cyc_count group_count (cdf_groups samples) g = samples_up_to samples (g_cyc_count g)"
  "range_sum g_cyc_count weighted_c (cdf_groups samples) g = cycles_up_to samples (g_cyc_count g)"
proof -
  have w: "count_where (\<lambda>_. True) (filter (\<lambda>s. s_cyc_count s = k) samples) * k
      = sum_list (map s_cyc_count (filter (\<lambda>s. s_cyc_count s = k) samples))" for k
    unfolding count_where_def by (induction samples) (auto simp: algebra_simps)
  let ?ks = "remdups (map s_cyc_count samples)"
  show "range_sum g_cyc_count group_count (cdf_groups samples) g = samples_up_to samples (g_cyc_count g)"
    using sum_groups [of ?ks s_cyc_count samples "\<lambda>k. k \<le> g_cyc_count g" "\<lambda>_. 1"]
    by (simp add: range_sum_def cdf_groups_def comp_def Let_def sum_list_ones samples_up_to_def cong: if_cong)
  show "range_sum g_cyc_count weighted_c (cdf_groups samples) g = cycles_up_to samples (g_cyc_count g)"
    using sum_groups [of ?ks s_cyc_count samples "\<lambda>k. k \<le> g_cyc_count g" s_cyc_count]
    by (simp add: range_sum_def cdf_groups_def comp_def Let_def w cycles_up_to_def cong: if_cong)
qed

text \<open>The rows of \<open>range_cdf\<close>, by group.\<close>

definition total_cycles :: "cdf_sample list \<Rightarrow> int" where
  "total_cycles samples = sum_list (map s_cyc_count samples)"

lemma max_running_sums:
  assumes "samples \<noteq> []" "\<forall>s\<in>set samples. 0 \<le> s_cyc_count s"
  defines "ks \<equiv> map s_cyc_count samples"
  shows "sql_max (map (samples_up_to samples) (remdups ks)) = Some (int (length samples))"
    and "sql_max (map (cycles_up_to samples) (remdups ks)) = Some (total_cycles samples)"
proof -
  define m where "m = Max (set ks)"
  have m: "m \<in> set ks" "\<forall>k\<in>set ks. k \<le> m" using assms(1) by (simp_all add: m_def ks_def)
  have all: "filter (\<lambda>s. s_cyc_count s \<le> m) samples = samples"
    using m(2) by (auto simp: filter_id_conv ks_def)
  have "samples_up_to samples m = int (length samples)" "cycles_up_to samples m = total_cycles samples"
    by (simp_all add: samples_up_to_def count_where_def cycles_up_to_def total_cycles_def all)
  moreover have "samples_up_to samples k \<le> int (length samples)" for k
    by (simp add: samples_up_to_def count_where_def)
  moreover have "cycles_up_to samples k \<le> total_cycles samples" for k
    using assms(2) unfolding cycles_up_to_def total_cycles_def by (induction samples) auto
  ultimately show "sql_max (map (samples_up_to samples) (remdups ks)) = Some (int (length samples))"
    and "sql_max (map (cycles_up_to samples) (remdups ks)) = Some (total_cycles samples)"
    using m(1) by (auto simp: sql_max_Some_iff intro!: image_eqI [of _ _ m])
qed

lemma cdf_group_sel [simp]:
  "g_cyc_count (cdf_cum_of fl t1 g) = g_cyc_count g"
  "nonnormalized_cdf (cdf_cum_of fl t1 g) = range_sum g_cyc_count group_count t1 g"
  "nonnormalized_weighted_cdf (cdf_cum_of fl t1 g) = range_sum g_cyc_count weighted_c t1 g"
  "perc_insns_5 (cdf_cum_of fl t1 g) = real_div fl (c_insns_5 g) (group_count g)"
  "perc_insns_25 (cdf_cum_of fl t1 g) = real_div fl (c_insns_25 g) (group_count g)"
  "perc_insns_125 (cdf_cum_of fl t1 g) = real_div fl (c_insns_125 g) (group_count g)"
  by (simp_all add: cdf_cum_of_def cdf_group.extend_def)

lemma range_cdf_row:
  assumes "r \<in> set (range_cdf fl samples)" "\<forall>s\<in>set samples. 0 \<le> s_cyc_count s"
  obtains g where "g \<in> set (cdf_groups samples)" "cdf_cyc_count r = g_cyc_count g"
    "cdf r = real_div fl (samples_up_to samples (g_cyc_count g)) (int (length samples))"
    "weighted_cdf r = real_div fl (cycles_up_to samples (g_cyc_count g)) (total_cycles samples)"
    "perc_insns_5_stacked r = real_div fl (c_insns_5 g) (group_count g)"
    "perc_insns_25_stacked r = sql_minus fl (real_div fl (c_insns_25 g) (group_count g)) (real_div fl (c_insns_5 g) (group_count g))"
    "perc_insns_125_stacked r = sql_minus fl (real_div fl (c_insns_125 g) (group_count g)) (real_div fl (c_insns_25 g) (group_count g))"
    "perc_insns_125_plus_stacked r = sql_minus fl (Some 1) (real_div fl (c_insns_125 g) (group_count g))"
proof -
  let ?t1 = "cdf_groups samples"
  obtain g where g: "g \<in> set ?t1" "r = cdf_row_of fl (map (cdf_cum_of fl ?t1) ?t1) (cdf_cum_of fl ?t1 g)"
    using assms(1) by (auto simp: range_cdf_def Let_def)
  then have ne: "samples \<noteq> []" by (auto simp: cdf_groups_def)
  have "map nonnormalized_cdf (map (cdf_cum_of fl ?t1) ?t1) = map (samples_up_to samples) (map g_cyc_count ?t1)"
    "map nonnormalized_weighted_cdf (map (cdf_cum_of fl ?t1) ?t1) = map (cycles_up_to samples) (map g_cyc_count ?t1)"
    by (simp_all add: group_sums)
  note maxes = this [unfolded group_keys, THEN arg_cong, of sql_max, unfolded max_running_sums [OF ne assms(2)]]
  show thesis
    by (rule that [OF g(1)]) (simp_all add: g(2) cdf_row_of_def maxes group_sums del: map_map)
qed

lemma samples_up_to_bounds: "0 \<le> samples_up_to samples k" "samples_up_to samples k \<le> int (length samples)"
  by (simp_all add: samples_up_to_def count_where_def)

lemma samples_up_to_mono: "j \<le> k \<Longrightarrow> samples_up_to samples j \<le> samples_up_to samples k"
  unfolding samples_up_to_def by (rule count_where_mono) simp

lemma cycles_up_to_bounds:
  assumes "\<forall>t\<in>set samples. 0 \<le> s_cyc_count t"
  shows "0 \<le> cycles_up_to samples k" "cycles_up_to samples k \<le> total_cycles samples"
  using assms unfolding cycles_up_to_def total_cycles_def by (induction samples) auto

lemma cycles_up_to_mono:
  "\<forall>t\<in>set samples. 0 \<le> s_cyc_count t \<Longrightarrow> j \<le> k \<Longrightarrow> cycles_up_to samples j \<le> cycles_up_to samples k"
  unfolding cycles_up_to_def by (induction samples) auto

lemma up_to_all:
  assumes "\<forall>t\<in>set samples. s_cyc_count t \<le> k"
  shows "samples_up_to samples k = int (length samples)" "cycles_up_to samples k = total_cycles samples"
proof -
  have "filter (\<lambda>s. s_cyc_count s \<le> k) samples = samples" using assms by (simp add: filter_id_conv)
  then show "samples_up_to samples k = int (length samples)" "cycles_up_to samples k = total_cycles samples"
    by (simp_all add: samples_up_to_def count_where_def cycles_up_to_def total_cycles_def)
qed

context rounding begin

lemma real_div_share:
  assumes "0 \<le> a" "a \<le> b" "b \<le> n" "1 \<le> n"
  shows "\<exists>x y. real_div fl a n = Some x \<and> real_div fl b n = Some y \<and> 0 \<le> x \<and> x \<le> y \<and> y \<le> 1"
proof -
  have n: "0 < fl (of_int n)" using fl_pos_int [OF assms(4)] by auto
  have "0 \<le> fl (of_int a)" "fl (of_int a) \<le> fl (of_int b)" "fl (of_int b) \<le> fl (of_int n)"
    using assms by (simp_all add: fl_nonneg fl_mono)
  then have "0 \<le> fl (of_int a) / fl (of_int n)" "fl (of_int a) / fl (of_int n) \<le> fl (of_int b) / fl (of_int n)"
    "fl (of_int b) / fl (of_int n) \<le> 1"
    using n by (simp_all add: divide_right_mono)
  then show ?thesis
    using n fl_nonneg fl_mono fl_unit by (simp add: real_div_def sql_div_def)
qed

lemma real_div_self: "1 \<le> n \<Longrightarrow> real_div fl n n = Some 1"
  using fl_pos_int [of n] fl_one by (simp add: real_div_def sql_div_def)

end

text \<open>A group's counts, bucket by bucket.\<close>

lemma group_split:
  assumes "g \<in> set (cdf_groups samples)"
  shows "count_where (\<lambda>t. s_cyc_count t = g_cyc_count g) samples = group_count g"
    "count_where (\<lambda>t. s_cyc_count t = g_cyc_count g \<and> s_insn_count t \<le> 1) samples = c_insns_5 g"
    "count_where (\<lambda>t. s_cyc_count t = g_cyc_count g \<and> 1 < s_insn_count t \<and> s_insn_count t \<le> 20) samples
      = c_insns_25 g - c_insns_5 g"
    "count_where (\<lambda>t. s_cyc_count t = g_cyc_count g \<and> 20 < s_insn_count t \<and> s_insn_count t \<le> 100) samples
      = c_insns_125 g - c_insns_25 g"
    "count_where (\<lambda>t. s_cyc_count t = g_cyc_count g \<and> 100 < s_insn_count t) samples
      = group_count g - c_insns_125 g"
proof -
  have "\<exists>k. g = \<lparr>g_cyc_count = k, group_count = count_where (\<lambda>t. s_cyc_count t = k) samples,
      weighted_c = count_where (\<lambda>t. s_cyc_count t = k) samples * k,
      c_insns_5 = count_where (\<lambda>t. s_cyc_count t = k \<and> s_insn_count t \<le> 1) samples,
      c_insns_25 = count_where (\<lambda>t. s_cyc_count t = k \<and> s_insn_count t \<le> 20) samples,
      c_insns_125 = count_where (\<lambda>t. s_cyc_count t = k \<and> s_insn_count t \<le> 100) samples\<rparr>"
    using assms by (auto simp: cdf_groups_def Let_def count_where_def)
  then obtain k where g: "g = \<lparr>g_cyc_count = k, group_count = count_where (\<lambda>t. s_cyc_count t = k) samples,
      weighted_c = count_where (\<lambda>t. s_cyc_count t = k) samples * k,
      c_insns_5 = count_where (\<lambda>t. s_cyc_count t = k \<and> s_insn_count t \<le> 1) samples,
      c_insns_25 = count_where (\<lambda>t. s_cyc_count t = k \<and> s_insn_count t \<le> 20) samples,
      c_insns_125 = count_where (\<lambda>t. s_cyc_count t = k \<and> s_insn_count t \<le> 100) samples\<rparr>" ..
  show "count_where (\<lambda>t. s_cyc_count t = g_cyc_count g) samples = group_count g"
    "count_where (\<lambda>t. s_cyc_count t = g_cyc_count g \<and> s_insn_count t \<le> 1) samples = c_insns_5 g"
    by (simp_all add: g)
  show "count_where (\<lambda>t. s_cyc_count t = g_cyc_count g \<and> 1 < s_insn_count t \<and> s_insn_count t \<le> 20) samples
      = c_insns_25 g - c_insns_5 g"
    "count_where (\<lambda>t. s_cyc_count t = g_cyc_count g \<and> 20 < s_insn_count t \<and> s_insn_count t \<le> 100) samples
      = c_insns_125 g - c_insns_25 g"
    "count_where (\<lambda>t. s_cyc_count t = g_cyc_count g \<and> 100 < s_insn_count t) samples
      = group_count g - c_insns_125 g"
    unfolding g count_where_def by (induction samples) auto
qed

section \<open>Properties\<close>

definition demo_cdf_samples :: "cdf_sample list" where
  "demo_cdf_samples = map (\<lambda>(i, k). \<lparr>s_insn_count = i, s_cyc_count = k, cum_cycles = 0, cum_cycles_perc = None\<rparr>)
     [(0, 3), (30, 3), (150, 9), (5, 4)]"

text \<open>C19: \<open>range_cdf\<close> is a distribution function in the arithmetic it is computed in (IEEE single
  precision): both columns lie between 0 and 1, grow with the duration, and are exactly 1 at the
  longest sample.\<close>

theorem range_cdf_shape:
  assumes "\<forall>t\<in>set samples. 0 \<le> s_cyc_count t" and "0 < total_cycles samples"
    and "r \<in> set (range_cdf f32 samples)" and "s \<in> set (range_cdf f32 samples)"
    and "cdf_cyc_count r \<le> cdf_cyc_count s"
  shows "\<exists>x y u v. cdf r = Some x \<and> cdf s = Some y \<and> weighted_cdf r = Some u \<and> weighted_cdf s = Some v
    \<and> 0 \<le> x \<and> x \<le> y \<and> y \<le> 1 \<and> 0 \<le> u \<and> u \<le> v \<and> v \<le> 1
    \<and> ((\<forall>t\<in>set samples. s_cyc_count t \<le> cdf_cyc_count s) \<longrightarrow> y = 1 \<and> v = 1)"
proof -
  obtain g :: cdf_group where g: "cdf_cyc_count r = g_cyc_count g"
    "cdf r = real_div f32 (samples_up_to samples (g_cyc_count g)) (int (length samples))"
    "weighted_cdf r = real_div f32 (cycles_up_to samples (g_cyc_count g)) (total_cycles samples)"
    by (rule range_cdf_row [OF assms(3,1)]) blast
  obtain h :: cdf_group where h: "cdf_cyc_count s = g_cyc_count h"
    "cdf s = real_div f32 (samples_up_to samples (g_cyc_count h)) (int (length samples))"
    "weighted_cdf s = real_div f32 (cycles_up_to samples (g_cyc_count h)) (total_cycles samples)"
    by (rule range_cdf_row [OF assms(4,1)]) blast
  have ne: "1 \<le> int (length samples)" using assms(2) by (cases samples) (auto simp: total_cycles_def)
  have le: "g_cyc_count g \<le> g_cyc_count h" using assms(5) g(1) h(1) by simp
  obtain x y where xy: "cdf r = Some x" "cdf s = Some y" "0 \<le> x" "x \<le> y" "y \<le> 1"
    using f32.real_div_share [OF samples_up_to_bounds(1) samples_up_to_mono [OF le] samples_up_to_bounds(2) ne] g(2) h(2)
    by metis
  obtain u v where uv: "weighted_cdf r = Some u" "weighted_cdf s = Some v" "0 \<le> u" "u \<le> v" "v \<le> 1"
    using f32.real_div_share [OF cycles_up_to_bounds(1) cycles_up_to_mono [OF _ le] cycles_up_to_bounds(2)] assms(1,2) g(3) h(3)
    by (metis int_one_le_iff_zero_less)
  have "y = 1 \<and> v = 1" if "\<forall>t\<in>set samples. s_cyc_count t \<le> cdf_cyc_count s"
    using that up_to_all [of samples "g_cyc_count h"] xy(2) uv(2) h ne assms(2) f32.real_div_self by simp
  with xy uv show ?thesis by blast
qed

theorem range_cdf_shape_witness:
  "\<exists>y v. cdf (hd (tl (range_cdf f32 demo_cdf_samples))) = Some y \<and> weighted_cdf (hd (tl (range_cdf f32 demo_cdf_samples))) = Some v
    \<and> y = 1 \<and> v = 1"
proof -
  let ?r = "hd (range_cdf f32 demo_cdf_samples)" and ?s = "hd (tl (range_cdf f32 demo_cdf_samples))"
  have len: "map cdf_cyc_count (range_cdf f32 demo_cdf_samples) = [3, 9, 4]" by code_simp
  then obtain a b z where "range_cdf f32 demo_cdf_samples = [a, b, z]" by (auto simp: Cons_eq_map_conv)
  moreover have "\<forall>t\<in>set demo_cdf_samples. 0 \<le> s_cyc_count t \<and> s_cyc_count t \<le> 9"
    "0 < total_cycles demo_cdf_samples" by (simp_all add: demo_cdf_samples_def total_cycles_def)
  ultimately show ?thesis
    using range_cdf_shape [of demo_cdf_samples ?r ?s] len by auto
qed

text \<open>C18: In exact arithmetic \<open>cdf\<close> is the fraction of samples that are at most as long, and
  \<open>weighted_cdf\<close> the fraction of cycles spent in them; the four stacked columns are the fractions of
  the samples of that duration with at most 1, 2 to 20, 21 to 100, and more than 100 instructions,
  and add up to 1.\<close>

theorem range_cdf_exact:
  assumes "\<forall>t\<in>set samples. 0 \<le> s_cyc_count t" and "0 < total_cycles samples"
    and "r \<in> set (range_cdf (\<lambda>x. x) samples)"
  defines "k \<equiv> cdf_cyc_count r"
  defines "share \<equiv> \<lambda>P. of_int (count_where (\<lambda>t. s_cyc_count t = k \<and> P (s_insn_count t)) samples)
      / (of_int (count_where (\<lambda>t. s_cyc_count t = k) samples) :: rat)"
  shows "cdf r = Some (of_int (count_where (\<lambda>t. s_cyc_count t \<le> k) samples) / of_nat (length samples))
    \<and> weighted_cdf r = Some (of_int (sum_list (map s_cyc_count (filter (\<lambda>t. s_cyc_count t \<le> k) samples)))
        / of_int (total_cycles samples))
    \<and> perc_insns_5_stacked r = Some (share (\<lambda>i. i \<le> 1))
    \<and> perc_insns_25_stacked r = Some (share (\<lambda>i. 1 < i \<and> i \<le> 20))
    \<and> perc_insns_125_stacked r = Some (share (\<lambda>i. 20 < i \<and> i \<le> 100))
    \<and> perc_insns_125_plus_stacked r = Some (share (\<lambda>i. 100 < i))
    \<and> share (\<lambda>i. i \<le> 1) + share (\<lambda>i. 1 < i \<and> i \<le> 20) + share (\<lambda>i. 20 < i \<and> i \<le> 100) + share (\<lambda>i. 100 < i) = 1"
proof -
  obtain g :: cdf_group where g: "g \<in> set (cdf_groups samples)" "cdf_cyc_count r = g_cyc_count g"
    "cdf r = real_div (\<lambda>x. x) (samples_up_to samples (g_cyc_count g)) (int (length samples))"
    "weighted_cdf r = real_div (\<lambda>x. x) (cycles_up_to samples (g_cyc_count g)) (total_cycles samples)"
    "perc_insns_5_stacked r = real_div (\<lambda>x. x) (c_insns_5 g) (group_count g)"
    "perc_insns_25_stacked r = sql_minus (\<lambda>x. x) (real_div (\<lambda>x. x) (c_insns_25 g) (group_count g)) (real_div (\<lambda>x. x) (c_insns_5 g) (group_count g))"
    "perc_insns_125_stacked r = sql_minus (\<lambda>x. x) (real_div (\<lambda>x. x) (c_insns_125 g) (group_count g)) (real_div (\<lambda>x. x) (c_insns_25 g) (group_count g))"
    "perc_insns_125_plus_stacked r = sql_minus (\<lambda>x. x) (Some 1) (real_div (\<lambda>x. x) (c_insns_125 g) (group_count g))"
    by (rule range_cdf_row [OF assms(3,1)]) blast
  have ne: "samples \<noteq> []" using assms(2) by (auto simp: total_cycles_def)
  have pos: "1 \<le> group_count g" by (rule group_count_pos [OF g(1)])
  note grp = group_split [OF g(1), folded g(2), folded k_def]
  have "cdf r = Some (of_int (count_where (\<lambda>t. s_cyc_count t \<le> k) samples) / of_nat (length samples))"
    using ne by (simp add: g(3) k_def g(2) real_div_def sql_div_def samples_up_to_def)
  moreover have "weighted_cdf r = Some (of_int (sum_list (map s_cyc_count (filter (\<lambda>t. s_cyc_count t \<le> k) samples)))
        / of_int (total_cycles samples))"
    using assms(2) by (simp add: g(4) k_def g(2) real_div_def sql_div_def cycles_up_to_def)
  moreover have "perc_insns_5_stacked r = Some (share (\<lambda>i. i \<le> 1))"
    "perc_insns_25_stacked r = Some (share (\<lambda>i. 1 < i \<and> i \<le> 20))"
    "perc_insns_125_stacked r = Some (share (\<lambda>i. 20 < i \<and> i \<le> 100))"
    "perc_insns_125_plus_stacked r = Some (share (\<lambda>i. 100 < i))"
    using pos by (simp_all add: g(5-8) real_div_def sql_div_def sql_minus_def share_def grp diff_divide_distrib [symmetric] diff_divide_eq_iff divide_eq_eq)
  moreover have "share (\<lambda>i. i \<le> 1) + share (\<lambda>i. 1 < i \<and> i \<le> 20) + share (\<lambda>i. 20 < i \<and> i \<le> 100) + share (\<lambda>i. 100 < i) = 1"
    using pos by (simp add: share_def grp add_divide_distrib [symmetric] del: of_int_add) 
  ultimately show ?thesis by blast
qed

lemma demo_cdf_ok: "\<forall>t\<in>set demo_cdf_samples. 0 \<le> s_cyc_count t" "0 < total_cycles demo_cdf_samples"
  by (simp_all add: demo_cdf_samples_def total_cycles_def)

theorem range_cdf_exact_witness:
  "cdf (hd (range_cdf (\<lambda>x. x) demo_cdf_samples)) = Some (2 / 4)
    \<and> perc_insns_5_stacked (hd (range_cdf (\<lambda>x. x) demo_cdf_samples)) = Some (1 / 2)"
proof -
  let ?r = "hd (range_cdf (\<lambda>x. x) demo_cdf_samples)"
  have "map cdf_cyc_count (range_cdf (\<lambda>x. x) demo_cdf_samples) = [3, 9, 4]" by code_simp
  then have "?r \<in> set (range_cdf (\<lambda>x. x) demo_cdf_samples)" "cdf_cyc_count ?r = 3"
    by (auto simp: Cons_eq_map_conv)
  then show ?thesis
    using range_cdf_exact [OF demo_cdf_ok, of ?r] by (simp add: demo_cdf_samples_def count_where_def)
qed

text \<open>In single precision the four stacked columns are still fractions: none is negative and none
  exceeds 1, so the filled areas of the plot never cross.\<close>

theorem stacked_shares_nonneg:
  assumes "\<forall>t\<in>set samples. 0 \<le> s_cyc_count t" and "r \<in> set (range_cdf f32 samples)"
    and "x \<in> {perc_insns_5_stacked r, perc_insns_25_stacked r, perc_insns_125_stacked r, perc_insns_125_plus_stacked r}"
  shows "\<exists>p. x = Some p \<and> 0 \<le> p \<and> p \<le> 1"
proof -
  obtain g :: cdf_group where g: "g \<in> set (cdf_groups samples)"
    "perc_insns_5_stacked r = real_div f32 (c_insns_5 g) (group_count g)"
    "perc_insns_25_stacked r = sql_minus f32 (real_div f32 (c_insns_25 g) (group_count g)) (real_div f32 (c_insns_5 g) (group_count g))"
    "perc_insns_125_stacked r = sql_minus f32 (real_div f32 (c_insns_125 g) (group_count g)) (real_div f32 (c_insns_25 g) (group_count g))"
    "perc_insns_125_plus_stacked r = sql_minus f32 (Some 1) (real_div f32 (c_insns_125 g) (group_count g))"
    by (rule range_cdf_row [OF assms(2,1)]) blast
  note counts = group_counts [OF g(1)] and pos = group_count_pos [OF g(1)]
  obtain p q where pq: "real_div f32 (c_insns_5 g) (group_count g) = Some p"
      "real_div f32 (c_insns_25 g) (group_count g) = Some q" "0 \<le> p" "p \<le> q" "q \<le> 1"
    using f32.real_div_share [of "c_insns_5 g" "c_insns_25 g" "group_count g"] counts pos by force
  obtain w where w: "real_div f32 (c_insns_125 g) (group_count g) = Some w" "q \<le> w" "w \<le> 1"
    using f32.real_div_share [of "c_insns_25 g" "c_insns_125 g" "group_count g"] counts pos pq(2) by force
  have unit: "0 \<le> f32 (y - z) \<and> f32 (y - z) \<le> 1" if "0 \<le> z" "z \<le> y" "y \<le> 1" for y z
    using that by (intro f32.fl_unit) simp_all
  show ?thesis
    using assms(3) pq w unit [of p q] unit [of q w] unit [of w 1] by (auto simp: g(2-5) sql_minus_def)
qed

theorem stacked_shares_nonneg_witness:
  "\<exists>p. perc_insns_25_stacked (hd (range_cdf f32 demo_cdf_samples)) = Some p \<and> 0 \<le> p \<and> p \<le> 1"
proof -
  have "range_cdf f32 demo_cdf_samples \<noteq> []" by (simp add: range_cdf_def cdf_groups_def demo_cdf_samples_def Let_def)
  then show ?thesis using stacked_shares_nonneg [OF demo_cdf_ok(1) hd_in_set] by blast
qed

text \<open>A property that passes from a number to the smaller ones is a bound.\<close>

lemma antitone_threshold:
  fixes K :: "int set"
  assumes "finite K" "\<And>j k. j \<in> K \<Longrightarrow> k \<in> K \<Longrightarrow> j \<le> k \<Longrightarrow> P k \<Longrightarrow> P j"
  obtains L where "\<forall>k\<in>K. P k \<longleftrightarrow> k < L"
proof (cases "{k \<in> K. \<not> P k} = {}")
  case True
  have "k < Max (insert 0 K) + 1" if "k \<in> K" for k
    using Max_ge [of "insert 0 K" k] that assms(1) by simp
  then have "\<forall>k\<in>K. P k \<longleftrightarrow> k < Max (insert 0 K) + 1" using True by blast
  then show thesis by (rule that)
next
  case False
  let ?L = "Min {k \<in> K. \<not> P k}"
  have L: "?L \<in> {k \<in> K. \<not> P k}" using False assms(1) by (intro Min_in) auto
  have "P k \<longleftrightarrow> k < ?L" if "k \<in> K" for k
  proof
    show "k < ?L" if "P k" using L assms(2) [of ?L k] \<open>k \<in> K\<close> that by (auto simp: not_le [symmetric])
    show "P k" if "k < ?L" using that Min_le [of "{k \<in> K. \<not> P k}" k] \<open>k \<in> K\<close> assms(1) by fastforce
  qed
  then show thesis using that by blast
qed

lemma cycles_at_least_attained:
  "cycles_at_least t1 L = 0 \<or> (\<exists>q\<in>set t1. L \<le> snd q \<and> cycles_at_least t1 L = cycles_at_least t1 (snd q))"
proof (cases "filter (\<lambda>q. L \<le> snd q) t1 = []")
  case False
  define m where "m = Min (snd ` set (filter (\<lambda>q. L \<le> snd q) t1))"
  then have "m \<in> snd ` set (filter (\<lambda>q. L \<le> snd q) t1)"
    using False by (metis Min_in finite_imageI finite_set image_is_empty set_empty)
  then obtain q where q: "q \<in> set t1" "m = snd q" "L \<le> snd q" by auto
  have "m \<le> k" if "k \<in> snd ` set (filter (\<lambda>q. L \<le> snd q) t1)" for k
    using that by (simp add: m_def)
  then have "filter (\<lambda>q. L \<le> snd q) t1 = filter (\<lambda>q. m \<le> snd q) t1"
    using q(2,3) by (intro filter_cong) auto
  then show ?thesis using q unfolding cycles_at_least_def by metis
qed (simp add: cycles_at_least_def)

context rounding begin

lemma share_above_antitone:
  assumes "\<forall>q\<in>set t1. 0 < snd q" "r \<in> set t1" "j \<le> k" "share_above fl thr t1 k"
  shows "share_above fl thr t1 j"
proof -
  have "cycles_at_least t1 k \<le> cycles_at_least t1 j"
    using assms(1,3) by (intro cycles_at_least_antimono) (auto intro: less_imp_le)
  from real_div_share [OF cycles_at_least_bounds(1) this cycles_at_least_bounds(2,3), OF assms(1) assms(1) assms(1,2)]
  show ?thesis using assms(4) by (auto simp: share_above_def)
qed

lemma samples_for_cdf_cut:
  assumes "\<forall>r\<in>set ranges. measured_range r \<longrightarrow> 0 < cyc_count r"
  obtains L where "\<forall>q\<in>set (cdf_t1 ranges). share_above fl thr (cdf_t1 ranges) (snd q) \<longleftrightarrow> snd q < L"
    "map (\<lambda>s. (s_insn_count s, s_cyc_count s)) (samples_for_cdf fl thr ranges)
      = map (\<lambda>r. (insn_count r, cyc_count r)) (filter (\<lambda>r. measured_range r \<and> cyc_count r < L) ranges)"
proof -
  let ?t1 = "cdf_t1 ranges"
  have pos: "\<forall>q\<in>set ?t1. 0 < snd q" using assms by (auto simp: cdf_t1_measured)
  obtain L where L: "\<forall>k\<in>snd ` set ?t1. share_above fl thr ?t1 k \<longleftrightarrow> k < L"
    by (rule antitone_threshold [of "snd ` set ?t1" "share_above fl thr ?t1"]) (auto intro: share_above_antitone [OF pos])
  have "filter (\<lambda>q. share_above fl thr ?t1 (snd q)) ?t1 = filter (\<lambda>q. snd q < L) ?t1"
    using L by (intro filter_cong) auto
  also have "\<dots> = map (\<lambda>r. (insn_count r, cyc_count r)) (filter (\<lambda>r. measured_range r \<and> cyc_count r < L) ranges)"
    unfolding cdf_t1_measured by (induction ranges) auto
  finally show thesis using L by (intro that) (auto simp: samples_for_cdf_pairs)
qed

end

text \<open>C33: \<open>samples_for_cdf\<close> first drops the ranges with a NULL or \<open>trace begin\<close> branch type,
  whatever their length. Of the measured ranges that remain it discards the longest only: there is
  a duration such that the view is exactly the measured ranges shorter than it, in order. In exact
  arithmetic this is the right duration: the discarded ranges take at most the configured share of
  the measured cycles, and discarding the ranges of any kept duration as well would exceed it.\<close>

theorem longest_discarded:
  assumes "\<forall>r\<in>set ranges. measured_range r \<longrightarrow> 0 < cyc_count r" and "0 \<le> thr"
  defines "measured \<equiv> \<lambda>P. sum_list (map cyc_count (filter (\<lambda>r. measured_range r \<and> P (cyc_count r)) ranges))"
  shows "(\<exists>L. map (\<lambda>s. (s_insn_count s, s_cyc_count s)) (samples_for_cdf f32 thr ranges)
        = map (\<lambda>r. (insn_count r, cyc_count r)) (filter (\<lambda>r. measured_range r \<and> cyc_count r < L) ranges))
    \<and> (\<exists>L. map (\<lambda>s. (s_insn_count s, s_cyc_count s)) (samples_for_cdf (\<lambda>x. x) thr ranges)
          = map (\<lambda>r. (insn_count r, cyc_count r)) (filter (\<lambda>r. measured_range r \<and> cyc_count r < L) ranges)
        \<and> of_int (measured (\<lambda>k. L \<le> k)) \<le> thr * of_int (measured (\<lambda>_. True))
        \<and> (\<forall>r\<in>set ranges. measured_range r \<and> cyc_count r < L \<longrightarrow>
              thr * of_int (measured (\<lambda>_. True)) < of_int (measured (\<lambda>k. cyc_count r \<le> k))))"
proof
  show "\<exists>L. map (\<lambda>s. (s_insn_count s, s_cyc_count s)) (samples_for_cdf f32 thr ranges)
      = map (\<lambda>r. (insn_count r, cyc_count r)) (filter (\<lambda>r. measured_range r \<and> cyc_count r < L) ranges)"
    using f32.samples_for_cdf_cut [OF assms(1)] by metis
next
  let ?t1 = "cdf_t1 ranges"
  have pos: "\<forall>q\<in>set ?t1. 0 < snd q" using assms(1) by (auto simp: cdf_t1_measured)
  have least: "cycles_at_least ?t1 k = measured (\<lambda>j. k \<le> j)" for k
    unfolding cycles_at_least_def measured_def cdf_t1_measured by (induction ranges) auto
  have total: "sum_list (map snd ?t1) = measured (\<lambda>_. True)"
    unfolding measured_def cdf_t1_measured by (simp add: comp_def)
  have share: "share_above (\<lambda>x. x) thr ?t1 k \<longleftrightarrow> thr * of_int (measured (\<lambda>_. True)) < of_int (measured (\<lambda>j. k \<le> j))"
    if "q \<in> set ?t1" for k q
    using cycles_at_least_bounds(3) [OF pos that]
    by (simp add: share_above_def real_div_def sql_div_def pos_less_divide_eq least total)
  obtain L where L: "\<forall>q\<in>set ?t1. share_above (\<lambda>x. x) thr ?t1 (snd q) \<longleftrightarrow> snd q < L"
    "map (\<lambda>s. (s_insn_count s, s_cyc_count s)) (samples_for_cdf (\<lambda>x. x) thr ranges)
      = map (\<lambda>r. (insn_count r, cyc_count r)) (filter (\<lambda>r. measured_range r \<and> cyc_count r < L) ranges)"
    by (rule exact.samples_for_cdf_cut [OF assms(1)])
  have kept: "thr * of_int (measured (\<lambda>_. True)) < of_int (measured (\<lambda>k. cyc_count r \<le> k))"
    if "r \<in> set ranges" "measured_range r" "cyc_count r < L" for r
  proof -
    have "(insn_count r, cyc_count r) \<in> set ?t1" using that by (auto simp: cdf_t1_measured)
    then show ?thesis using L(1) share that(3) by fastforce
  qed
  have dropped: "of_int (measured (\<lambda>k. L \<le> k)) \<le> thr * (of_int (measured (\<lambda>_. True)) :: rat)"
  proof (cases "cycles_at_least ?t1 L = 0")
    case True
    moreover have "0 \<le> measured (\<lambda>_. True)" using cycles_at_least_bounds(1,2) [OF pos] total by (metis order_trans)
    ultimately show ?thesis using assms(2) least [of L] by simp
  next
    case False
    then obtain q where "q \<in> set ?t1" "L \<le> snd q" "cycles_at_least ?t1 L = cycles_at_least ?t1 (snd q)"
      using cycles_at_least_attained by blast
    then show ?thesis using L(1) share least by fastforce
  qed
  show "\<exists>L. map (\<lambda>s. (s_insn_count s, s_cyc_count s)) (samples_for_cdf (\<lambda>x. x) thr ranges)
          = map (\<lambda>r. (insn_count r, cyc_count r)) (filter (\<lambda>r. measured_range r \<and> cyc_count r < L) ranges)
        \<and> of_int (measured (\<lambda>k. L \<le> k)) \<le> thr * of_int (measured (\<lambda>_. True))
        \<and> (\<forall>r\<in>set ranges. measured_range r \<and> cyc_count r < L \<longrightarrow>
              thr * of_int (measured (\<lambda>_. True)) < of_int (measured (\<lambda>k. cyc_count r \<le> k)))"
    using L(2) dropped kept by blast
qed

text \<open>Samples of 1, 9, 40 and 50 cycles: with a threshold of 60 percent the longest is dropped.\<close>

definition demo_cdf_ranges :: "trange list" where
  "demo_cdf_ranges = map (\<lambda>(b, k). \<lparr>start_sample_id = None, start_time = None, start_offset_time = None,
     start_cum_insns = None, start_cum_cyc = None, end_sample_id = 0, end_time = 0, end_offset_time = 0,
     end_cum_insns = 0, end_cum_cyc = 0, end_sample_row_number = 0, insn_count = 1, cyc_count = k,
     event = None, symbol = None, to_symbol = None, branch_type_name = b\<rparr>)
   [(Some ''call'', 1), (Some ''return'', 50), (None, 700), (Some ''trace begin'', 800), (Some ''call'', 9), (Some ''syscall'', 40)]"

theorem longest_discarded_witness:
  "map s_cyc_count (samples_for_cdf (\<lambda>x. x) (6/10) demo_cdf_ranges) = [1, 9, 40]"
proof -
  have "\<forall>r\<in>set demo_cdf_ranges. measured_range r \<longrightarrow> 0 < cyc_count r" by (simp add: demo_cdf_ranges_def)
  then obtain L where L: "map (\<lambda>s. (s_insn_count s, s_cyc_count s)) (samples_for_cdf (\<lambda>x. x) (6/10) demo_cdf_ranges)
      = map (\<lambda>r. (insn_count r, cyc_count r)) (filter (\<lambda>r. measured_range r \<and> cyc_count r < L) demo_cdf_ranges)"
    "of_int (sum_list (map cyc_count (filter (\<lambda>r. measured_range r \<and> L \<le> cyc_count r) demo_cdf_ranges)))
      \<le> (6/10 :: rat) * of_int (sum_list (map cyc_count (filter measured_range demo_cdf_ranges)))"
    "\<forall>r\<in>set demo_cdf_ranges. measured_range r \<and> cyc_count r < L \<longrightarrow>
      (6/10 :: rat) * of_int (sum_list (map cyc_count (filter measured_range demo_cdf_ranges)))
        < of_int (sum_list (map cyc_count (filter (\<lambda>q. measured_range q \<and> cyc_count r \<le> cyc_count q) demo_cdf_ranges)))"
    using longest_discarded [of demo_cdf_ranges "6/10"] by auto
  then have "40 < L" "L \<le> 50"
    by (auto simp: demo_cdf_ranges_def measured_range_def split: if_splits)
  then have "map snd (map (\<lambda>s. (s_insn_count s, s_cyc_count s)) (samples_for_cdf (\<lambda>x. x) (6/10) demo_cdf_ranges)) = [1, 9, 40]"
    unfolding L(1) by (simp add: demo_cdf_ranges_def measured_range_def)
  then show ?thesis by (simp add: comp_def)
qed

end
