(* ===== verification/Sql_Util.thy ===== *)
theory Sql_Util
  imports Event_Props Cdf
begin

text \<open>
  \<open>SqlUtil\<close> as an object: the connection, the attributes \<open>configure\<close> and \<open>time_series_prep\<close> set,
  and the database its methods read and replace tables in. A method stops at its first error and
  keeps what it has done so far; \<open>events_prep\<close> may also not return. The notebook \<open>pt.ipy\<close> is one
  sequence of calls (\<open>notebook_calls\<close>); the step relation allows every order.
\<close>

section \<open>State\<close>

record util_db =
  db_samples :: "view_row list option"
  db_calls :: "trace_tables option"
  db_errors :: "error_row list option"
  timestamped :: "trange list option"
  bounds_table :: "time_bound list option"
  window_table :: "window_row list option"
  spans_table :: "ipc_span list option"
  cdf_view :: "rat option"
  cdf_table :: "cdf_row list option"
  event_db :: event_tables

text \<open>
  \<open>self_clock\<close> holds \<open>start_ns\<close>, \<open>start_cyc\<close>, \<open>end_ns\<close> and \<open>end_cyc\<close>, which one statement assigns, and
  \<open>ns_rate\<close>, which the next one does: \<open>has_rate\<close> says whether that attribute exists.
\<close>

record sql_util =
  conn_open :: bool
  config :: "util_config option"
  self_clock :: "clock option"
  has_rate :: bool
  database :: util_db

text \<open>\<open>SqlUtil(db_file)\<close> on a database the exporter has just written.\<close>

definition no_events :: event_tables where
  "no_events = \<lparr>full_syscalls_table = None, context_switches_table = None, on_cpu_table = None,
     have_errors_table = None, errors_temp = None\<rparr>"

definition fresh_util :: "view_row list option \<Rightarrow> trace_tables option \<Rightarrow> error_row list option \<Rightarrow> sql_util" where
  "fresh_util S C E = \<lparr>conn_open = True, config = None, self_clock = None, has_rate = False,
     database = \<lparr>db_samples = S, db_calls = C, db_errors = E, timestamped = None, bounds_table = None,
       window_table = None, spans_table = None, cdf_view = None, cdf_table = None, event_db = no_events\<rparr>\<rparr>"

section \<open>Methods\<close>

type_synonym method_step = "sql_util \<Rightarrow> py_error option \<times> sql_util"

definition and_then :: "method_step \<Rightarrow> method_step \<Rightarrow> method_step" where
  "and_then m k u = (case m u of (Some e, u') \<Rightarrow> (Some e, u') | (None, u') \<Rightarrow> k u')"

definition execute :: "(util_db \<Rightarrow> util_db result) \<Rightarrow> method_step" where
  "execute stmt u =
     (if conn_open u then
        (case stmt (database u) of Inl e \<Rightarrow> (Some e, u) | Inr d \<Rightarrow> (None, u\<lparr>database := d\<rparr>))
      else (Some ConnectionClosed, u))"

definition require :: "string \<Rightarrow> 'a option \<Rightarrow> ('a \<Rightarrow> 'b result) \<Rightarrow> 'b result" where
  "require name t f = (case t of None \<Rightarrow> Inl (CatalogError name) | Some x \<Rightarrow> f x)"

text \<open>An attribute that was never configured is formatted into the query as \<open>None\<close>.\<close>

definition with_config :: "util_config option \<Rightarrow> (util_config \<Rightarrow> 'b result) \<Rightarrow> 'b result" where
  "with_config c f = (case c of None \<Rightarrow> Inl (BinderError ''None'') | Some x \<Rightarrow> f x)"

definition configure :: "util_config \<Rightarrow> method_step" where
  "configure c u = (None, u\<lparr>config := Some c\<rparr>)"

definition ranges_script :: "util_db \<Rightarrow> util_db result" where
  "ranges_script d = require ''samples_view'' (db_samples d) (\<lambda>s. Inr (d\<lparr>timestamped := Some (timestamped_ranges s)\<rparr>))"

definition create_time_bounds :: "util_db \<Rightarrow> util_db result" where
  "create_time_bounds d = require ''timestamped_ranges'' (timestamped d) (\<lambda>rs.
     bind_res (setup_start f64 rs) (\<lambda>s. Inr (d\<lparr>bounds_table := Some (time_bounds s (s + 15000) rs)\<rparr>)))"

definition read_range_data :: "util_db \<Rightarrow> util_db result" where
  "read_range_data d = require ''time_bounds'' (bounds_table d) (\<lambda>tb.
     if list_all (\<lambda>b. tb_cyc b \<noteq> None) tb then Inr d else Inl ValueError)"

definition run_setup :: "bool \<Rightarrow> method_step" where
  "run_setup script_found u =
     (if script_found
      then and_then (execute ranges_script) (and_then (execute create_time_bounds) (execute read_range_data)) u
      else (Some OSError, u))"

definition create_sliding_window :: "(int option list \<Rightarrow> nat option) \<Rightarrow> util_config option \<Rightarrow> util_db \<Rightarrow> util_db result" where
  "create_sliding_window pick conf d = require ''timestamped_ranges'' (timestamped d) (\<lambda>rs.
     with_config conf (\<lambda>k. Inr (d\<lparr>window_table := Some (sliding_window pick (window_size_cyc k) rs)\<rparr>)))"

definition create_ipc_spans :: "(int option list \<Rightarrow> nat option) \<Rightarrow> util_config option \<Rightarrow> util_db \<Rightarrow> util_db result" where
  "create_ipc_spans pick conf d = require ''timestamped_ranges'' (timestamped d) (\<lambda>rs.
     with_config conf (\<lambda>k. bind_res (ipc_spans pick f32 (window_size_cyc k) rs)
       (\<lambda>out. Inr (d\<lparr>spans_table := Some out\<rparr>))))"

definition assign_clock :: "time_bound \<Rightarrow> time_bound \<Rightarrow> method_step" where
  "assign_clock b e u = (None, u\<lparr>self_clock := Some (clock_between b e (Option.bind (self_clock u) ns_rate))\<rparr>)"

definition assign_rate :: "time_bound \<Rightarrow> time_bound \<Rightarrow> method_step" where
  "assign_rate b e u = (case rate_of f64 b e of
      Inl err \<Rightarrow> (Some err, u)
    | Inr rate \<Rightarrow> (None, u\<lparr>self_clock := map_option (\<lambda>k. k\<lparr>ns_rate := rate\<rparr>) (self_clock u), has_rate := True\<rparr>))"

definition read_clock :: method_step where
  "read_clock u =
     (if conn_open u then
        (case require ''time_bounds'' (bounds_table (database u)) clock_bounds of
           Inl err \<Rightarrow> (Some err, u) | Inr (b, e) \<Rightarrow> and_then (assign_clock b e) (assign_rate b e) u)
      else (Some ConnectionClosed, u))"

definition run_time_series_prep :: "(int option list \<Rightarrow> nat option) \<Rightarrow> method_step" where
  "run_time_series_prep pick u =
     and_then (execute (create_sliding_window pick (config u)))
       (and_then (execute (create_ipc_spans pick (config u))) read_clock) u"

definition create_cdf_view :: "util_config option \<Rightarrow> util_db \<Rightarrow> util_db result" where
  "create_cdf_view conf d = require ''timestamped_ranges'' (timestamped d) (\<lambda>_.
     with_config conf (\<lambda>k. Inr (d\<lparr>cdf_view := Some (cumulative_longest_time_to_discard k)\<rparr>)))"

definition create_range_cdf :: "util_db \<Rightarrow> util_db result" where
  "create_range_cdf d = require ''samples_for_cdf'' (cdf_view d) (\<lambda>thr.
     require ''timestamped_ranges'' (timestamped d) (\<lambda>rs.
       Inr (d\<lparr>cdf_table := Some (range_cdf f32 (samples_for_cdf f32 thr rs))\<rparr>)))"

definition run_cdf_prep :: method_step where
  "run_cdf_prep u = and_then (execute (create_cdf_view (config u))) (execute create_range_cdf) u"

definition run_events_prep :: "(int option list \<Rightarrow> nat option) \<Rightarrow> sql_util \<Rightarrow> (py_error option \<times> sql_util) option" where
  "run_events_prep pick u =
     (case self_clock u of
        None \<Rightarrow> Some (Some (AttributeError ''end_ns''), u)
      | Some k \<Rightarrow>
          if \<not> conn_open u then Some (Some ConnectionClosed, u)
          else (case (db_calls (database u), timestamped (database u)) of
              (Some T, Some rs) \<Rightarrow>
                map_option (\<lambda>(e, ev). (e, u\<lparr>database := (database u)\<lparr>event_db := ev\<rparr>\<rparr>))
                  (events_prep pick (start_ns k) (end_ns k) T (db_errors (database u)) rs (event_db (database u)))
            | (None, _) \<Rightarrow> Some (Some (CatalogError ''calls''), u)
            | (_, None) \<Rightarrow> Some (Some (CatalogError ''timestamped_ranges''), u)))"

definition close :: method_step where
  "close u = (None, u\<lparr>conn_open := False\<rparr>)"

datatype util_call = Configure util_config | Setup | Time_series_prep | Cdf_prep | Events_prep | Close

definition run_method ::
  "(int option list \<Rightarrow> nat option) \<Rightarrow> bool \<Rightarrow> util_call \<Rightarrow> sql_util \<Rightarrow> (py_error option \<times> sql_util) option" where
  "run_method pick script_found m u = (case m of
      Configure k \<Rightarrow> Some (configure k u)
    | Setup \<Rightarrow> Some (run_setup script_found u)
    | Time_series_prep \<Rightarrow> Some (run_time_series_prep pick u)
    | Cdf_prep \<Rightarrow> Some (run_cdf_prep u)
    | Events_prep \<Rightarrow> run_events_prep pick u
    | Close \<Rightarrow> Some (close u))"

text \<open>A script: it stops at the first call that raises.\<close>

fun run_calls ::
  "(int option list \<Rightarrow> nat option) \<Rightarrow> bool \<Rightarrow> util_call list \<Rightarrow> sql_util \<Rightarrow> (py_error option \<times> sql_util) option" where
  "run_calls pick found [] u = Some (None, u)"
| "run_calls pick found (m # ms) u = (case run_method pick found m u of
      None \<Rightarrow> None
    | Some (Some e, u') \<Rightarrow> Some (Some e, u')
    | Some (None, u') \<Rightarrow> run_calls pick found ms u')"

definition notebook_calls :: "util_config \<Rightarrow> util_call list" where
  "notebook_calls k = [Configure k, Setup, Time_series_prep, Cdf_prep, Events_prep]"

text \<open>Interactive use: any call at any time, after errors too. The list is the calls made so far.\<close>

inductive util_session :: "(int option list \<Rightarrow> nat option) \<Rightarrow> bool \<Rightarrow> sql_util \<Rightarrow> util_call list \<Rightarrow> sql_util \<Rightarrow> bool"
  for pick found u0 where
  start: "util_session pick found u0 [] u0"
| call: "util_session pick found u0 ms u \<Longrightarrow> run_method pick found m u = Some (e, u')
    \<Longrightarrow> util_session pick found u0 (ms @ [m]) u'"

end
