(* ===== verification/Analysis_Input.thy ===== *)
theory Analysis_Input
  imports Export_Views Export_End Sql_Util
begin

text \<open>
  Where the exporter and \<open>SqlUtil\<close> meet: the rows \<open>SqlUtil\<close>'s queries read, taken from the
  database the exporter has closed. \<open>samples_view\<close> is a view, so its rows are those of its SELECT.
  A relation that does not exist is \<open>None\<close>.
\<close>

section \<open>Values\<close>

fun int_value :: "val \<Rightarrow> int option" where
  "int_value (VInt i) = Some i"
| "int_value _ = None"

fun str_value :: "val \<Rightarrow> string option" where
  "str_value (VStr s) = Some s"
| "str_value _ = None"

definition field :: "string list \<Rightarrow> val list \<Rightarrow> string \<Rightarrow> val" where
  "field ns r n = (case map_of (zip ns r) n of None \<Rightarrow> VNull | Some v \<Rightarrow> v)"

definition int_field :: "string list \<Rightarrow> val list \<Rightarrow> string \<Rightarrow> int option" where
  "int_field ns r n = int_value (field ns r n)"

definition str_field :: "string list \<Rightarrow> val list \<Rightarrow> string \<Rightarrow> string option" where
  "str_field ns r n = str_value (field ns r n)"

section \<open>Rows\<close>

text \<open>A row of \<open>samples_view\<close>; the four numbers are never NULL in an exported sample.\<close>

definition view_row_of :: "string list \<Rightarrow> val list \<Rightarrow> view_row option" where
  "view_row_of ns r =
     (case (int_field ns r ''id'', int_field ns r ''time'', int_field ns r ''insn_count'', int_field ns r ''cyc_count'') of
        (Some i, Some t, Some n, Some m) \<Rightarrow>
          Some \<lparr>vid = i, vtime = t, v_insn_count = n, v_cyc_count = m,
            v_event = str_field ns r ''event'', v_symbol = str_field ns r ''symbol'',
            v_to_symbol = str_field ns r ''to_symbol'', v_branch_type_name = str_field ns r ''branch_type_name''\<rparr>
      | _ \<Rightarrow> None)"

definition call_of :: "string list \<Rightarrow> val list \<Rightarrow> call option" where
  "call_of ns r = map_option (\<lambda>i. \<lparr>cid = i, parent_id = int_field ns r ''parent_id'',
     call_path_id = int_field ns r ''call_path_id'', call_time = int_field ns r ''call_time'',
     return_time = int_field ns r ''return_time''\<rparr>) (int_field ns r ''id'')"

definition call_path_of :: "string list \<Rightarrow> val list \<Rightarrow> call_path option" where
  "call_path_of ns r = map_option (\<lambda>i. \<lparr>path_key = i, path_symbol = int_field ns r ''symbol_id''\<rparr>) (int_field ns r ''id'')"

definition symbol_of :: "string list \<Rightarrow> val list \<Rightarrow> symbol_row option" where
  "symbol_of ns r = map_option (\<lambda>i. \<lparr>symbol_key = i, symbol_dso = int_field ns r ''dso_id'',
     symbol_name = str_field ns r ''name''\<rparr>) (int_field ns r ''id'')"

definition dso_of :: "string list \<Rightarrow> val list \<Rightarrow> dso_row option" where
  "dso_of ns r = map_option (\<lambda>i. \<lparr>dso_key = i, short_name = str_field ns r ''short_name''\<rparr>) (int_field ns r ''id'')"

definition error_of :: "string list \<Rightarrow> val list \<Rightarrow> error_row option" where
  "error_of ns r = Some \<lparr>ae_time = int_field ns r ''time'', ae_msg = str_field ns r ''msg''\<rparr>"

section \<open>Relations\<close>

definition read_relation ::
  "(string list \<Rightarrow> val list \<Rightarrow> 'r option) \<Rightarrow> sql_functions \<Rightarrow> database \<Rightarrow> string \<Rightarrow> 'r list option" where
  "read_relation parse F db n =
     (case select_all F db n of None \<Rightarrow> None | Some (ns, rs) \<Rightarrow> those (map (parse ns) rs))"

definition samples_input :: "sql_functions \<Rightarrow> database \<Rightarrow> view_row list option" where
  "samples_input F db = read_relation view_row_of F db ''samples_view''"

definition calls_input :: "sql_functions \<Rightarrow> database \<Rightarrow> trace_tables option" where
  "calls_input F db =
     (case (read_relation call_of F db ''calls'', read_relation call_path_of F db ''call_paths'',
            read_relation symbol_of F db ''symbols'', read_relation dso_of F db ''dsos'') of
        (Some cs, Some ps, Some ss, Some ds) \<Rightarrow>
          Some \<lparr>t_calls = cs, t_call_paths = ps, t_symbols = ss, t_dsos = ds\<rparr>
      | _ \<Rightarrow> None)"

definition errors_input :: "sql_functions \<Rightarrow> database \<Rightarrow> error_row list option" where
  "errors_input F db = read_relation error_of F db ''auxtrace_errors''"

text \<open>\<open>SqlUtil(db_file)\<close> on the exporter's database.\<close>

definition open_util :: "sql_functions \<Rightarrow> database \<Rightarrow> sql_util" where
  "open_util F db = fresh_util (samples_input F db) (calls_input F db) (errors_input F db)"

text \<open>
  \<open>events_prep\<close> in turn writes a table of a name the exporter uses: \<open>CREATE OR REPLACE TABLE
  context_switches\<close>, with the columns of its own query.
\<close>

definition event_switches_columns :: "column list" where
  "event_switches_columns =
    [col ''pts_call_id'' C_integer, col ''pts_call_time'' C_bigint, col ''pts_call_return_time'' C_bigint,
     col ''smio_call_id'' C_integer, col ''smio_call_time'' C_bigint, col ''smio_call_return_time'' C_bigint]"

definition int_val :: "int option \<Rightarrow> val" where
  "int_val k = (case k of None \<Rightarrow> VNull | Some i \<Rightarrow> VInt i)"

definition switch_vals :: "switch_row \<Rightarrow> val list" where
  "switch_vals r =
     [VInt (k_call_id (pts r)), int_val (k_call_time (pts r)), int_val (k_call_return_time (pts r)),
      int_val (map_option k_call_id (smio r)), int_val (Option.bind (smio r) k_call_time),
      int_val (Option.bind (smio r) k_call_return_time)]"

definition replace_context_switches :: "switch_row list \<Rightarrow> database \<Rightarrow> database" where
  "replace_context_switches sws db = db\<lparr>tables := (tables db)
     (''context_switches'' \<mapsto> \<lparr>tcols = event_switches_columns, trows = map switch_vals sws\<rparr>)\<rparr>"

section \<open>The same rows, from the events\<close>

text \<open>
  What \<open>SqlUtil\<close> should read of a trace, stated on the tuples perf passes: one row per sample, its
  ids replaced by the names perf gave them, and the record \<open>trace_begin\<close> adds first.
\<close>

definition cell_int :: "cell \<Rightarrow> int" where
  "cell_int k = (case k of IntCell i \<Rightarrow> i | _ \<Rightarrow> 0)"

definition cell_str :: "cell \<Rightarrow> string" where
  "cell_str k = (case k of StrCell s \<Rightarrow> s | _ \<Rightarrow> [])"

text \<open>The tuple a call passes, with the table it is meant for; raw events pass bytes instead.\<close>

fun passed :: "perf_event \<Rightarrow> (table_id \<times> row) option" where
  "passed (Evsel x) = Some (T_selected_events, x)"
| "passed (Machine x) = Some (T_machines, x)"
| "passed (Thread x) = Some (T_threads, x)"
| "passed (Comm x) = Some (T_comms, x)"
| "passed (Comm_thread x) = Some (T_comm_threads, x)"
| "passed (Dso x) = Some (T_dsos, x)"
| "passed (Symbol x) = Some (T_symbols, x)"
| "passed (Branch_type x) = Some (T_branch_types, x)"
| "passed (Sample x) = Some (T_samples, x)"
| "passed (Call_path x) = Some (T_call_paths, x)"
| "passed (Call_return x) = Some (T_calls, x)"
| "passed (Context_switch x) = Some (T_context_switches, x)"
| "passed (Auxtrace_error x) = Some (T_auxtrace_errors, x)"
| "passed _ = None"

definition tuples :: "table_id \<Rightarrow> perf_event list \<Rightarrow> row list" where
  "tuples t evs = concat (map (\<lambda>ev. case passed ev of Some (u, x) \<Rightarrow> if u = t then [x] else [] | None \<Rightarrow> []) evs)"

text \<open>The names perf gave, by id: the column \<open>j\<close> of the tuples of a table.\<close>

definition names_in :: "table_id \<Rightarrow> nat \<Rightarrow> (int \<times> string) list \<Rightarrow> perf_event list \<Rightarrow> int \<Rightarrow> string option" where
  "names_in t j known evs = map_of (known @ map (\<lambda>x. (cell_int (x ! 0), cell_str (x ! j))) (tuples t evs))"

definition sample_spec :: "perf_event list \<Rightarrow> row \<Rightarrow> view_row" where
  "sample_spec evs x =
     \<lparr>vid = cell_int (x ! 0), vtime = cell_int (x ! 9),
      v_insn_count = cell_int (x ! 22), v_cyc_count = cell_int (x ! 23),
      v_event = names_in T_selected_events 1 [(0, ''unknown'')] evs (cell_int (x ! 1)),
      v_symbol = names_in T_symbols 5 [(0, ''unknown'')] evs (cell_int (x ! 6)),
      v_to_symbol = names_in T_symbols 5 [(0, ''unknown'')] evs (cell_int (x ! 12)),
      v_branch_type_name = names_in T_branch_types 1 [] evs (cell_int (x ! 19))\<rparr>"

definition samples_spec :: "perf_event list \<Rightarrow> view_row list" where
  "samples_spec evs = map (sample_spec evs) (ints (replicate 25 0) # tuples T_samples evs)"

end
