(* ===== verification/Collect_Props.thy ===== *)
theory Collect_Props
  imports Export_Collect
begin

text \<open>
  What a trace leaves in the exporter's lists. The abstract view of the collector is one log per
  table; \<open>entries\<close> says what an event contributes to it, and the lists after a run are the logs
  before it followed by the contributions in the order of the events.
\<close>

section \<open>The log of an event\<close>

definition decoder :: "int \<Rightarrow> (table_id \<times> (int \<Rightarrow> bytes \<Rightarrow> row result)) option" where
  "decoder config = map_of
     [(0, T_calls, ptwrite_row), (1, T_mwait, mwait_row), (2, T_pwre, pwre_row),
      (3, T_exstop, exstop_row), (4, T_pwrx, pwrx_row), (5, T_cbr, cbr_row)] config"

fun entries :: "export_config \<Rightarrow> perf_event \<Rightarrow> (table_id \<times> row) list result" where
  "entries cfg (Evsel x) = Inr [(T_selected_events, x)]"
| "entries cfg (Machine x) = Inr [(T_machines, x)]"
| "entries cfg (Thread x) = Inr [(T_threads, x)]"
| "entries cfg (Comm x) = Inr [(T_comms, x)]"
| "entries cfg (Comm_thread x) = Inr [(T_comm_threads, x)]"
| "entries cfg (Dso x) = Inr [(T_dsos, x)]"
| "entries cfg (Symbol x) = Inr [(T_symbols, x)]"
| "entries cfg (Branch_type x) = Inr [(T_branch_types, x)]"
| "entries cfg (Sample x) = Inr [(T_samples, sample_row (branches cfg) x)]"
| "entries cfg (Call_path x) = Inr [(T_call_paths, x)]"
| "entries cfg (Call_return x) = Inr [(T_calls, x)]"
| "entries cfg (Context_switch x) = Inr [(T_context_switches, x)]"
| "entries cfg (Auxtrace_error x) = Inr [(T_auxtrace_errors, x)]"
| "entries cfg (Synth i config buf) = (case decoder config of None \<Rightarrow> Inr []
     | Some (t, dec) \<Rightarrow> bind_res (dec i buf) (\<lambda>x. Inr [(t, x)]))"
| "entries cfg Unhandled = Inr []"
| "entries cfg Sched_switch = Inr []"

definition rows_for :: "table_id \<Rightarrow> (table_id \<times> row) list \<Rightarrow> row list" where
  "rows_for t lg = map snd (filter (\<lambda>e. fst e = t) lg)"

definition unhandled :: "perf_event \<Rightarrow> int" where
  "unhandled ev = (if ev = Unhandled then 1 else 0)"

lemma rows_for_simps [simp]:
  "rows_for t [] = []"
  "rows_for t (e # es) = (if fst e = t then snd e # rows_for t es else rows_for t es)"
  "rows_for t (xs @ ys) = rows_for t xs @ rows_for t ys"
  by (simp_all add: rows_for_def)

text \<open>A collector is determined by its lists and its counter.\<close>

lemma collector_eqI:
  assumes "\<And>t. data_of t s = data_of t s'" and "unhandled_count s = unhandled_count s'"
  shows "s = (s' :: collector)"
  using assms(2) assms(1) [of T_selected_events] assms(1) [of T_machines] assms(1) [of T_threads]
    assms(1) [of T_comms] assms(1) [of T_comm_threads] assms(1) [of T_dsos] assms(1) [of T_symbols]
    assms(1) [of T_branch_types] assms(1) [of T_samples] assms(1) [of T_call_paths]
    assms(1) [of T_calls] assms(1) [of T_ptwrite] assms(1) [of T_cbr] assms(1) [of T_mwait]
    assms(1) [of T_pwre] assms(1) [of T_exstop] assms(1) [of T_pwrx]
    assms(1) [of T_context_switches] assms(1) [of T_auxtrace_errors]
  by (cases s; cases s') simp

section \<open>One event\<close>

definition decoded_into :: "table_id \<Rightarrow> row \<Rightarrow> collector \<Rightarrow> collector \<Rightarrow> bool" where
  "decoded_into t x s s' \<longleftrightarrow>
     (\<forall>u. data_of u s' = data_of u s @ (if u = t then [x] else []))
     \<and> unhandled_count s' = unhandled_count s"

lemma decoded_updates:
  "decoded_into T_calls x s (s\<lparr>call_data := call_data s @ [x]\<rparr>)"
  "decoded_into T_mwait x s (s\<lparr>mwait_data := mwait_data s @ [x]\<rparr>)"
  "decoded_into T_pwre x s (s\<lparr>pwre_data := pwre_data s @ [x]\<rparr>)"
  "decoded_into T_exstop x s (s\<lparr>exstop_data := exstop_data s @ [x]\<rparr>)"
  "decoded_into T_pwrx x s (s\<lparr>pwrx_data := pwrx_data s @ [x]\<rparr>)"
  "decoded_into T_cbr x s (s\<lparr>cbr_data := cbr_data s @ [x]\<rparr>)"
  unfolding decoded_into_def
  by (rule conjI; (intro allI, case_tac u)?; simp)+

lemma decoded_bind:
  assumes "\<And>x. decoded_into t x s (upd x)"
  shows "(case bind_res (dec i buf) (\<lambda>x. Inr (upd x)) of Inl e \<Rightarrow> dec i buf = Inl e
    | Inr s' \<Rightarrow> \<exists>x. dec i buf = Inr x \<and> decoded_into t x s s')"
  using assms by (cases "dec i buf") auto

lemma synth_decodes:
  "case decoder config of None \<Rightarrow> synth_data i config buf s = Inr s
   | Some (t, dec) \<Rightarrow> (case synth_data i config buf s of Inl e \<Rightarrow> dec i buf = Inl e
       | Inr s' \<Rightarrow> \<exists>x. dec i buf = Inr x \<and> decoded_into t x s s')"
  unfolding decoder_def synth_data_def ptwrite_def mwait_def pwre_def exstop_def pwrx_def cbr_def
  by (auto intro!: decoded_bind [simplified] decoded_updates)

text \<open>The concrete step and the log agree on every event.\<close>

definition logged :: "(table_id \<times> row) list \<Rightarrow> int \<Rightarrow> collector \<Rightarrow> collector \<Rightarrow> bool" where
  "logged lg n s s' \<longleftrightarrow> (\<forall>t. data_of t s' = data_of t s @ rows_for t lg)
     \<and> unhandled_count s' = unhandled_count s + n"

lemma logged_refl: "logged [] 0 s s"
  by (simp add: logged_def)

lemma logged_trans: "logged l1 n s u \<Longrightarrow> logged l2 m u t \<Longrightarrow> logged (l1 @ l2) (n + m) s t"
  by (auto simp: logged_def)

lemma logged_det: "logged l n s t \<Longrightarrow> logged l n s u \<Longrightarrow> t = u"
  by (rule collector_eqI) (auto simp: logged_def)

lemma data_of_count [simp]: "data_of t (s\<lparr>unhandled_count := n\<rparr>) = data_of t s"
  by (cases t) simp_all

lemma handle_logged:
  "case handle cfg ev s of Inl e \<Rightarrow> entries cfg ev = Inl e
   | Inr s' \<Rightarrow> \<exists>lg. entries cfg ev = Inr lg \<and> logged lg (unhandled ev) s s'"
proof (cases "\<exists>i config buf. ev = Synth i config buf")
  case True
  then obtain i config buf where ev: "ev = Synth i config buf" by auto
  show ?thesis
    using synth_decodes [where i = i and config = config and buf = buf and s = s]
    by (auto simp: ev logged_def decoded_into_def unhandled_def split: option.splits sum.splits)
next
  case False
  then show ?thesis
    by (cases ev) (simp_all add: logged_def unhandled_def callback_data trace_unhandled_def sched_switch_def)
qed

section \<open>A run\<close>

lemma run_events_logged:
  "case run_events cfg evs s of Inl e \<Rightarrow> map_res (entries cfg) evs = Inl e
   | Inr s' \<Rightarrow> \<exists>logs. map_res (entries cfg) evs = Inr logs
       \<and> logged (concat logs) (sum_list (map unhandled evs)) s s'"
proof (induction evs arbitrary: s)
  case Nil
  then show ?case by (simp add: run_events_def logged_refl)
next
  case (Cons ev evs)
  show ?case
  proof (cases "handle cfg ev s")
    case (Inl e)
    then show ?thesis using handle_logged [of cfg ev s] by (simp add: run_events_def)
  next
    case (Inr u)
    then obtain lg where lg: "entries cfg ev = Inr lg" "logged lg (unhandled ev) s u"
      using handle_logged [of cfg ev s] by auto
    have run: "run_events cfg (ev # evs) s = run_events cfg evs u"
      by (simp add: run_events_def Inr)
    show ?thesis
      using Cons.IH [of u] lg(1) logged_trans [OF lg(2)]
      by (simp add: run) (auto split: sum.splits)
  qed
qed

text \<open>C13: After a run over a trace the list of every table is the list before the run followed by
  the rows the events contribute to that table, in the order of the events, and the counter of
  unhandled events has grown by their number; a run succeeds exactly when every event decodes, and
  this description determines the final state of the collector.\<close>

theorem run_events_refines_log:
  "run_events cfg evs s = Inr s' \<longleftrightarrow>
     (\<exists>logs. map_res (entries cfg) evs = Inr logs
       \<and> (\<forall>t. data_of t s' = data_of t s @ rows_for t (concat logs))
       \<and> unhandled_count s' = unhandled_count s + int (count_list evs Unhandled))"
proof -
  have cnt: "sum_list (map unhandled evs) = int (count_list evs Unhandled)"
    by (induction evs) (auto simp: unhandled_def)
  show ?thesis
    using run_events_logged [of cfg evs s] logged_det [of _ _ s _ s']
    by (cases "run_events cfg evs s") (auto simp: cnt logged_def [symmetric])
qed

text \<open>An event decodes when its buffer is long enough and, for a core-to-bus ratio, its third byte
  (the divisor of the percentage) is not zero.\<close>

definition decode_error :: "perf_event \<Rightarrow> py_error option" where
  "decode_error ev = (case ev of Synth i config buf \<Rightarrow>
      if config \<in> {0, 1, 2, 4, 5} \<and> length buf < 12 then Some StructError
      else if config = 3 \<and> length buf < 4 then Some StructError
      else if config = 5 \<and> buf ! 2 = 0 then Some ZeroDivisionError
      else None
    | _ \<Rightarrow> None)"

lemma cbr_row_shape:
  "\<exists>x. cbr_row i buf = (if length buf < 12 then Inl StructError
     else if buf ! 2 = 0 then Inl ZeroDivisionError else Inr x)"
proof (cases "length buf < 12")
  case False
  then have "drop 2 buf = buf ! 2 # drop 3 buf" by (simp add: Cons_nth_drop_Suc [symmetric])
  then show ?thesis
    using False by (auto simp: cbr_row_def unpack_from_BBBBII Let_def uint_0_iff)
qed (auto simp: cbr_row_def unpack_from_BBBBII)

lemma entries_error: "entries cfg ev = Inl e \<longleftrightarrow> decode_error ev = Some e"
proof (cases "\<exists>i config buf. ev = Synth i config buf")
  case True
  then obtain i config buf where ev: "ev = Synth i config buf" by auto
  obtain x where "cbr_row i buf = (if length buf < 12 then Inl StructError
     else if buf ! 2 = 0 then Inl ZeroDivisionError else Inr x)"
    using cbr_row_shape by blast
  then show ?thesis
    unfolding ev entries.simps decode_error_def decoder_def perf_event.case
    by (auto simp: ptwrite_row_def mwait_row_def pwre_row_def
        exstop_row_def pwrx_row_def unpack_from_IQ unpack_from_I Let_def split: if_splits)
next
  case False
  then show ?thesis by (cases ev) (simp_all add: decode_error_def)
qed

lemma map_res_error:
  "map_res f xs = Inl e \<longleftrightarrow>
     (\<exists>pre x post. xs = pre @ x # post \<and> (\<forall>p\<in>set pre. \<exists>y. f p = Inr y) \<and> f x = Inl e)"
proof (induction xs)
  case Nil
  then show ?case by simp
next
  case (Cons x xs)
  show ?case
  proof (cases "f x")
    case (Inl e')
    then show ?thesis by (fastforce simp: Cons_eq_append_conv)
  next
    case (Inr y)
    then have "map_res f (x # xs) = Inl e \<longleftrightarrow> map_res f xs = Inl e"
      by (simp add: bind_res_def split: sum.splits)
    also have "\<dots> \<longleftrightarrow> (\<exists>pre z post. x # xs = pre @ z # post
        \<and> (\<forall>p\<in>set pre. \<exists>y. f p = Inr y) \<and> f z = Inl e)"
      unfolding Cons.IH
    proof safe
      fix pre z post
      assume "\<forall>p\<in>set pre. \<exists>y. f p = Inr y" "f z = Inl e"
      then show "\<exists>pre' z' post'. x # pre @ z # post = pre' @ z' # post'
          \<and> (\<forall>p\<in>set pre'. \<exists>y. f p = Inr y) \<and> f z' = Inl e"
        by (intro exI [of _ "x # pre"] exI [of _ z] exI [of _ post]) (simp add: Inr)
    next
      fix pre z post
      assume "x # xs = pre @ z # post" "\<forall>p\<in>set pre. \<exists>y. f p = Inr y" "f z = Inl e"
      then show "\<exists>pre z post. xs = pre @ z # post
          \<and> (\<forall>p\<in>set pre. \<exists>y. f p = Inr y) \<and> f z = Inl e"
        using Inr by (cases pre) auto
    qed
    finally show ?thesis .
  qed
qed

lemma entries_ok: "(\<exists>lg. entries cfg ev = Inr lg) \<longleftrightarrow> decode_error ev = None"
proof (cases "entries cfg ev")
  case (Inl e)
  then show ?thesis using entries_error [of cfg ev e] by simp
next
  case (Inr lg)
  then have "decode_error ev \<noteq> Some e" for e using entries_error [of cfg ev e] by simp
  then show ?thesis using Inr by (cases "decode_error ev") auto
qed

text \<open>C29: A run stops with an exception exactly at the first event that does not decode: a
  synthesised event whose buffer is shorter than the structure it should hold raises
  \<open>struct.error\<close>, a core-to-bus-ratio event with a zero divisor raises \<open>ZeroDivisionError\<close>, and
  no other event can stop it (unknown configs included).\<close>

theorem run_events_error_iff:
  "run_events cfg evs s = Inl e \<longleftrightarrow>
     (\<exists>pre ev post. evs = pre @ ev # post
       \<and> (\<forall>p\<in>set pre. decode_error p = None) \<and> decode_error ev = Some e)"
proof -
  have "run_events cfg evs s = Inl e \<longleftrightarrow> map_res (entries cfg) evs = Inl e"
    using run_events_logged [of cfg evs s] by (auto split: sum.splits)
  then show ?thesis
    by (simp only: map_res_error entries_error entries_ok)
qed

definition demo_cfg :: "bool \<Rightarrow> bool \<Rightarrow> bool \<Rightarrow> export_config" where
  "demo_cfg br cs ch = \<lparr>dbname = ''t.db'', columns = (if br then ''branches'' else ''all''),
     branches = br, perf_db_export_calls = cs, perf_db_export_callchains = ch\<rparr>"

theorem run_events_error_iff_witness:
  "run_events (demo_cfg True True False)
     [Unhandled, Synth 7 5 [35, 0, 0, 0, 0, 0, 0, 0, 0, 0, 0, 0], Synth 8 0 []] init_collector
   = Inl ZeroDivisionError"
  unfolding run_events_error_iff
  by (intro exI [of _ "[Unhandled]"] exI [of _ "Synth 7 5 [35, 0, 0, 0, 0, 0, 0, 0, 0, 0, 0, 0]"]
      exI [of _ "[Synth 8 0 []]"]) (simp add: decode_error_def)

lemma collect_logged:
  "collect cfg evs = Inr s \<longleftrightarrow> (\<exists>logs. map_res (entries cfg) evs = Inr logs
     \<and> logged (concat logs) (sum_list (map unhandled evs)) (trace_begin cfg init_collector) s)"
  using run_events_logged [of cfg evs "trace_begin cfg init_collector"]
    logged_det [of _ _ "trace_begin cfg init_collector" _ s]
  by (cases "run_events cfg evs (trace_begin cfg init_collector)") (auto simp: collect_def)

lemma trace_begin_data:
  "data_of t (trace_begin cfg s) = data_of t s @ (case t of
      T_selected_events \<Rightarrow> [[IntCell 0, unknown]]
    | T_machines \<Rightarrow> [[IntCell 0, IntCell 0, unknown]]
    | T_threads \<Rightarrow> [ints [0, 0, 0, -1, -1]]
    | T_comms \<Rightarrow> [[IntCell 0, unknown, IntCell 0, IntCell 0, IntCell 0]]
    | T_dsos \<Rightarrow> [[IntCell 0, IntCell 0, unknown, unknown, StrCell []]]
    | T_symbols \<Rightarrow> [ints [0, 0, 0, 0, 0] @ [unknown]]
    | T_samples \<Rightarrow> [sample_row (branches cfg) (ints (replicate 25 0))]
    | T_call_paths \<Rightarrow> if perf_db_export_calls cfg \<or> perf_db_export_callchains cfg
        then [ints (replicate 4 0)] else []
    | T_calls \<Rightarrow> if perf_db_export_calls cfg \<or> perf_db_export_callchains cfg
        then [ints (replicate 14 0)] else []
    | _ \<Rightarrow> [])"
  unfolding trace_begin_def Let_def by (simp add: callback_data split: table_id.split)

lemma entries_not_ptwrite: "entries cfg ev = Inr lg \<Longrightarrow> rows_for T_ptwrite lg = []"
  by (cases ev) (auto simp: decoder_def bind_res_Inr_iff split: if_splits)

lemma rows_for_concat: "rows_for t (concat logs) = concat (map (rows_for t) logs)"
  by (induction logs) simp_all

lemma collect_logs:
  assumes "collect cfg evs = Inr s"
  obtains logs where "\<forall>t. data_of t s = data_of t (trace_begin cfg init_collector) @ rows_for t (concat logs)"
    and "\<forall>lg\<in>set logs. \<exists>ev\<in>set evs. entries cfg ev = Inr lg"
    and "\<forall>ev\<in>set evs. \<exists>lg\<in>set logs. entries cfg ev = Inr lg"
proof -
  obtain logs where logs: "list_all2 (\<lambda>ev lg. entries cfg ev = Inr lg) evs logs"
    and s: "\<And>t. data_of t s = data_of t (trace_begin cfg init_collector) @ rows_for t (concat logs)"
    using assms by (auto simp: collect_logged map_res_Inr_iff logged_def)
  have "\<forall>lg\<in>set logs. \<exists>ev\<in>set evs. entries cfg ev = Inr lg" "\<forall>ev\<in>set evs. \<exists>lg\<in>set logs. entries cfg ev = Inr lg"
    using logs by (induction rule: list_all2_induct) auto
  then show thesis using that s by blast
qed

lemma collect_ptwrite:
  assumes "collect cfg evs = Inr s" and "Synth i 0 buf \<in> set evs"
  shows "\<exists>x. ptwrite_row i buf = Inr x \<and> x \<in> set (call_data s)"
proof -
  obtain logs where s: "\<forall>t. data_of t s = data_of t (trace_begin cfg init_collector) @ rows_for t (concat logs)"
    and from_event: "\<forall>lg\<in>set logs. \<exists>ev\<in>set evs. entries cfg ev = Inr lg"
    and to_log: "\<forall>ev\<in>set evs. \<exists>lg\<in>set logs. entries cfg ev = Inr lg"
    by (rule collect_logs [OF assms(1)])
  obtain lg where lg: "lg \<in> set logs" "entries cfg (Synth i 0 buf) = Inr lg"
    using to_log assms(2) by blast
  then obtain x where x: "ptwrite_row i buf = Inr x" "lg = [(T_calls, x)]"
    by (auto simp: decoder_def bind_res_Inr_iff)
  then have "x \<in> set (rows_for T_calls (concat logs))"
    using lg(1) by (force simp: rows_for_concat)
  then show ?thesis using spec [OF s, of T_calls] x(1) by simp
qed

text \<open>The rows of ptwrite events never reach the list of the ptwrite table: however a trace is
  collected, that list stays empty, while each ptwrite event's row is in the list of the calls
  table.\<close>

theorem ptwrite_rows_go_to_calls:
  assumes "collect cfg evs = Inr s"
  shows "ptwrite_data s = []
    \<and> (\<forall>i buf. Synth i 0 buf \<in> set evs \<longrightarrow> (\<exists>x. ptwrite_row i buf = Inr x \<and> x \<in> set (call_data s)))"
proof -
  obtain logs where s: "\<forall>t. data_of t s = data_of t (trace_begin cfg init_collector) @ rows_for t (concat logs)"
    and from_event: "\<forall>lg\<in>set logs. \<exists>ev\<in>set evs. entries cfg ev = Inr lg"
    and to_log: "\<forall>ev\<in>set evs. \<exists>lg\<in>set logs. entries cfg ev = Inr lg"
    by (rule collect_logs [OF assms])
  have "\<forall>lg\<in>set logs. rows_for T_ptwrite lg = []"
    using from_event entries_not_ptwrite by blast
  then have "ptwrite_data s = []"
    using spec [OF s, of T_ptwrite] by (simp add: trace_begin_data init_collector_def rows_for_concat)
  then show ?thesis using collect_ptwrite [OF assms] by blast
qed

lemma demo_collect:
  "case collect (demo_cfg False False False) [Synth 7 0 [1, 0, 0, 0, 42, 0, 0, 0, 0, 0, 0, 0]] of
     Inl e \<Rightarrow> False | Inr s \<Rightarrow> call_data s = [[StrCell ''7'', StrCell ''42'', StrCell ''1'']]"
  by code_simp

theorem ptwrite_rows_go_to_calls_witness:
  "\<exists>s. collect (demo_cfg False False False) [Synth 7 0 [1, 0, 0, 0, 42, 0, 0, 0, 0, 0, 0, 0]] = Inr s
     \<and> ptwrite_data s = [] \<and> call_data s = [[StrCell ''7'', StrCell ''42'', StrCell ''1'']]"
  using demo_collect ptwrite_rows_go_to_calls
    [of "demo_cfg False False False" "[Synth 7 0 [1, 0, 0, 0, 42, 0, 0, 0, 0, 0, 0, 0]]"]
  by (simp only: split: sum.splits) auto

end
