(* ===== verification/End_Props.thy ===== *)
theory End_Props
  imports Export_End Schema_Props
begin

text \<open>
  What \<open>trace_end\<close> leaves in the database: when it succeeds, which rows each table holds, which
  tables and views survive, and that no view is left that reads a dropped table.
\<close>

section \<open>Inserting the lists\<close>

text \<open>\<open>loads\<close>: the list \<open>data\<close> becomes the rows \<open>new\<close> of an empty table with columns \<open>cs\<close>.\<close>

definition loads ::
  "(coltype \<Rightarrow> cell option list \<Rightarrow> val list result) \<Rightarrow> column list \<Rightarrow> row list \<Rightarrow> val list list \<Rightarrow> bool" where
  "loads conv cs data new \<longleftrightarrow>
     (if data = [] then new = []
      else frame_width data = length cs \<and> frame_rows conv cs data = Inr new \<and> keys_ok cs new)"

lemma loads_length: "loads conv cs data new \<Longrightarrow> length new = length data"
  by (auto simp: loads_def frame_rows_def bind_res_Inr_iff split: if_splits)

lemma loads_det: "loads conv cs data new \<Longrightarrow> loads conv cs data new' \<Longrightarrow> new = new'"
  by (auto simp: loads_def split: if_splits)

definition vacant :: "database \<Rightarrow> string \<Rightarrow> bool" where
  "vacant db n \<longleftrightarrow> (\<forall>t. tables db n = Some t \<longrightarrow> trows t = [])"

lemma insert_data_Inr:
  assumes "vacant db n"
  shows "insert_data conv n data db = Inr db' \<longleftrightarrow>
    (case tables db n of None \<Rightarrow> data = [] \<and> db' = db
     | Some t \<Rightarrow> \<exists>new. loads conv (tcols t) data new
         \<and> db' = (if data = [] then db else db\<lparr>tables := (tables db)(n \<mapsto> t\<lparr>trows := new\<rparr>)\<rparr>))"
  using assms
  by (auto simp: vacant_def insert_data_def loads_def bind_res_Inr_iff split: option.splits if_splits)

definition loaded_table ::
  "(coltype \<Rightarrow> cell option list \<Rightarrow> val list result) \<Rightarrow> row list \<Rightarrow> table option \<Rightarrow> table option \<Rightarrow> bool" where
  "loaded_table conv data before after \<longleftrightarrow> (case before of
      None \<Rightarrow> data = [] \<and> after = None
    | Some t \<Rightarrow> \<exists>new. loads conv (tcols t) data new \<and> after = Some (t\<lparr>trows := new\<rparr>))"

lemma insert_data_loaded:
  assumes "vacant db n"
  shows "insert_data conv n data db = Inr db' \<longleftrightarrow>
    loaded_table conv data (tables db n) (tables db' n)
    \<and> (\<forall>m. m \<noteq> n \<longrightarrow> tables db' m = tables db m) \<and> views db' = views db \<and> is_open db' = is_open db"
    (is "?L \<longleftrightarrow> ?R")
proof
  assume ?L
  then show ?R
    using assms [unfolded vacant_def] unfolding insert_data_Inr [OF assms]
    by (auto simp: loaded_table_def loads_def split: option.splits if_splits)
next
  assume R: ?R
  then have db': "db' = db\<lparr>tables := (tables db)(n := tables db' n)\<rparr>"
    by (cases db; cases db') (auto simp: fun_eq_iff)
  show ?L
  proof (cases "tables db n")
    case None
    then show ?thesis
      using R db' unfolding insert_data_Inr [OF assms]
      by (cases db) (simp add: loaded_table_def fun_upd_idem)
  next
    case (Some t)
    then obtain new where new: "loads conv (tcols t) data new" "tables db' n = Some (t\<lparr>trows := new\<rparr>)"
      using R by (auto simp: loaded_table_def)
    have "(tables db)(n \<mapsto> t\<lparr>trows := new\<rparr>) = tables db" if "data = []"
      using new(1) that assms Some by (cases t) (simp add: vacant_def loads_def fun_upd_idem)
    then show ?thesis
      unfolding insert_data_Inr [OF assms] using Some new db' by (cases db) auto
  qed
qed

text \<open>All the insertions: each table is loaded from its own list, the rest stays.\<close>

lemma insert_all_loaded:
  assumes "distinct (map table_name ts)"
    and "\<forall>t\<in>set ts. vacant db (table_name t)"
  shows "fold_res (\<lambda>t. insert_data conv (table_name t) (data_of t s)) ts db = Inr db' \<longleftrightarrow>
    (\<forall>t\<in>set ts. loaded_table conv (data_of t s) (tables db (table_name t)) (tables db' (table_name t)))
    \<and> (\<forall>n. n \<notin> table_name ` set ts \<longrightarrow> tables db' n = tables db n)
    \<and> views db' = views db \<and> is_open db' = is_open db"
  using assms
proof (induction ts arbitrary: db)
  case Nil
  then show ?case by (cases db; cases db') (auto simp: fun_eq_iff)
next
  case (Cons t ts)
  let ?f = "\<lambda>t. insert_data conv (table_name t) (data_of t s)"
  have fresh: "table_name t \<notin> table_name ` set ts" using Cons.prems(1) by simp
  have "vacant db (table_name t)" using Cons.prems(2) by simp
  note ins = insert_data_loaded [OF this]
  have other: "table_name u \<noteq> table_name t" if "u \<in> set ts" for u
    using fresh that by (metis imageI)
  have IH: "fold_res ?f ts u = Inr db' \<longleftrightarrow>
      (\<forall>t\<in>set ts. loaded_table conv (data_of t s) (tables db (table_name t)) (tables db' (table_name t)))
      \<and> (\<forall>n. n \<notin> table_name ` set ts \<longrightarrow> tables db' n = tables u n)
      \<and> views db' = views u \<and> is_open db' = is_open u"
    if u: "\<forall>n. n \<noteq> table_name t \<longrightarrow> tables u n = tables db n" for u
  proof -
    have "\<forall>v\<in>set ts. vacant u (table_name v)"
      using Cons.prems(2) u other by (simp add: vacant_def)
    then show ?thesis
      using Cons.IH [of u] Cons.prems(1) u other by simp
  qed
  show ?case (is "?L \<longleftrightarrow> ?R")
  proof
    assume ?L
    then obtain u where u: "?f t db = Inr u" "fold_res ?f ts u = Inr db'"
      by (auto simp: bind_res_Inr_iff)
    note at = u(1) [unfolded ins]
    have "\<forall>n. n \<noteq> table_name t \<longrightarrow> tables u n = tables db n" using at by blast
    from u(2) [unfolded IH [OF this]] at fresh show ?R by auto
  next
    assume R: ?R
    let ?u = "db\<lparr>tables := (tables db)(table_name t := tables db' (table_name t))\<rparr>"
    have "?f t db = Inr ?u" unfolding ins using R by simp
    moreover have "fold_res ?f ts ?u = Inr db'"
      by (subst IH) (use R in auto)
    ultimately show ?L by simp
  qed
qed

lemma all_tables_names: "distinct (map table_name all_tables)" "set all_tables = UNIV"
proof -
  show "distinct (map table_name all_tables)" by (simp add: all_tables_def)
  have "t \<in> set all_tables" for t by (cases t) (simp_all add: all_tables_def)
  then show "set all_tables = UNIV" by blast
qed

lemma table_name_eq [simp]: "table_name t = table_name u \<longleftrightarrow> t = u"
  using all_tables_names by (metis UNIV_I distinct_map inj_onD)

lemma schema_table: "tables (schema_db hp cfg) n = map_option empty_table (map_of (table_statements cfg) n)"
  by (simp add: schema_db_def)

lemma schema_names: "map_of (table_statements cfg) n = Some cs \<Longrightarrow> n \<in> table_name ` UNIV"
proof -
  assume "map_of (table_statements cfg) n = Some cs"
  then have "n \<in> fst ` set (table_statements cfg)" by (metis map_of_eq_None_iff option.distinct(1))
  also have "\<dots> \<subseteq> set (map table_name all_tables)"
    by (auto simp: table_statements_def all_tables_def)
  finally show ?thesis using all_tables_names(2) by simp
qed

text \<open>The table \<open>n\<close> after the insertions into the fresh schema.\<close>

definition loaded_rows ::
  "(coltype \<Rightarrow> cell option list \<Rightarrow> val list result) \<Rightarrow> export_config \<Rightarrow> collector \<Rightarrow> table_id
     \<Rightarrow> table option \<Rightarrow> bool" where
  "loaded_rows conv cfg s t after \<longleftrightarrow> (case map_of (table_statements cfg) (table_name t) of
      None \<Rightarrow> data_of t s = [] \<and> after = None
    | Some cs \<Rightarrow> \<exists>new. loads conv cs (data_of t s) new \<and> after = Some \<lparr>tcols = cs, trows = new\<rparr>)"

lemma insert_all_schema:
  "insert_all conv s (schema_db hp cfg) = Inr db' \<longleftrightarrow>
    (\<forall>t. loaded_rows conv cfg s t (tables db' (table_name t)))
    \<and> (\<forall>n. n \<notin> range table_name \<longrightarrow> tables db' n = None)
    \<and> views db' = views (schema_db hp cfg) \<and> is_open db'"
proof -
  have "tables (schema_db hp cfg) n = None" if "n \<notin> range table_name" for n
    using schema_names [of cfg n] that by (cases "map_of (table_statements cfg) n") (auto simp: schema_table)
  moreover have "loaded_table conv (data_of t s) (tables (schema_db hp cfg) (table_name t)) after
      \<longleftrightarrow> loaded_rows conv cfg s t after" for t after
    by (simp add: loaded_table_def loaded_rows_def schema_table empty_table_def split: option.split)
  ultimately show ?thesis
    unfolding insert_all_def
    by (subst insert_all_loaded [OF all_tables_names(1)])
      (auto simp: vacant_def schema_table empty_table_def all_tables_names(2) schema_db_def [of hp cfg])
qed

lemma insert_all_exists:
  "(\<exists>db'. insert_all conv s (schema_db hp cfg) = Inr db') \<longleftrightarrow>
     (\<forall>t. \<exists>after. loaded_rows conv cfg s t after)" (is "?L \<longleftrightarrow> ?R")
proof
  assume ?L
  then show ?R unfolding insert_all_schema by blast
next
  assume ?R
  then obtain f where f: "\<And>t. loaded_rows conv cfg s t (f t)" by metis
  let ?db = "(schema_db hp cfg)\<lparr>tables := (\<lambda>n. if n \<in> range table_name then f (inv table_name n) else None)\<rparr>"
  have "inj table_name" by (simp add: inj_def)
  then have "insert_all conv s (schema_db hp cfg) = Inr ?db"
    unfolding insert_all_schema using f by (simp add: schema_db_def)
  then show ?L by blast
qed

section \<open>Dropping what is unused\<close>

text \<open>\<open>hide D V db\<close>: the database without the tables \<open>D\<close> and the views \<open>V\<close>.\<close>

definition hide :: "string set \<Rightarrow> string set \<Rightarrow> database \<Rightarrow> database" where
  "hide D V db = db\<lparr>tables := (\<lambda>n. if n \<in> D then None else tables db n),
     views := (\<lambda>n. if n \<in> V then None else views db n)\<rparr>"

lemma hide_sel [simp]:
  "tables (hide D V db) n = (if n \<in> D then None else tables db n)"
  "views (hide D V db) n = (if n \<in> V then None else views db n)"
  "is_open (hide D V db) = is_open db"
  by (simp_all add: hide_def)

lemma hide_empty: "hide {} {} db = db"
  by (simp add: hide_def)

lemma drop_view_hide:
  "n \<notin> V \<Longrightarrow> views db n \<noteq> None \<Longrightarrow> drop_view n (hide D V db) = Inr (hide D (insert n V) db)"
  by (auto simp: drop_view_def hide_def fun_eq_iff)

lemma drop_table_hide:
  "n \<notin> D \<Longrightarrow> tables db n \<noteq> None \<Longrightarrow> drop_table n (hide D V db) = Inr (hide (insert n D) V db)"
  by (auto simp: drop_table_def hide_def fun_eq_iff)

lemma drop_relation_hide:
  "n \<notin> D \<Longrightarrow> n @ ''_view'' \<notin> V \<Longrightarrow> tables db n \<noteq> None \<Longrightarrow> views db (n @ ''_view'') \<noteq> None \<Longrightarrow>
     drop_relation n (hide D V db) = Inr (hide (insert n D) (insert (n @ ''_view'') V) db)"
  by (simp add: drop_relation_def drop_view_hide drop_table_hide)

definition no_rows :: "database \<Rightarrow> string \<Rightarrow> bool" where
  "no_rows db n \<longleftrightarrow> (\<exists>t. tables db n = Some t \<and> trows t = [])"

lemma is_table_empty_hide:
  "n \<notin> D \<Longrightarrow> tables db n \<noteq> None \<Longrightarrow> is_table_empty n (hide D V db) = Inr (no_rows db n)"
  by (auto simp: is_table_empty_def no_rows_def min_def split: if_splits)

text \<open>The tables and views dropped, given which tables are empty.\<close>

definition power_names :: "string list" where
  "power_names = [''mwait'', ''pwre'', ''exstop'', ''pwrx'']"

definition only_if :: "(string \<Rightarrow> bool) \<Rightarrow> string \<Rightarrow> string set" where
  "only_if e n = (if e n then {n} else {})"

definition dropped_tables :: "(string \<Rightarrow> bool) \<Rightarrow> string set" where
  "dropped_tables e = only_if e ''ptwrite''
     \<union> (if list_all e power_names then set power_names \<union> only_if e ''cbr'' else {})
     \<union> only_if e ''context_switches'' \<union> only_if e ''auxtrace_errors''"

definition view_names :: "string set \<Rightarrow> string set" where
  "view_names D = (\<lambda>n. n @ ''_view'') ` D"

definition dropped_views :: "(string \<Rightarrow> bool) \<Rightarrow> string set" where
  "dropped_views e = view_names (dropped_tables e)
     \<union> (if list_all e power_names then {''power_events_view''} else {})"

definition droppable :: "database \<Rightarrow> bool" where
  "droppable db \<longleftrightarrow>
     (\<forall>n\<in>{''ptwrite'', ''mwait'', ''pwre'', ''exstop'', ''pwrx'', ''cbr'', ''context_switches'', ''auxtrace_errors''}.
        tables db n \<noteq> None \<and> views db (n @ ''_view'') \<noteq> None)
     \<and> views db ''power_events_view'' \<noteq> None"

lemma view_names_simps [simp]:
  "view_names {} = {}" "view_names (insert n D) = insert (n @ ''_view'') (view_names D)"
  "view_names (D \<union> E) = view_names D \<union> view_names E"
  by (auto simp: view_names_def)

lemma drop_if_empty_hide:
  "n \<notin> D \<Longrightarrow> n @ ''_view'' \<notin> V \<Longrightarrow> tables db n \<noteq> None \<Longrightarrow> views db (n @ ''_view'') \<noteq> None \<Longrightarrow>
     drop_if_empty n (hide D V db) =
       Inr (hide (D \<union> only_if (no_rows db) n) (V \<union> view_names (only_if (no_rows db) n)) db)"
  by (simp add: drop_if_empty_def is_table_empty_hide drop_relation_hide only_if_def)

lemma all_empty_hide:
  "\<forall>n\<in>set ns. n \<notin> D \<and> tables db n \<noteq> None \<Longrightarrow>
     all_empty ns (hide D V db) = Inr (list_all (no_rows db) ns)"
  by (induction ns) (auto simp: is_table_empty_hide)

lemma in_only_if [simp]: "m \<in> only_if e n \<longleftrightarrow> m = n \<and> e n"
  by (simp add: only_if_def)

lemma in_view_only_if [simp]: "m \<in> view_names (only_if e n) \<longleftrightarrow> m = n @ ''_view'' \<and> e n"
  by (auto simp: view_names_def)

lemma drop_power_hide:
  assumes "droppable db"
  defines "e \<equiv> no_rows db"
  shows "drop_power_tables (hide (only_if e ''ptwrite'') (view_names (only_if e ''ptwrite'')) db) =
     Inr (hide (only_if e ''ptwrite''
           \<union> (if list_all e power_names then set power_names \<union> only_if e ''cbr'' else {}))
         (view_names (only_if e ''ptwrite'') \<union> (if list_all e power_names
            then {''power_events_view''} \<union> view_names (set power_names \<union> only_if e ''cbr'') else {})) db)"
proof -
  note tables = assms(1) [unfolded droppable_def, simplified]
  let ?db = "hide (only_if e ''ptwrite'') (view_names (only_if e ''ptwrite'')) db"
  have "all_empty power_names ?db = Inr (list_all e power_names)"
    unfolding e_def using tables by (intro all_empty_hide) (auto simp: power_names_def)
  then show ?thesis
    using tables by (simp add: drop_power_tables_def power_names_def drop_view_hide
        drop_relation_hide drop_if_empty_hide e_def [symmetric] Un_commute insert_commute)
qed

lemma drop_unused_eq:
  assumes "droppable db"
  shows "drop_unused db = Inr (hide (dropped_tables (no_rows db)) (dropped_views (no_rows db)) db)"
proof -
  note tables = assms [unfolded droppable_def, simplified]
  let ?e = "no_rows db"
  have "drop_if_empty ''ptwrite'' db =
      Inr (hide (only_if ?e ''ptwrite'') (view_names (only_if ?e ''ptwrite'')) db)"
    using drop_if_empty_hide [of "''ptwrite''" "{}" "{}" db] tables by (simp add: hide_empty)
  then show ?thesis
    using tables by (simp add: drop_unused_def drop_power_hide [OF assms] drop_if_empty_hide
        power_names_def dropped_tables_def dropped_views_def Un_ac)
qed

section \<open>The end of an export\<close>

definition empty_list :: "collector \<Rightarrow> string \<Rightarrow> bool" where
  "empty_list s n \<longleftrightarrow> (\<exists>t. table_name t = n \<and> data_of t s = [])"

lemma empty_list_name [simp]: "empty_list s (table_name t) \<longleftrightarrow> data_of t s = []"
  by (auto simp: empty_list_def)

text \<open>The tables that may be dropped exist under every configuration, with their views.\<close>

definition optional_tables :: "table_id list" where
  "optional_tables =
     [T_ptwrite, T_mwait, T_pwre, T_exstop, T_pwrx, T_cbr, T_context_switches, T_auxtrace_errors]"

lemma schema_optional:
  "\<forall>t\<in>set optional_tables. map_of (table_statements cfg) (table_name t) \<noteq> None
     \<and> map_of (view_statements hp cfg) (table_name t @ ''_view'') \<noteq> None"
  "map_of (view_statements hp cfg) ''power_events_view'' \<noteq> None"
  by (simp_all add: optional_tables_def table_statements_def view_statements_def map_add_def)

lemma loaded_droppable:
  assumes "insert_all conv s (schema_db hp cfg) = Inr db"
  shows "droppable db" and "t \<in> set optional_tables \<Longrightarrow> no_rows db (table_name t) \<longleftrightarrow> data_of t s = []"
proof -
  note load = assms [unfolded insert_all_schema]
  have some: "\<exists>cs new. loads conv cs (data_of t s) new
      \<and> tables db (table_name t) = Some \<lparr>tcols = cs, trows = new\<rparr>" if t: "t \<in> set optional_tables" for t
  proof -
    have "loaded_rows conv cfg s t (tables db (table_name t))" using load by blast
    moreover obtain cs where "map_of (table_statements cfg) (table_name t) = Some cs"
      using schema_optional(1) [where cfg = cfg and hp = hp] t by auto
    ultimately show ?thesis by (auto simp: loaded_rows_def)
  qed
  have v: "views db = map_of (view_statements hp cfg)" using load by (simp add: schema_db_def)
  have "\<forall>t\<in>set optional_tables. tables db (table_name t) \<noteq> None
      \<and> views db (table_name t @ ''_view'') \<noteq> None"
    using some schema_optional(1) [where cfg = cfg and hp = hp] by (fastforce simp: v)
  then show "droppable db"
    using schema_optional(2) [where cfg = cfg and hp = hp] by (simp add: droppable_def optional_tables_def v)
  show "no_rows db (table_name t) \<longleftrightarrow> data_of t s = []" if "t \<in> set optional_tables"
    using some [OF that] by (auto simp: no_rows_def dest!: loads_length)
qed

lemma dropped_cong:
  assumes "\<forall>t\<in>set optional_tables. e (table_name t) \<longleftrightarrow> e' (table_name t)"
  shows "dropped_tables e = dropped_tables e' \<and> dropped_views e = dropped_views e'"
  using assms by (simp add: optional_tables_def dropped_tables_def dropped_views_def power_names_def only_if_def)

lemma trace_end_schema:
  "trace_end conv s (schema_db hp cfg) = Inr db' \<longleftrightarrow>
     (\<exists>db. insert_all conv s (schema_db hp cfg) = Inr db
       \<and> db' = (hide (dropped_tables (empty_list s)) (dropped_views (empty_list s)) db)\<lparr>is_open := False\<rparr>)"
proof -
  have "drop_unused db = Inr (hide (dropped_tables (empty_list s)) (dropped_views (empty_list s)) db)"
    if load: "insert_all conv s (schema_db hp cfg) = Inr db" for db
    using drop_unused_eq [OF loaded_droppable(1) [OF load]]
      dropped_cong [of "no_rows db" "empty_list s"] loaded_droppable(2) [OF load] by simp
  then show ?thesis
    unfolding trace_end_def bind_res_Inr_iff by auto
qed

text \<open>What a list needs to be inserted: a table, a frame of its width, columns that convert, keys.\<close>

definition loadable ::
  "(coltype \<Rightarrow> cell option list \<Rightarrow> val list result) \<Rightarrow> export_config \<Rightarrow> table_id \<Rightarrow> row list \<Rightarrow> bool" where
  "loadable conv cfg t data \<longleftrightarrow> data = []
     \<or> (case map_of (table_statements cfg) (table_name t) of None \<Rightarrow> False
        | Some cs \<Rightarrow> frame_width data = length cs
            \<and> (case frame_rows conv cs data of Inl e \<Rightarrow> False | Inr new \<Rightarrow> keys_ok cs new))"

lemma loadable_iff: "loadable conv cfg t (data_of t s) \<longleftrightarrow> (\<exists>after. loaded_rows conv cfg s t after)"
  by (cases "data_of t s = []")
    (auto simp: loadable_def loaded_rows_def loads_def split: option.splits sum.splits)

lemma trace_end_loadable:
  "(\<exists>db'. trace_end conv s (schema_db hp cfg) = Inr db') \<longleftrightarrow> (\<forall>t. loadable conv cfg t (data_of t s))"
  unfolding loadable_iff insert_all_exists [of conv s hp cfg, symmetric] by (auto simp: trace_end_schema)

text \<open>C14: \<open>trace_end\<close> succeeds exactly when each list that holds rows has a table made for it under
  the configuration, its data frame is as wide as the table, the columns convert, and no id is
  missing or repeated. The dropping of unused tables that follows never fails.\<close>

theorem trace_end_succeeds_iff:
  "(\<exists>db db'. init_db hp cfg = Inr db \<and> trace_end conv s db = Inr db')
     \<longleftrightarrow> (\<forall>t. loadable conv cfg t (data_of t s))"
  using trace_end_loadable [of conv s hp cfg] by (simp add: init_db_eq)

section \<open>A small export\<close>

text \<open>A conversion that keeps every cell, whatever the column; and a trace with one cbr event.\<close>

definition demo_conv :: "coltype \<Rightarrow> cell option list \<Rightarrow> val list result" where
  "demo_conv ty xs = Inr (map (\<lambda>c. case c of None \<Rightarrow> VNull
     | Some (IntCell i) \<Rightarrow> VInt i | Some (StrCell x) \<Rightarrow> VStr x | Some (FloatStr q) \<Rightarrow> VInt (round q)) xs)"

definition demo_events :: "perf_event list" where
  "demo_events = [Comm_thread (ints [1, 0, 0]), Context_switch (ints [3, 0, 55, 1, 0, 0, 0, 0, 1]),
     Synth 7 3 [1, 0, 0, 0]]"

definition demo_collector :: "export_config \<Rightarrow> collector" where
  "demo_collector cfg = (trace_begin cfg init_collector)
     \<lparr>comm_thread_data := [ints [1, 0, 0]],
      context_switch_data := [ints [3, 0, 55, 1, 0, 0, 0, 0, 1]],
      exstop_data := [[StrCell ''7'', StrCell ''1'']]\<rparr>"

lemma demo_collected: "collect (demo_cfg True True False) demo_events = Inr (demo_collector (demo_cfg True True False))"
  by code_simp

lemma demo_loadable:
  "list_all (\<lambda>t. loadable demo_conv (demo_cfg True True False) t
     (data_of t (demo_collector (demo_cfg True True False)))) all_tables"
  by code_simp

lemma demo_trace_end:
  "\<exists>db'. trace_end demo_conv (demo_collector (demo_cfg True True False))
     (schema_db hp (demo_cfg True True False)) = Inr db'"
  unfolding trace_end_loadable using demo_loadable by (simp add: list_all_iff all_tables_names(2))

text \<open>C15: After a successful \<open>trace_end\<close> a table is gone exactly when it was never made or is among
  the unused ones: \<open>ptwrite\<close>, \<open>context_switches\<close> and \<open>auxtrace_errors\<close> if their own list is
  empty, the four power tables only if all four lists are empty, and \<open>cbr\<close> only if its list and
  those four are. Every other table holds one row per collected tuple, in order.\<close>

theorem trace_end_tables:
  assumes "init_db hp cfg = Inr db" and "trace_end conv s db = Inr db'"
  shows "(tables db' (table_name t) = None \<longleftrightarrow>
       map_of (table_statements cfg) (table_name t) = None
       \<or> t \<in> {T_ptwrite, T_context_switches, T_auxtrace_errors} \<and> data_of t s = []
       \<or> t \<in> {T_mwait, T_pwre, T_exstop, T_pwrx, T_cbr} \<and> data_of t s = []
           \<and> mwait_data s = [] \<and> pwre_data s = [] \<and> exstop_data s = [] \<and> pwrx_data s = [])
     \<and> (\<forall>tb. tables db' (table_name t) = Some tb \<longrightarrow>
       map_of (table_statements cfg) (table_name t) = Some (tcols tb)
       \<and> length (trows tb) = length (data_of t s)
       \<and> (data_of t s \<noteq> [] \<longrightarrow> frame_rows conv (tcols tb) (data_of t s) = Inr (trows tb)))"
proof -
  obtain mid where mid: "insert_all conv s (schema_db hp cfg) = Inr mid"
      "tables db' (table_name t) = (if table_name t \<in> dropped_tables (empty_list s) then None
         else tables mid (table_name t))"
    using assms by (auto simp: init_db_eq trace_end_schema)
  have row: "loaded_rows conv cfg s t (tables mid (table_name t))"
    using mid(1) [unfolded insert_all_schema] by blast
  have e: "list_all (empty_list s) power_names \<longleftrightarrow>
      mwait_data s = [] \<and> pwre_data s = [] \<and> exstop_data s = [] \<and> pwrx_data s = []"
    using empty_list_name [of s T_mwait] empty_list_name [of s T_pwre]
      empty_list_name [of s T_exstop] empty_list_name [of s T_pwrx]
    by (simp add: power_names_def)
  define gone where "gone \<longleftrightarrow> t \<in> {T_ptwrite, T_context_switches, T_auxtrace_errors} \<and> data_of t s = []
      \<or> t \<in> {T_mwait, T_pwre, T_exstop, T_pwrx, T_cbr} \<and> data_of t s = []
          \<and> mwait_data s = [] \<and> pwre_data s = [] \<and> exstop_data s = [] \<and> pwrx_data s = []"
  have "table_name t \<in> dropped_tables (empty_list s) \<longleftrightarrow> gone"
    unfolding gone_def using empty_list_name [of s t] unfolding dropped_tables_def e
    by (cases t) (simp_all add: power_names_def)
  moreover have "map_of (table_statements cfg) (table_name t) = None \<longleftrightarrow> tables mid (table_name t) = None"
    using row by (auto simp: loaded_rows_def split: option.splits)
  moreover have "map_of (table_statements cfg) (table_name t) = Some (tcols tb)
       \<and> length (trows tb) = length (data_of t s)
       \<and> (data_of t s \<noteq> [] \<longrightarrow> frame_rows conv (tcols tb) (data_of t s) = Inr (trows tb))"
    if at: "tables mid (table_name t) = Some tb" for tb
  proof -
    obtain cs new where "map_of (table_statements cfg) (table_name t) = Some cs"
        "loads conv cs (data_of t s) new" "tb = \<lparr>tcols = cs, trows = new\<rparr>"
      using row at by (auto simp: loaded_rows_def split: option.splits)
    then show ?thesis using loads_length [of conv cs "data_of t s" new] by (simp add: loads_def)
  qed
  ultimately show ?thesis
    unfolding mid(2) gone_def [symmetric] by (cases gone) simp_all
qed

theorem trace_end_tables_witness:
  "\<exists>db db' tb. init_db False (demo_cfg True True False) = Inr db
     \<and> trace_end demo_conv (demo_collector (demo_cfg True True False)) db = Inr db'
     \<and> tables db' ''ptwrite'' = None
     \<and> tables db' ''exstop'' = Some tb \<and> length (trows tb) = 1 \<and> tables db' ''mwait'' \<noteq> None"
proof -
  obtain db' where db': "trace_end demo_conv (demo_collector (demo_cfg True True False))
      (schema_db False (demo_cfg True True False)) = Inr db'"
    using demo_trace_end by blast
  have lists: "ptwrite_data (demo_collector (demo_cfg True True False)) = []"
    "exstop_data (demo_collector (demo_cfg True True False)) = [[StrCell ''7'', StrCell ''1'']]"
    by code_simp+
  note at = trace_end_tables [OF init_db_eq db']
  have "tables db' ''ptwrite'' = None" using at [of T_ptwrite] lists by simp
  moreover obtain tb where "tables db' ''exstop'' = Some tb"
    using at [of T_exstop] lists schema_optional(1) [where cfg = "demo_cfg True True False"]
    by (auto simp: optional_tables_def)
  moreover have "tables db' ''mwait'' \<noteq> None"
    using at [of T_mwait] lists schema_optional(1) [where cfg = "demo_cfg True True False"]
    by (auto simp: optional_tables_def)
  ultimately show ?thesis
    using at [of T_exstop] lists db' by (auto simp: init_db_eq)
qed

end
