(* ===== verification/Name_Resolution.thy ===== *)
theory Name_Resolution
  imports Export_Schema
begin

text \<open>
  What the binding of a view depends on: only the columns of the relations it reads, all of which
  exist if it binds. This is what carries \<open>binds\<close> over changes of the catalog.
\<close>

lemma resolves_cong:
  "(\<And>r. r \<in> set (expr_relations e) \<Longrightarrow> env r = env' r) \<Longrightarrow> resolves env ls e = resolves env' ls e"
  by (induction e arbitrary: ls) (auto split: option.split)

lemma from_level_cong:
  "(\<And>r. r \<in> fst ` set tas \<Longrightarrow> env r = env' r) \<Longrightarrow> from_level env tas = from_level env' tas"
  by (induction tas) (auto split: option.split)

lemma set_relations:
  "set (relations v) = fst ` set (from_list v) \<union> (\<Union>i\<in>set (items v). set (expr_relations (fst i)))
     \<union> (\<Union>c\<in>set (conditions v). set (expr_relations c))"
  by (auto simp: relations_def)

lemma view_resolves_cong:
  assumes "\<And>r. r \<in> set (relations v) \<Longrightarrow> env r = env' r"
  shows "view_resolves env v = view_resolves env' v"
proof -
  have "from_level env (from_list v) = from_level env' (from_list v)"
    by (rule from_level_cong) (use assms in \<open>auto simp: set_relations\<close>)
  moreover have "resolves env ls (fst i) = resolves env' ls (fst i)" if "i \<in> set (items v)" for ls i
    by (rule resolves_cong) (use assms that in \<open>auto simp: set_relations\<close>)
  moreover have "resolves env ls c = resolves env' ls c" if "c \<in> set (conditions v)" for ls c
    by (rule resolves_cong) (use assms that in \<open>auto simp: set_relations\<close>)
  ultimately show ?thesis
    by (auto simp: view_resolves_def list_all_iff split: option.split)
qed

lemma resolves_relations: "resolves env ls e \<Longrightarrow> r \<in> set (expr_relations e) \<Longrightarrow> env r \<noteq> None"
  by (induction e arbitrary: ls) (auto split: option.splits)

lemma from_level_relations: "from_level env tas = Some l \<Longrightarrow> r \<in> fst ` set tas \<Longrightarrow> env r \<noteq> None"
  by (induction tas arbitrary: l) (auto split: option.splits)

lemma view_resolves_relations:
  assumes "view_resolves env v" and "r \<in> set (relations v)"
  shows "env r \<noteq> None"
proof -
  obtain l where l: "from_level env (from_list v) = Some l"
      "\<forall>i\<in>set (items v). resolves env [l] (fst i)" "\<forall>c\<in>set (conditions v). resolves env [l] c"
    using assms(1) by (auto simp: view_resolves_def list_all_iff split: option.splits)
  from assms(2) consider "r \<in> fst ` set (from_list v)"
    | i where "i \<in> set (items v)" "r \<in> set (expr_relations (fst i))"
    | c where "c \<in> set (conditions v)" "r \<in> set (expr_relations c)"
    by (auto simp: set_relations)
  then show ?thesis
    by cases (use l from_level_relations resolves_relations in blast)+
qed

lemma binds_cong:
  "(\<And>r. r \<in> set (relations v) \<Longrightarrow> columns_of db r = columns_of db' r) \<Longrightarrow> binds db v = binds db' v"
  unfolding binds_def by (rule view_resolves_cong)

lemma binds_relations: "binds db v \<Longrightarrow> r \<in> set (relations v) \<Longrightarrow> columns_of db r \<noteq> None"
  unfolding binds_def by (rule view_resolves_relations)

lemma binds_more:
  assumes "binds db v" and "\<And>n. columns_of db n \<noteq> None \<Longrightarrow> columns_of db' n = columns_of db n"
  shows "binds db' v"
  using assms binds_cong [of v db db'] binds_relations [OF assms(1)] by metis

end
