(* ===== verification/Export_Props.thy ===== *)
theory Export_Props
  imports End_Props Name_Resolution
begin

text \<open>
  The exporter as a whole: the schema, the rows the callbacks store, and \<open>trace_end\<close> fit together.
  Under which arguments and events the script succeeds, and which of them make it fail.
\<close>

section \<open>The schema is consistent\<close>

text \<open>Placeholders of the INSERT statements, by table (the strings themselves are not executed).\<close>

definition insert_queries :: "export_config \<Rightarrow> (table_id \<times> nat) list" where
  "insert_queries cfg =
     [(T_selected_events, 2), (T_machines, 3), (T_threads, 5), (T_comms, 5), (T_comm_threads, 3),
      (T_dsos, 5), (T_symbols, 6), (T_branch_types, 2),
      (T_samples, if branches cfg then 21 else 25)]
     @ (if perf_db_export_calls cfg \<or> perf_db_export_callchains cfg then [(T_call_paths, 4)] else [])
     @ (if perf_db_export_calls cfg then [(T_calls, 14)] else [])
     @ [(T_ptwrite, 3), (T_cbr, 4), (T_mwait, 3), (T_pwre, 4), (T_exstop, 2), (T_pwrx, 4),
        (T_context_switches, 9), (T_auxtrace_errors, 11)]"

definition width_of_table :: "export_config \<Rightarrow> table_id \<Rightarrow> nat option" where
  "width_of_table cfg t = map_option length (map_of (table_statements cfg) (table_name t))"

lemmas column_lengths = pk_def col_def
  selected_events_columns_def machines_columns_def threads_columns_def comms_columns_def
  comm_threads_columns_def dsos_columns_def symbols_columns_def branch_types_columns_def
  samples_branches_columns_def samples_all_columns_def call_paths_columns_def calls_columns_def
  ptwrite_columns_def cbr_columns_def mwait_columns_def pwre_columns_def exstop_columns_def
  pwrx_columns_def context_switches_columns_def auxtrace_errors_columns_def

lemma insert_width: "width_of_table cfg t = map_of (insert_queries cfg) t"
  unfolding width_of_table_def table_statements_def insert_queries_def
  by (cases t) (simp_all add: column_lengths)

lemma create_views_bind:
  assumes "fold_res create_view ds db = Inr db'"
  shows "(\<forall>d\<in>set ds. binds db' (snd d)) \<and> (\<forall>n. columns_of db n \<noteq> None \<longrightarrow> columns_of db' n = columns_of db n)"
  using assms
proof (induction ds arbitrary: db)
  case Nil
  then show ?case by simp
next
  case (Cons d ds)
  let ?db = "db\<lparr>views := (views db)(fst d \<mapsto> snd d)\<rparr>"
  from Cons.prems obtain u where u: "create_view d db = Inr u" "fold_res create_view ds u = Inr db'"
    by (auto simp: bind_res_Inr_iff)
  then have d: "columns_of db (fst d) = None" "binds db (snd d)" "u = ?db"
    by (auto simp: create_view_def split: if_splits)
  note u = u(2) [unfolded d(3)]
  note IH = Cons.IH [OF u]
  have up: "columns_of ?db n = columns_of db n" if "columns_of db n \<noteq> None" for n
  proof -
    have "n \<noteq> fst d" using d(1) that by auto
    then show ?thesis by (simp add: columns_of_def split: option.split)
  qed
  have same: "columns_of db' n = columns_of db n" if "columns_of db n \<noteq> None" for n
    using IH up [OF that] that by simp
  then have "binds db' (snd d)" using binds_more [OF d(2)] by blast
  then show ?case using IH same by simp
qed

lemma schema_binds: "views (schema_db hp cfg) n = Some v \<Longrightarrow> binds (schema_db hp cfg) v"
proof -
  assume "views (schema_db hp cfg) n = Some v"
  then have "(n, v) \<in> set (view_statements hp cfg)"
    by (simp add: schema_db_def map_of_SomeD)
  moreover have "fold_res create_view (view_statements hp cfg) (schema_db hp cfg\<lparr>views := (\<lambda>_. None)\<rparr>) = Inr (schema_db hp cfg)"
    using init_db_eq [of hp cfg] by (simp add: init_db_def tables_made [of cfg hp])
  ultimately show ?thesis using create_views_bind by fastforce
qed

text \<open>C16: The CREATE statements run without an error under every combination of arguments; each
  view then finds every column it reads (the narrow samples table included), and each table is as
  wide as the placeholders of its INSERT statement.\<close>

theorem schema_consistent:
  "\<exists>db. init_db hp cfg = Inr db
    \<and> (\<forall>n. tables db n = map_option empty_table (map_of (table_statements cfg) n)
         \<and> views db n = map_of (view_statements hp cfg) n)
    \<and> (\<forall>n v. views db n = Some v \<longrightarrow> binds db v)
    \<and> (\<forall>t. width_of_table cfg t = map_of (insert_queries cfg) t)"
  using schema_binds [of hp cfg] by (simp add: init_db_eq insert_width schema_table) (simp add: schema_db_def)

theorem schema_consistent_witness:
  "\<exists>db. init_db False (demo_cfg True False True) = Inr db
    \<and> views db ''samples_view'' = Some (samples_view False) \<and> binds db (samples_view False)"
proof -
  have "map_of (view_statements False (demo_cfg True False True)) ''samples_view'' = Some (samples_view False)"
    by (simp add: view_statements_def demo_cfg_def)
  then show ?thesis
    using schema_consistent [of False "demo_cfg True False True"] by auto
qed

section \<open>No view is left without its tables\<close>

text \<open>What a view may read: never a view that can be dropped; an optional table only if it is its own.\<close>

definition own_optional :: "string \<times> view \<Rightarrow> bool" where
  "own_optional d \<longleftrightarrow> list_all (\<lambda>r.
     list_all (\<lambda>t. (r = table_name t \<longrightarrow> fst d = table_name t @ ''_view''
          \<or> fst d = ''power_events_view'' \<and> t \<in> set [T_mwait, T_pwre, T_exstop, T_pwrx, T_cbr])
        \<and> r \<noteq> table_name t @ ''_view'') optional_tables
     \<and> r \<noteq> ''power_events_view'') (relations (snd d))"

lemma views_own_optional: "list_all own_optional (view_statements hp (demo_cfg True True True))"
  by code_simp

lemma view_statements_sub: "set (view_statements hp cfg) \<subseteq> set (view_statements hp (demo_cfg True True True))"
  by (auto simp: view_statements_def demo_cfg_def)

lemma own_optionalD:
  assumes "own_optional (n, v)" and "r \<in> set (relations v)" and "n \<notin> dropped_views e"
  shows "r \<notin> dropped_tables e \<and> r \<notin> dropped_views e"
proof -
  have r: "list_all (\<lambda>t. (r = table_name t \<longrightarrow> n = table_name t @ ''_view''
          \<or> n = ''power_events_view'' \<and> t \<in> set [T_mwait, T_pwre, T_exstop, T_pwrx, T_cbr])
        \<and> r \<noteq> table_name t @ ''_view'') optional_tables" "r \<noteq> ''power_events_view''"
    using assms(1,2) by (auto simp: own_optional_def list_all_iff)
  have dropped: "\<exists>t\<in>set optional_tables. d = table_name t" if "d \<in> dropped_tables e" for d
    using that by (auto simp: dropped_tables_def only_if_def power_names_def optional_tables_def split: if_splits)
  have power: "list_all e power_names"
    if "table_name t \<in> dropped_tables e" "t \<in> set [T_mwait, T_pwre, T_exstop, T_pwrx, T_cbr]" for t
    using that by (auto simp: dropped_tables_def only_if_def split: if_splits)
  have "r \<notin> dropped_tables e"
  proof
    assume d: "r \<in> dropped_tables e"
    then obtain t where t: "t \<in> set optional_tables" "r = table_name t" using dropped by blast
    then have "n = table_name t @ ''_view'' \<or> n = ''power_events_view'' \<and> list_all e power_names"
      using r(1) d power [of t] by (auto simp: list_all_iff)
    then show False using assms(3) d t(2) by (auto simp: dropped_views_def view_names_def)
  qed
  moreover have "r \<notin> dropped_views e"
  proof
    assume "r \<in> dropped_views e"
    then obtain d where "d \<in> dropped_tables e" "r = d @ ''_view''"
      using r(2) by (auto simp: dropped_views_def view_names_def split: if_splits)
    then show False using r(1) dropped by (auto simp: list_all_iff)
  qed
  ultimately show ?thesis ..
qed

lemma hide_columns:
  "r \<notin> D \<Longrightarrow> r \<notin> V \<Longrightarrow> columns_of (hide D V db) r = columns_of db r"
  by (simp add: columns_of_def split: option.split)

lemma loaded_columns:
  assumes "insert_all conv s (schema_db hp cfg) = Inr db"
  shows "columns_of db n = columns_of (schema_db hp cfg) n"
proof -
  note load = assms [unfolded insert_all_schema]
  have "map_option tcols (tables db n) = map_option tcols (tables (schema_db hp cfg) n)"
  proof (cases "n \<in> range table_name")
    case True
    then obtain t where "n = table_name t" by blast
    moreover have "loaded_rows conv cfg s t (tables db (table_name t))" using load by blast
    ultimately show ?thesis
      by (auto simp: schema_table empty_table_def loaded_rows_def split: option.splits)
  next
    case False
    then have "map_of (table_statements cfg) n = None" using schema_names [of cfg n]
      by (cases "map_of (table_statements cfg) n") auto
    then show ?thesis using load False by (simp add: schema_table)
  qed
  moreover have "views db = views (schema_db hp cfg)" using load by blast
  ultimately show ?thesis
    by (cases "tables db n"; cases "tables (schema_db hp cfg) n") (simp_all add: columns_of_def)
qed

lemma views_bind_at_end:
  assumes "init_db hp cfg = Inr db" and "trace_end conv s db = Inr db'" and "views db' n = Some v"
  shows "binds db' v"
proof -
  let ?D = "dropped_tables (empty_list s)" and ?V = "dropped_views (empty_list s)"
  obtain mid where mid: "insert_all conv s (schema_db hp cfg) = Inr mid"
      "db' = (hide ?D ?V mid)\<lparr>is_open := False\<rparr>"
    using assms(1,2) by (auto simp: init_db_eq trace_end_schema)
  have v: "views (schema_db hp cfg) n = Some v" "n \<notin> ?V"
    using assms(3) mid(1) [unfolded insert_all_schema] by (auto simp: mid(2) split: if_splits)
  then have "(n, v) \<in> set (view_statements hp cfg)" by (simp add: schema_db_def map_of_SomeD)
  then have own: "own_optional (n, v)"
    using views_own_optional view_statements_sub [of hp cfg] by (auto simp: list_all_iff)
  have same: "columns_of db' r = columns_of (schema_db hp cfg) r" if "r \<in> set (relations v)" for r
  proof -
    have "columns_of db' r = columns_of (hide ?D ?V mid) r" by (simp add: mid(2) columns_of_def split: option.split)
    then show ?thesis
      using own_optionalD [OF own that v(2)] by (simp add: hide_columns loaded_columns [OF mid(1)])
  qed
  have "binds (schema_db hp cfg) v" by (rule schema_binds [OF v(1)])
  then show ?thesis using same binds_cong by blast
qed

text \<open>C28: However the trace went, once \<open>trace_end\<close> has dropped the unused tables every view that is
  left still binds: no remaining view reads a table, a view or a column that is gone.\<close>

theorem no_dangling_views:
  assumes "init_db hp cfg = Inr db" and "trace_end conv s db = Inr db'" and "views db' n = Some v"
  shows "binds db' v"
  using assms by (rule views_bind_at_end)

theorem no_dangling_views_witness:
  "\<exists>db db'. init_db False (demo_cfg True True False) = Inr db
     \<and> trace_end demo_conv (demo_collector (demo_cfg True True False)) db = Inr db'
     \<and> views db' ''power_events_view'' = Some (power_events_view False) \<and> binds db' (power_events_view False)
     \<and> views db' ''ptwrite_view'' = None"
proof -
  let ?cfg = "demo_cfg True True False" and ?s = "demo_collector (demo_cfg True True False)"
  obtain db' where db': "trace_end demo_conv ?s (schema_db False ?cfg) = Inr db'"
    using demo_trace_end by blast
  then obtain mid where mid: "insert_all demo_conv ?s (schema_db False ?cfg) = Inr mid"
      "db' = (hide (dropped_tables (empty_list ?s)) (dropped_views (empty_list ?s)) mid)\<lparr>is_open := False\<rparr>"
    by (auto simp: trace_end_schema)
  have "exstop_data ?s \<noteq> []" "ptwrite_data ?s = []"
    by code_simp+
  then have "\<not> empty_list ?s ''exstop''" "empty_list ?s ''ptwrite''"
    using empty_list_name [of ?s T_exstop] empty_list_name [of ?s T_ptwrite] by simp_all
  then have "''power_events_view'' \<notin> dropped_views (empty_list ?s)" "''ptwrite_view'' \<in> dropped_views (empty_list ?s)"
    by (auto simp: dropped_views_def view_names_def dropped_tables_def power_names_def only_if_def)
  moreover have "views mid = map_of (view_statements False ?cfg)"
    using mid(1) [unfolded insert_all_schema] by (simp add: schema_db_def)
  ultimately have "views db' ''power_events_view'' = Some (power_events_view False)" "views db' ''ptwrite_view'' = None"
    by (simp_all add: mid(2) view_statements_def demo_cfg_def)
  then show ?thesis
    using no_dangling_views [OF init_db_eq db'] db' by (auto simp: init_db_eq)
qed

end
