(* ===== verification/Export_Whole.thy ===== *)
theory Export_Whole
  imports Export_Props
begin

text \<open>
  The script from its arguments to the closed database: the rows that fit their tables, when an
  export succeeds, and the two ways rows end up in the list of a table that does not exist.
\<close>

section \<open>The narrow samples table\<close>

definition narrow_dropped :: "string list" where
  "narrow_dropped = [''period'', ''weight'', ''transaction_'', ''data_src'']"

text \<open>With the \<open>branches\<close> argument a sample's tuple is cut so that every value stays under the
  column it belongs to: the narrow row paired with the narrow table's columns is the wide row
  paired with the wide table's columns, less the four columns the narrow table does not have.\<close>

theorem narrow_sample_aligned:
  assumes "length x = 25"
  shows "zip (map cname samples_branches_columns) (sample_row True x)
      = filter (\<lambda>(c, v). c \<notin> set narrow_dropped) (zip (map cname samples_all_columns) (sample_row False x))
    \<and> length (sample_row True x) = length samples_branches_columns
    \<and> length (sample_row False x) = length samples_all_columns"
proof -
  have "x = map ((!) x) [0..<25]" using assms map_nth [of x] by simp
  then obtain f where x: "x = map f [0..<25]" by blast
  show ?thesis
    unfolding x
    by (simp add: sample_row_def py_slice_def upt_rec samples_branches_columns_def samples_all_columns_def
        pk_def col_def narrow_dropped_def)
qed

theorem narrow_sample_aligned_witness:
  "zip (map cname samples_branches_columns) (sample_row True (ints [0..24])) ! 15 = (''branch_type'', IntCell 19)"
proof -
  have "length (ints [0..24]) = 25" by (simp add: ints_def)
  from narrow_sample_aligned [OF this] show ?thesis
    by (simp add: ints_def sample_row_def samples_all_columns_def pk_def col_def narrow_dropped_def upto_rec1)
qed

section \<open>Rows that fit\<close>

definition row_fits :: "export_config \<Rightarrow> table_id \<Rightarrow> row \<Rightarrow> bool" where
  "row_fits cfg t r \<longleftrightarrow> width_of_table cfg t = Some (length r)"

text \<open>The tuples perf passes, by their lengths; \<open>ptwrite\<close> events and call rows without a \<open>calls\<close>
  table are the ones that do not fit.\<close>

fun event_fits :: "export_config \<Rightarrow> perf_event \<Rightarrow> bool" where
  "event_fits cfg (Evsel x) \<longleftrightarrow> length x = 2"
| "event_fits cfg (Machine x) \<longleftrightarrow> length x = 3"
| "event_fits cfg (Thread x) \<longleftrightarrow> length x = 5"
| "event_fits cfg (Comm x) \<longleftrightarrow> length x = 5"
| "event_fits cfg (Comm_thread x) \<longleftrightarrow> length x = 3"
| "event_fits cfg (Dso x) \<longleftrightarrow> length x = 5"
| "event_fits cfg (Symbol x) \<longleftrightarrow> length x = 6"
| "event_fits cfg (Branch_type x) \<longleftrightarrow> length x = 2"
| "event_fits cfg (Sample x) \<longleftrightarrow> length x = 25"
| "event_fits cfg (Call_path x) \<longleftrightarrow> length x = 4 \<and> (perf_db_export_calls cfg \<or> perf_db_export_callchains cfg)"
| "event_fits cfg (Call_return x) \<longleftrightarrow> length x = 14 \<and> perf_db_export_calls cfg"
| "event_fits cfg (Context_switch x) \<longleftrightarrow> length x = 9"
| "event_fits cfg (Auxtrace_error x) \<longleftrightarrow> length x = 11"
| "event_fits cfg (Synth i config buf) \<longleftrightarrow> config \<noteq> 0"
| "event_fits cfg Unhandled \<longleftrightarrow> True"
| "event_fits cfg Sched_switch \<longleftrightarrow> True"

lemma width_of_tables:
  "width_of_table cfg T_selected_events = Some 2" "width_of_table cfg T_machines = Some 3"
  "width_of_table cfg T_threads = Some 5" "width_of_table cfg T_comms = Some 5"
  "width_of_table cfg T_comm_threads = Some 3" "width_of_table cfg T_dsos = Some 5"
  "width_of_table cfg T_symbols = Some 6" "width_of_table cfg T_branch_types = Some 2"
  "width_of_table cfg T_samples = Some (if branches cfg then 21 else 25)"
  "width_of_table cfg T_call_paths =
     (if perf_db_export_calls cfg \<or> perf_db_export_callchains cfg then Some 4 else None)"
  "width_of_table cfg T_calls = (if perf_db_export_calls cfg then Some 14 else None)"
  "width_of_table cfg T_ptwrite = Some 3" "width_of_table cfg T_cbr = Some 4"
  "width_of_table cfg T_mwait = Some 3" "width_of_table cfg T_pwre = Some 4"
  "width_of_table cfg T_exstop = Some 2" "width_of_table cfg T_pwrx = Some 4"
  "width_of_table cfg T_context_switches = Some 9" "width_of_table cfg T_auxtrace_errors = Some 11"
  by (simp_all add: insert_width insert_queries_def)

lemma sample_row_length: "length x = 25 \<Longrightarrow> length (sample_row br x) = (if br then 21 else 25)"
  by (simp add: sample_row_def py_slice_def)

lemma decoded_length:
  "mwait_row i buf = Inr x \<Longrightarrow> length x = 3" "pwre_row i buf = Inr x \<Longrightarrow> length x = 4"
  "exstop_row i buf = Inr x \<Longrightarrow> length x = 2" "pwrx_row i buf = Inr x \<Longrightarrow> length x = 4"
  "cbr_row i buf = Inr x \<Longrightarrow> length x = 4"
  by (auto simp: mwait_row_def pwre_row_def exstop_row_def pwrx_row_def cbr_row_def Let_def
      bind_res_Inr_iff split: if_splits)

lemma entries_fit:
  assumes "event_fits cfg ev" and "entries cfg ev = Inr lg" and "(t, r) \<in> set lg"
  shows "row_fits cfg t r"
proof (cases "\<exists>i config buf. ev = Synth i config buf")
  case True
  then show ?thesis
    using assms by (auto simp: decoder_def row_fits_def width_of_tables bind_res_Inr_iff
        split: if_splits) (simp_all add: decoded_length)
next
  case False
  then show ?thesis
    using assms by (cases ev) (auto simp: row_fits_def width_of_tables sample_row_length)
qed

lemma trace_begin_fits:
  assumes "perf_db_export_callchains cfg \<longrightarrow> perf_db_export_calls cfg"
    and "r \<in> set (data_of t (trace_begin cfg init_collector))"
  shows "row_fits cfg t r"
  using assms unfolding trace_begin_data
  by (cases t) (auto simp: init_collector_def row_fits_def width_of_tables sample_row_length ints_def
      split: if_splits)

lemma collect_fits:
  assumes "perf_db_export_callchains cfg \<longrightarrow> perf_db_export_calls cfg"
    and "\<forall>ev\<in>set evs. event_fits cfg ev" and "collect cfg evs = Inr s" and "r \<in> set (data_of t s)"
  shows "row_fits cfg t r"
proof -
  obtain logs where s: "\<forall>t. data_of t s = data_of t (trace_begin cfg init_collector) @ rows_for t (concat logs)"
    and from_event: "\<forall>lg\<in>set logs. \<exists>ev\<in>set evs. entries cfg ev = Inr lg"
    and to_log: "\<forall>ev\<in>set evs. \<exists>lg\<in>set logs. entries cfg ev = Inr lg"
    by (rule collect_logs [OF assms(3)])
  from assms(4) spec [OF s, of t] consider "r \<in> set (data_of t (trace_begin cfg init_collector))"
    | lg where "lg \<in> set logs" "(t, r) \<in> set lg"
    by (auto simp: rows_for_def)
  then show ?thesis
  proof cases
    case 1
    then show ?thesis by (rule trace_begin_fits [OF assms(1)])
  next
    case 2
    then show ?thesis using from_event entries_fit assms(2) by blast
  qed
qed

lemma frame_width_fits:
  assumes "data \<noteq> []" and "\<forall>r\<in>set data. length r = w"
  shows "frame_width data = w"
proof -
  have "set (map length data) = {w}" using assms by (cases data) auto
  then show ?thesis by (simp add: frame_width_def)
qed

text \<open>C17: An export succeeds, and leaves the database closed, when the arguments are accepted,
  \<open>callchains\<close> is not asked for without \<open>calls\<close>, every event decodes and is of the shape perf
  passes (no ptwrite), and the collected ids and values can be converted to their columns.\<close>

theorem export_succeeds:
  assumes "start_export can_open argv = Inr cfg"
    and "perf_db_export_callchains cfg \<longrightarrow> perf_db_export_calls cfg"
    and "\<forall>ev\<in>set evs. event_fits cfg ev \<and> decode_error ev = None"
    and "\<And>s t cs. collect cfg evs = Inr s \<Longrightarrow> data_of t s \<noteq> [] \<Longrightarrow>
      map_of (table_statements cfg) (table_name t) = Some cs \<Longrightarrow>
      \<exists>new. frame_rows conv cs (data_of t s) = Inr new \<and> keys_ok cs new"
  shows "\<exists>db. export can_open conv hp argv evs = Inr db \<and> \<not> is_open db"
proof -
  have "\<exists>logs. map_res (entries cfg) evs = Inr logs"
    by (rule map_res_exists) (use assms(3) in \<open>simp add: entries_ok\<close>)
  then obtain s where s: "collect cfg evs = Inr s"
    using run_events_logged [of cfg evs "trace_begin cfg init_collector"]
    by (cases "run_events cfg evs (trace_begin cfg init_collector)") (auto simp: collect_def)
  have "loadable conv cfg t (data_of t s)" for t
  proof (cases "data_of t s = []")
    case True
    then show ?thesis by (simp add: loadable_def)
  next
    case False
    have fits: "\<forall>r\<in>set (data_of t s). row_fits cfg t r"
      using collect_fits [OF assms(2) _ s] assms(3) by blast
    obtain r where "r \<in> set (data_of t s)" using False by fastforce
    with fits obtain cs where cs: "map_of (table_statements cfg) (table_name t) = Some cs"
        "length cs = length r"
      by (auto simp: row_fits_def width_of_table_def)
    moreover have "frame_width (data_of t s) = length cs"
      using fits cs by (intro frame_width_fits [OF False]) (auto simp: row_fits_def width_of_table_def)
    ultimately show ?thesis using assms(4) [OF s False cs(1)] by (auto simp: loadable_def)
  qed
  then obtain db' where db': "trace_end conv s (schema_db hp cfg) = Inr db'"
    using trace_end_loadable by blast
  then have "\<not> is_open db'" by (auto simp: trace_end_schema)
  then show ?thesis using assms(1) s db' by (simp add: export_def init_db_eq)
qed

lemma demo_start:
  "start_export (\<lambda>_. False) [''export'', ''t.db'', ''branches'', ''calls''] = Inr (demo_cfg True True False)"
  "start_export (\<lambda>_. False) [''export'', ''t.db'', ''all'', ''callchains''] = Inr (demo_cfg False False True)"
  "start_export (\<lambda>_. False) [''export'', ''t.db''] = Inr (demo_cfg False False False)"
  by code_simp+

lemma demo_events_fit: "list_all (\<lambda>ev. event_fits (demo_cfg True True False) ev \<and> decode_error ev = None) demo_events"
  by code_simp

theorem export_succeeds_witness:
  "\<exists>db. export (\<lambda>_. False) demo_conv False [''export'', ''t.db'', ''branches'', ''calls''] demo_events = Inr db
     \<and> \<not> is_open db"
proof (rule export_succeeds [OF demo_start(1)])
  show "perf_db_export_callchains (demo_cfg True True False) \<longrightarrow> perf_db_export_calls (demo_cfg True True False)"
    by (simp add: demo_cfg_def)
  show "\<forall>ev\<in>set demo_events. event_fits (demo_cfg True True False) ev \<and> decode_error ev = None"
    using demo_events_fit by (simp only: list_all_iff)
  fix s t cs
  assume "collect (demo_cfg True True False) demo_events = Inr s" and data: "data_of t s \<noteq> []"
    and cs: "map_of (table_statements (demo_cfg True True False)) (table_name t) = Some cs"
  then have s: "s = demo_collector (demo_cfg True True False)" using demo_collected by simp
  have "loadable demo_conv (demo_cfg True True False) t (data_of t s)"
    using demo_loadable by (simp add: s list_all_iff all_tables_names(2))
  then show "\<exists>new. frame_rows demo_conv cs (data_of t s) = Inr new \<and> keys_ok cs new"
    using data cs by (auto simp: loadable_def split: sum.splits)
qed

section \<open>Rows for a table that does not exist\<close>

lemma call_rows_fail:
  assumes "start_export can_open argv = Inr cfg" and "\<not> perf_db_export_calls cfg"
    and "\<And>s. collect cfg evs = Inr s \<Longrightarrow> call_data s \<noteq> []"
  shows "\<exists>e. export can_open conv hp argv evs = Inl e"
proof (cases "collect cfg evs")
  case (Inl e)
  then show ?thesis using assms(1) by (simp add: export_def init_db_eq)
next
  case (Inr s)
  have "map_of (table_statements cfg) ''calls'' = None"
    using assms(2) by (simp add: table_statements_def map_add_def)
  then have "\<not> loadable conv cfg T_calls (data_of T_calls s)"
    using assms(3) [OF Inr] by (simp add: loadable_def)
  then have "\<not> (\<exists>db'. trace_end conv s (schema_db hp cfg) = Inr db')"
    unfolding trace_end_loadable by blast
  then show ?thesis
    using assms(1) Inr by (cases "trace_end conv s (schema_db hp cfg)") (auto simp: export_def init_db_eq)
qed

text \<open>Asking for \<open>callchains\<close> without \<open>calls\<close> can never succeed, whatever the trace holds:
  \<open>trace_begin\<close> stores the unknown call in \<open>call_data\<close>, and \<open>trace_end\<close> inserts it into a
  table that is only made with \<open>calls\<close>.\<close>

theorem callchains_without_calls_fails:
  assumes "start_export can_open argv = Inr cfg"
    and "perf_db_export_callchains cfg" and "\<not> perf_db_export_calls cfg"
  shows "\<exists>e. export can_open conv hp argv evs = Inl e"
proof (rule call_rows_fail [OF assms(1,3)])
  fix s assume "collect cfg evs = Inr s"
  then obtain lg where "logged lg (sum_list (map unhandled evs)) (trace_begin cfg init_collector) s"
    by (auto simp: collect_logged)
  then have "call_data s = call_data (trace_begin cfg init_collector) @ rows_for T_calls lg"
    by (auto simp: logged_def dest: spec [of _ T_calls])
  then show "call_data s \<noteq> []"
    using assms(2) trace_begin_data [of T_calls cfg init_collector] by simp
qed

theorem callchains_without_calls_fails_witness:
  "\<exists>e. export (\<lambda>_. False) demo_conv False [''export'', ''t.db'', ''all'', ''callchains''] [] = Inl e"
  by (rule callchains_without_calls_fails [OF demo_start(2)]) (simp_all add: demo_cfg_def)

text \<open>Without \<open>calls\<close>, one ptwrite event in the trace is enough to make the export fail: its row
  is stored with the calls, for which there is no table.\<close>

theorem ptwrite_without_calls_fails:
  assumes "start_export can_open argv = Inr cfg" and "\<not> perf_db_export_calls cfg"
    and "Synth i 0 buf \<in> set evs"
  shows "\<exists>e. export can_open conv hp argv evs = Inl e"
proof (rule call_rows_fail [OF assms(1,2)])
  fix s assume "collect cfg evs = Inr s"
  then show "call_data s \<noteq> []" using collect_ptwrite [OF _ assms(3)] by fastforce
qed

theorem ptwrite_without_calls_fails_witness:
  "\<exists>e. export (\<lambda>_. False) demo_conv False [''export'', ''t.db''] [Synth 7 0 [1, 0, 0, 0, 42, 0, 0, 0, 0, 0, 0, 0]] = Inl e"
  by (rule ptwrite_without_calls_fails [OF demo_start(3), of 7]) (simp_all add: demo_cfg_def)

end
