(* ===== verification/Exported_Data.thy ===== *)
theory Exported_Data
  imports Analysis_Input Export_Whole
begin

text \<open>
  What is in the tables of an exported database, cell by cell: the rows are the collected tuples,
  converted. A conversion is faithful if integers and strings that are stored in columns of their
  type come back as they were; that is all the analysis relies on.
\<close>

section \<open>Conversion\<close>

fun stores :: "coltype \<Rightarrow> cell \<Rightarrow> val \<Rightarrow> bool" where
  "stores C_integer (IntCell i) v \<longleftrightarrow> v = VInt i"
| "stores C_bigint (IntCell i) v \<longleftrightarrow> v = VInt i"
| "stores (C_varchar n) (StrCell s) v \<longleftrightarrow> v = VStr s"
| "stores _ _ v \<longleftrightarrow> True"

definition faithful :: "(coltype \<Rightarrow> cell option list \<Rightarrow> val list result) \<Rightarrow> bool" where
  "faithful conv \<longleftrightarrow> (\<forall>ty ks vs. conv ty (map Some ks) = Inr vs \<longrightarrow> list_all2 (stores ty) ks vs)"

definition row_stored :: "column list \<Rightarrow> row \<Rightarrow> val list \<Rightarrow> bool" where
  "row_stored cs r v \<longleftrightarrow> length v = length cs \<and> (\<forall>j<length cs. stores (ctype (cs ! j)) (r ! j) (v ! j))"

lemma frame_rows_stored:
  assumes "faithful conv" and "frame_rows conv cs data = Inr new" and "\<forall>r\<in>set data. length r = length cs"
  shows "list_all2 (row_stored cs) data new"
proof -
  obtain vss where vss: "list_all2 (\<lambda>j vs. conv (ctype (cs ! j)) (frame_column data j) = Inr vs) [0..<length cs] vss"
    and new: "new = map (\<lambda>i. map (\<lambda>vs. vs ! i) vss) [0..<length data]"
    using assms(2) by (auto simp: frame_rows_def bind_res_Inr_iff map_res_Inr_iff)
  have len: "length vss = length cs" using list_all2_lengthD [OF vss] by simp
  have col: "list_all2 (stores (ctype (cs ! j))) (map (\<lambda>r. r ! j) data) (vss ! j)" if j: "j < length cs" for j
  proof -
    have "conv (ctype (cs ! j)) (frame_column data j) = Inr (vss ! j)"
      using list_all2_nthD [OF vss, of j] j by simp
    moreover have "frame_column data j = map Some (map (\<lambda>r. r ! j) data)"
      using assms(3) j by (simp add: frame_column_def)
    ultimately show ?thesis using assms(1) by (simp add: faithful_def)
  qed
  show ?thesis
  proof (rule list_all2_all_nthI)
    show "length data = length new" by (simp add: new)
    fix i assume i: "i < length data"
    have "stores (ctype (cs ! j)) (data ! i ! j) (vss ! j ! i)" if "j < length cs" for j
      using list_all2_nthD [OF col [OF that], of i] i by simp
    then show "row_stored cs (data ! i) (new ! i)" using i len by (simp add: row_stored_def new)
  qed
qed

lemma loads_stored:
  assumes "faithful conv" and "loads conv cs data new" and "\<forall>r\<in>set data. length r = length cs"
  shows "list_all2 (row_stored cs) data new"
  using assms frame_rows_stored [of conv cs data new] by (auto simp: loads_def split: if_splits)

lemma loads_keys: "loads conv cs data new \<Longrightarrow> keys_ok cs new"
  by (auto simp: loads_def keys_ok_def list_all_iff split: if_splits)

section \<open>The tables of an exported database\<close>

definition holds :: "export_config \<Rightarrow> collector \<Rightarrow> database \<Rightarrow> table_id \<Rightarrow> bool" where
  "holds cfg s db t \<longleftrightarrow> (case map_of (table_statements cfg) (table_name t) of
      None \<Rightarrow> tables db (table_name t) = None
    | Some cs \<Rightarrow> \<exists>new. tables db (table_name t) = Some \<lparr>tcols = cs, trows = new\<rparr> \<and> keys_ok cs new
        \<and> length new = length (data_of t s)
        \<and> ((\<forall>r\<in>set (data_of t s). length r = length cs) \<longrightarrow> list_all2 (row_stored cs) (data_of t s) new))"

lemma dropped_optional: "table_name t \<in> dropped_tables e \<Longrightarrow> t \<in> set optional_tables"
  by (cases t) (auto simp: dropped_tables_def only_if_def power_names_def optional_tables_def split: if_splits)

lemma dropped_empty: "n \<in> dropped_tables e \<Longrightarrow> e n"
  by (auto simp: dropped_tables_def only_if_def list_all_iff split: if_splits)

lemma no_view_of_table: "map_of (view_statements hp cfg) (table_name t) = None"
  by (cases t) (simp_all add: view_statements_def)

lemma exported_tables:
  assumes "faithful conv" and "export can_open conv hp argv evs = Inr db"
  obtains cfg s where "start_export can_open argv = Inr cfg" and "collect cfg evs = Inr s"
    and "\<forall>t. t \<notin> set optional_tables \<longrightarrow> holds cfg s db t"
    and "\<forall>t\<in>set optional_tables. data_of t s \<noteq> [] \<longrightarrow> holds cfg s db t"
    and "\<forall>n. n \<notin> dropped_views (empty_list s) \<longrightarrow> views db n = map_of (view_statements hp cfg) n"
    and "\<forall>n. n \<notin> range table_name \<or> n \<in> dropped_tables (empty_list s) \<longrightarrow> tables db n = None"
    and "\<forall>t. views db (table_name t) = None"
proof -
  obtain cfg s where 1: "start_export can_open argv = Inr cfg" "collect cfg evs = Inr s"
      "trace_end conv s (schema_db hp cfg) = Inr db"
    using assms(2) by (auto simp: export_def bind_res_Inr_iff init_db_eq)
  let ?D = "dropped_tables (empty_list s)" and ?V = "dropped_views (empty_list s)"
  obtain mid where mid: "insert_all conv s (schema_db hp cfg) = Inr mid" and db: "db = (hide ?D ?V mid)\<lparr>is_open := False\<rparr>"
    using 1(3) by (auto simp: trace_end_schema)
  note load = mid [unfolded insert_all_schema]
  have kept: "holds cfg s db t" if "table_name t \<notin> ?D" for t
  proof -
    have "loaded_rows conv cfg s t (tables mid (table_name t))" using load by blast
    then have "loaded_rows conv cfg s t (tables db (table_name t))" using that by (simp add: db)
    then show ?thesis
    proof (cases "map_of (table_statements cfg) (table_name t)")
      case (Some cs)
      with \<open>loaded_rows conv cfg s t (tables db (table_name t))\<close> obtain new
        where new: "loads conv cs (data_of t s) new" "tables db (table_name t) = Some \<lparr>tcols = cs, trows = new\<rparr>"
        by (auto simp: loaded_rows_def)
      then show ?thesis using Some loads_stored [OF assms(1) new(1)] loads_keys [OF new(1)] loads_length [OF new(1)] by (simp add: holds_def)
    qed (simp add: holds_def loaded_rows_def)
  qed
  show thesis
  proof (rule that [OF 1(1,2)])
    show "\<forall>t. t \<notin> set optional_tables \<longrightarrow> holds cfg s db t" using kept dropped_optional by blast
    have "table_name t \<notin> ?D" if "t \<in> set optional_tables" "data_of t s \<noteq> []" for t
      using that(2) dropped_empty [of "table_name t" "empty_list s"] by auto
    then show "\<forall>t\<in>set optional_tables. data_of t s \<noteq> [] \<longrightarrow> holds cfg s db t" using kept by blast
    have "views mid = map_of (view_statements hp cfg)" using load by (simp add: schema_db_def)
    then show "\<forall>n. n \<notin> ?V \<longrightarrow> views db n = map_of (view_statements hp cfg) n" by (simp add: db)
    show "\<forall>t. views db (table_name t) = None"
      using \<open>views mid = map_of (view_statements hp cfg)\<close> no_view_of_table by (simp add: db)
    show "\<forall>n. n \<notin> range table_name \<or> n \<in> ?D \<longrightarrow> tables db n = None" using load by (simp add: db)
  qed
qed

section \<open>Exports that succeed\<close>

lemma export_if_loadable:
  assumes "start_export can_open argv = Inr cfg" and "collect cfg evs = Inr s" and "\<forall>t. loadable conv cfg t (data_of t s)"
  shows "\<exists>db. export can_open conv hp argv evs = Inr db"
proof -
  obtain db where "trace_end conv s (schema_db hp cfg) = Inr db"
    using trace_end_loadable [of conv s hp cfg] assms(3) by blast
  then show ?thesis using assms(1,2) by (simp add: export_def init_db_eq)
qed

lemma demo_conv_faithful: "faithful demo_conv"
proof -
  have "stores ty k (case Some k of None \<Rightarrow> VNull | Some (IntCell i) \<Rightarrow> VInt i | Some (StrCell x) \<Rightarrow> VStr x
      | Some (FloatStr q) \<Rightarrow> VInt (round q))" for ty k
    by (cases ty; cases k) simp_all
  then show ?thesis by (auto simp: faithful_def demo_conv_def list_all2_conv_all_nth)
qed

text \<open>A trace of three samples with their names, one call and one context switch.\<close>

definition demo_trace :: "perf_event list" where
  "demo_trace =
     [Evsel [IntCell 1, StrCell ''branches''], Symbol (ints [1, 0, 16, 32, 0] @ [StrCell ''main'']),
      Branch_type [IntCell 2, StrCell ''jmp''], Call_path (ints [1, 0, 1, 16]),
      Sample (ints [1, 1, 0, 0, 0, 0, 1, 4, 20, 100, 0, 0, 0, 0, 0, 0, 0, 0, 0, 2, 0, 0, 1, 1, 0]),
      Sample (ints [2, 1, 0, 0, 0, 0, 0, 4, 24, 30060, 0, 0, 1, 0, 0, 0, 0, 0, 0, 9, 0, 0, 3, 3, 0]),
      Sample (ints [3, 1, 0, 0, 0, 0, 1, 4, 28, 60000, 0, 0, 1, 0, 0, 0, 0, 0, 0, 2, 0, 0, 5, 5, 0]),
      Call_return (ints [1, 0, 0, 1, 100, 200, 0, 1, 2, 0, 0, 0, 3, 12]),
      Context_switch (ints [3, 0, 55, 1, 0, 0, 0, 0, 1])]"

definition demo_argv :: "string list" where
  "demo_argv = [''export'', ''t.db'', ''branches'', ''calls'']"

definition demo_trace_collector :: collector where
  "demo_trace_collector = (trace_begin (demo_cfg True True False) init_collector)
     \<lparr>evsel_data := [[IntCell 0, unknown], [IntCell 1, StrCell ''branches'']],
      symbol_data := [ints [0, 0, 0, 0, 0] @ [unknown], ints [1, 0, 16, 32, 0] @ [StrCell ''main'']],
      branch_type_data := [[IntCell 2, StrCell ''jmp'']],
      sample_data := [ints (replicate 21 0), ints [1, 1, 0, 0, 0, 0, 1, 4, 20, 100, 0, 0, 0, 0, 0, 2, 0, 0, 1, 1, 0],
        ints [2, 1, 0, 0, 0, 0, 0, 4, 24, 30060, 0, 0, 1, 0, 0, 9, 0, 0, 3, 3, 0],
        ints [3, 1, 0, 0, 0, 0, 1, 4, 28, 60000, 0, 0, 1, 0, 0, 2, 0, 0, 5, 5, 0]],
      call_path_data := [ints (replicate 4 0), ints [1, 0, 1, 16]],
      call_data := [ints (replicate 14 0), ints [1, 0, 0, 1, 100, 200, 0, 1, 2, 0, 0, 0, 3, 12]],
      context_switch_data := [ints [3, 0, 55, 1, 0, 0, 0, 0, 1]]\<rparr>"

lemma demo_trace_collected: "collect (demo_cfg True True False) demo_trace = Inr demo_trace_collector"
  by code_simp

lemma demo_trace_loadable:
  "list_all (\<lambda>t. loadable demo_conv (demo_cfg True True False) t (data_of t demo_trace_collector)) all_tables"
  by code_simp

lemma demo_trace_export: "\<exists>db. export (\<lambda>_. False) demo_conv hp demo_argv demo_trace = Inr db"
proof (rule export_if_loadable)
  show "start_export (\<lambda>_. False) demo_argv = Inr (demo_cfg True True False)" by (simp add: demo_argv_def demo_start)
  show "collect (demo_cfg True True False) demo_trace = Inr demo_trace_collector" by (rule demo_trace_collected)
  show "\<forall>t. loadable demo_conv (demo_cfg True True False) t (data_of t demo_trace_collector)"
    using demo_trace_loadable by (simp add: list_all_iff all_tables_names(2))
qed

end
