(* ===== verification/Analysis_Input_Props.thy ===== *)
theory Analysis_Input_Props
  imports Exported_Data
begin

text \<open>
  The export feeds the analysis: the rows \<open>SqlUtil\<close> reads are those perf passed, with the
  ids replaced by names, and the database's keys discharge the hypotheses of the analysis.
\<close>

section \<open>Fields\<close>

lemma field_nth:
  "length r = length ns \<Longrightarrow> distinct ns \<Longrightarrow> j < length ns \<Longrightarrow> field ns r (ns ! j) = r ! j"
  by (simp add: field_def map_of_zip_nth)

lemma map_of_zip_field:
  assumes "length r = length ns"
  shows "map_of (zip ns r) n = (if n \<in> set ns then Some (field ns r n) else None)"
  using assms by (auto simp: field_def split: option.split)

lemma column_value_one: "column_value [[(a, zip ns r, i)]] n = field ns r n"
  by (simp add: column_value.simps field_def List.map_filter_def split: option.split)

lemma column_value_inner:
  assumes "length r = length ns"
  shows "column_value ([(a, zip ns r, i)] # ls) n = (if n \<in> set ns then field ns r n else column_value ls n)"
  using assms by (simp add: column_value.simps map_of_zip_field List.map_filter_def)

section \<open>Lookups by id\<close>

declare column_value.simps [simp del]

lemma eval_look_up:
  assumes t: "T t = Some \<lparr>tcols = cs, trows = rows\<rparr>" and len: "\<forall>q\<in>set rows. length q = length cs"
    and cols: "''id'' \<in> cname ` set cs" "n \<in> cname ` set cs" "k \<notin> cname ` set cs"
    and key: "column_value [l] k = VInt x"
  shows "eval F T [l] (look_up t n (Col k)) = (case find (\<lambda>q. field (map cname cs) q ''id'' = VInt x) rows of
      None \<Rightarrow> VNull | Some q \<Rightarrow> field (map cname cs) q n)"
proof -
  let ?ns = "map cname cs"
  let ?b = "\<lambda>(i, r). (t, zip ?ns r, i)"
  have inner: "column_value [[(t, zip ?ns q, i)], l] m = (if m \<in> cname ` set cs then field ?ns q m else column_value [l] m)"
    if "q \<in> set rows" for q i m
    using len that column_value_inner [of q ?ns t i "[l]" m] by simp
  have "(case filter (\<lambda>r. eval F T [[r], l] (Eq (Col ''id'') (Col k)) = VBool True) (map ?b (enumerate m qs)) of
        [] \<Rightarrow> VNull | b # _ \<Rightarrow> column_value [[b], l] n)
      = (case find (\<lambda>q. field ?ns q ''id'' = VInt x) qs of None \<Rightarrow> VNull | Some q \<Rightarrow> field ?ns q n)"
    if "set qs \<subseteq> set rows" for m qs
    using that
  proof (induction qs arbitrary: m)
    case (Cons q qs)
    then have q: "q \<in> set rows" by simp
    show ?case using Cons by (auto simp: inner [OF q] cols key eq_value_def)
  qed simp
  from this [of rows 0] show ?thesis by (simp add: look_up_def t bindings_def cong: list.case_cong)
qed

text \<open>The names found are those of the tuples.\<close>

lemma find_names:
  assumes "list_all2 (row_stored cs) data rows" and "0 < length cs" "m < length cs"
    and "distinct (map cname cs)" and "ctype (cs ! 0) = C_integer" and "ctype (cs ! m) = C_varchar w"
    and "\<forall>r\<in>set data. (\<exists>i s. r ! 0 = IntCell i \<and> r ! m = StrCell s)"
  shows "str_value (case find (\<lambda>q. field (map cname cs) q (cname (cs ! 0)) = VInt x) rows of
      None \<Rightarrow> VNull | Some q \<Rightarrow> field (map cname cs) q (cname (cs ! m)))
    = map_of (map (\<lambda>r. (cell_int (r ! 0), cell_str (r ! m))) data) x"
  using assms(1,7)
proof (induction rule: list_all2_induct)
  case (Cons r data v rows)
  obtain i s where r: "r ! 0 = IntCell i" "r ! m = StrCell s" using Cons.prems by auto
  have len: "length v = length cs" and st: "\<And>j. j < length cs \<Longrightarrow> stores (ctype (cs ! j)) (r ! j) (v ! j)"
    using Cons.hyps(1) by (simp_all add: row_stored_def)
  have f: "field (map cname cs) v (cname (cs ! j)) = v ! j" if "j < length cs" for j
    using field_nth [of v "map cname cs" j] assms(4) len that by simp
  have "v ! 0 = VInt i" "v ! m = VStr s"
    using st [OF assms(2)] st [OF assms(3)] r assms(5,6) by simp_all
  then show ?case
    using Cons.IH Cons.prems r f [OF assms(2)] f [OF assms(3)] by (simp add: cell_int_def cell_str_def)
qed simp

section \<open>The collected tuples\<close>

lemma logs_tuples:
  assumes "list_all2 (\<lambda>ev lg. entries cfg ev = Inr lg) evs logs"
    and "t \<notin> {T_samples, T_calls, T_ptwrite, T_mwait, T_pwre, T_exstop, T_pwrx, T_cbr}"
  shows "rows_for t (concat logs) = tuples t evs"
  using assms(1)
proof (induction rule: list_all2_induct)
  case (Cons ev evs lg logs)
  have "rows_for t lg = tuples t [ev]"
    using Cons.hyps(1) assms(2)
    by (cases ev) (auto simp: tuples_def decoder_def bind_res_Inr_iff split: option.splits if_splits)
  then show ?case using Cons.IH by (simp add: tuples_def)
qed (simp add: tuples_def)

lemma logs_samples:
  assumes "list_all2 (\<lambda>ev lg. entries cfg ev = Inr lg) evs logs"
  shows "rows_for T_samples (concat logs) = map (sample_row (branches cfg)) (tuples T_samples evs)"
  using assms
proof (induction rule: list_all2_induct)
  case (Cons ev evs lg logs)
  have "rows_for T_samples lg = map (sample_row (branches cfg)) (tuples T_samples [ev])"
    using Cons.hyps(1)
    by (cases ev) (auto simp: tuples_def decoder_def bind_res_Inr_iff split: option.splits if_splits)
  then show ?case using Cons.IH by (simp add: tuples_def)
qed (simp add: tuples_def)

lemma collected_tuples:
  assumes "collect cfg evs = Inr s"
  shows "data_of T_selected_events s = [IntCell 0, unknown] # tuples T_selected_events evs"
    and "data_of T_symbols s = (ints [0, 0, 0, 0, 0] @ [unknown]) # tuples T_symbols evs"
    and "data_of T_branch_types s = tuples T_branch_types evs"
    and "data_of T_samples s = map (sample_row (branches cfg)) (ints (replicate 25 0) # tuples T_samples evs)"
    and "data_of T_auxtrace_errors s = tuples T_auxtrace_errors evs"
proof -
  obtain logs where logs: "list_all2 (\<lambda>ev lg. entries cfg ev = Inr lg) evs logs"
    and s: "\<And>t. data_of t s = data_of t (trace_begin cfg init_collector) @ rows_for t (concat logs)"
    using assms by (auto simp: collect_logged map_res_Inr_iff logged_def)
  note d = s trace_begin_data logs_tuples [OF logs] logs_samples [OF logs]
  show "data_of T_selected_events s = [IntCell 0, unknown] # tuples T_selected_events evs"
    and "data_of T_symbols s = (ints [0, 0, 0, 0, 0] @ [unknown]) # tuples T_symbols evs"
    and "data_of T_branch_types s = tuples T_branch_types evs"
    and "data_of T_samples s = map (sample_row (branches cfg)) (ints (replicate 25 0) # tuples T_samples evs)"
    and "data_of T_auxtrace_errors s = tuples T_auxtrace_errors evs"
    by (subst s, subst trace_begin_data, simp add: logs_tuples [OF logs] logs_samples [OF logs] init_collector_def)+
qed

declare data_of.simps [simp del]

section \<open>Samples\<close>

text \<open>The tuples perf passes: numbers where the analysis reads numbers, names where it reads names.\<close>

definition sample_tuple :: "row \<Rightarrow> bool" where
  "sample_tuple x \<longleftrightarrow> length x = 25 \<and> (\<forall>j\<in>{0, 1, 6, 9, 12, 19, 22, 23}. \<exists>i. x ! j = IntCell i)"

definition name_tuple :: "nat \<Rightarrow> nat \<Rightarrow> row \<Rightarrow> bool" where
  "name_tuple n j x \<longleftrightarrow> length x = n \<and> (\<exists>i s. x ! 0 = IntCell i \<and> x ! j = StrCell s)"

definition well_typed :: "perf_event list \<Rightarrow> bool" where
  "well_typed evs \<longleftrightarrow> list_all sample_tuple (tuples T_samples evs)
     \<and> list_all (name_tuple 2 1) (tuples T_selected_events evs)
     \<and> list_all (name_tuple 6 5) (tuples T_symbols evs)
     \<and> list_all (name_tuple 2 1) (tuples T_branch_types evs)"

lemma look_up_name:
  assumes "holds cfg s db t" and cs: "map_of (table_statements cfg) (table_name t) = Some cs"
    and "0 < length cs" "m < length cs" "distinct (map cname cs)"
    and "cs ! 0 = pk ''id''" and "ctype (cs ! m) = C_varchar w"
    and "\<forall>r\<in>set (data_of t s). name_tuple (length cs) m r"
    and "column_value [l] k = VInt x" and "k \<notin> cname ` set cs"
  shows "str_value (eval F (tables db) [l] (look_up (table_name t) (cname (cs ! m)) (Col k)))
    = map_of (map (\<lambda>r. (cell_int (r ! 0), cell_str (r ! m))) (data_of t s)) x"
proof -
  have id: "cname (cs ! 0) = ''id''" "ctype (cs ! 0) = C_integer" using assms(6) by (simp_all add: pk_def)
  have lens: "\<forall>r\<in>set (data_of t s). length r = length cs" using assms(8) by (simp add: name_tuple_def)
  obtain rows where rows: "tables db (table_name t) = Some \<lparr>tcols = cs, trows = rows\<rparr>"
      "list_all2 (row_stored cs) (data_of t s) rows"
    using assms(1) cs lens by (auto simp: holds_def)
  have len: "\<forall>q\<in>set rows. length q = length cs"
    using rows(2) by (auto simp: row_stored_def list_all2_conv_all_nth in_set_conv_nth)
  have cols: "''id'' \<in> cname ` set cs" "cname (cs ! m) \<in> cname ` set cs"
    using assms(3,4) id(1) by (metis imageI nth_mem)+
  show ?thesis
    unfolding eval_look_up [where T = "tables db", OF rows(1) len cols assms(10,9)]
    using find_names [OF rows(2) assms(3,4,5) id(2) assms(7)] assms(8) by (simp add: id(1) name_tuple_def)
qed

definition samples_columns :: "bool \<Rightarrow> column list" where
  "samples_columns br = (if br then samples_branches_columns else samples_all_columns)"

definition sample_fields :: "(string \<times> nat) list" where
  "sample_fields = [(''id'', 0), (''evsel_id'', 1), (''symbol_id'', 6), (''time'', 9), (''to_symbol_id'', 12),
     (''branch_type'', 19), (''insn_count'', 22), (''cyc_count'', 23)]"

lemma samples_columns_names:
  "distinct (map cname (samples_columns br))" "length (samples_columns br) = (if br then 21 else 25)"
  by (simp_all add: samples_columns_def samples_branches_columns_def samples_all_columns_def pk_def col_def)

lemma sample_field_at:
  assumes "(n, j) \<in> set sample_fields" and "length x = 25"
  shows "\<exists>i < length (samples_columns br). cname (samples_columns br ! i) = n
    \<and> ctype (samples_columns br ! i) \<in> {C_integer, C_bigint} \<and> sample_row br x ! i = x ! j"
proof (cases br)
  case False
  have "cname (samples_columns br ! j) = n \<and> ctype (samples_columns br ! j) \<in> {C_integer, C_bigint} \<and> j < 25"
    using assms(1) False by (auto simp: sample_fields_def samples_columns_def samples_all_columns_def pk_def col_def)
  then show ?thesis using False samples_columns_names(2) [of br] by (intro exI [of _ j]) (simp add: sample_row_def)
next
  case True
  let ?i = "if j < 15 then j else j - 4"
  have "cname (samples_columns br ! ?i) = n \<and> ctype (samples_columns br ! ?i) \<in> {C_integer, C_bigint} \<and> ?i < 21"
    using assms(1) True by (auto simp: sample_fields_def samples_columns_def samples_branches_columns_def pk_def col_def)
  moreover have "sample_row br x ! ?i = x ! j"
    using assms True by (auto simp: sample_fields_def sample_row_def py_slice_def nth_append)
  ultimately show ?thesis using True samples_columns_names(2) [of br] by (intro exI [of _ ?i]) simp
qed

lemma sample_field:
  assumes "row_stored (samples_columns br) (sample_row br x) v" and "sample_tuple x" and "(n, j) \<in> set sample_fields"
  shows "field (map cname (samples_columns br)) v n = VInt (cell_int (x ! j))"
proof -
  have len: "length x = 25" using assms(2) by (simp add: sample_tuple_def)
  obtain i where i: "i < length (samples_columns br)" "cname (samples_columns br ! i) = n"
      "ctype (samples_columns br ! i) \<in> {C_integer, C_bigint}" "sample_row br x ! i = x ! j"
    using sample_field_at [OF assms(3) len] by blast
  obtain k where k: "x ! j = IntCell k" using assms(2,3) by (auto simp: sample_tuple_def sample_fields_def)
  have v: "length v = length (samples_columns br)"
      "stores (ctype (samples_columns br ! i)) (sample_row br x ! i) (v ! i)"
    using assms(1) i(1) by (simp_all add: row_stored_def)
  then have "v ! i = VInt k" using i(3,4) k by auto
  moreover have "field (map cname (samples_columns br)) v n = v ! i"
    using field_nth [of v "map cname (samples_columns br)" i] v(1) i(1,2) samples_columns_names(1) by simp
  ultimately show ?thesis using k by (simp add: cell_int_def)
qed

section \<open>The samples view\<close>

lemma field_items:
  "field (map snd is) (map (\<lambda>i. g (fst i)) is) n = (case map_of (map (\<lambda>(e, m). (m, e)) is) n of None \<Rightarrow> VNull | Some e \<Rightarrow> g e)"
  by (induction "is") (auto simp: field_def)

lemma those_map:
  "list_all2 (\<lambda>x y. f y = Some (g x)) xs ys \<Longrightarrow> those (map f ys) = Some (map g xs)"
  by (induction rule: list_all2_induct) auto

lemma name_tables:
  assumes "collect cfg evs = Inr s" and "well_typed evs"
  shows "\<forall>r\<in>set (data_of T_selected_events s). name_tuple 2 1 r"
    and "\<forall>r\<in>set (data_of T_symbols s). name_tuple 6 5 r"
    and "\<forall>r\<in>set (data_of T_branch_types s). name_tuple 2 1 r"
  using assms(2)
  by (auto simp: collected_tuples [OF assms(1)] well_typed_def list_all_iff name_tuple_def ints_def unknown_def)

lemma samples_statement:
  "map_of (table_statements cfg) ''samples'' = Some (samples_columns (branches cfg))"
  "map_of (table_statements cfg) ''selected_events'' = Some selected_events_columns"
  "map_of (table_statements cfg) ''symbols'' = Some symbols_columns"
  "map_of (table_statements cfg) ''branch_types'' = Some branch_types_columns"
  by (simp_all add: table_statements_def samples_columns_def)

lemma samples_view_stated:
  "map_of (view_statements hp cfg) ''samples_view'' = Some (samples_view hp)"
  by (simp add: view_statements_def)

text \<open>The columns of the view, by name.\<close>

lemma samples_view_items:
  fixes g :: "expr \<Rightarrow> val" and hp :: bool
  defines "f \<equiv> field (outputs (samples_view hp)) (map (\<lambda>i. g (fst i)) (items (samples_view hp)))"
  shows "f ''id'' = g (Col ''id'')" "f ''time'' = g (Col ''time'')"
    "f ''insn_count'' = g (Col ''insn_count'')" "f ''cyc_count'' = g (Col ''cyc_count'')"
    "f ''event'' = g (look_up ''selected_events'' ''name'' (Col ''evsel_id''))"
    "f ''symbol'' = g (look_up ''symbols'' ''name'' (Col ''symbol_id''))"
    "f ''to_symbol'' = g (look_up ''symbols'' ''name'' (Col ''to_symbol_id''))"
    "f ''branch_type_name'' = g (look_up ''branch_types'' ''name'' (Col ''branch_type''))"
  unfolding f_def outputs_def field_items by (simp_all add: samples_view_def)

text \<open>The names of one row.\<close>

lemma names_in_data:
  assumes "collect cfg evs = Inr s"
  shows "names_in T_selected_events 1 [(0, ''unknown'')] evs
      = map_of (map (\<lambda>r. (cell_int (r ! 0), cell_str (r ! 1))) (data_of T_selected_events s))"
    and "names_in T_symbols 5 [(0, ''unknown'')] evs
      = map_of (map (\<lambda>r. (cell_int (r ! 0), cell_str (r ! 5))) (data_of T_symbols s))"
    and "names_in T_branch_types 1 [] evs
      = map_of (map (\<lambda>r. (cell_int (r ! 0), cell_str (r ! 1))) (data_of T_branch_types s))"
  unfolding collected_tuples [OF assms] names_in_def
  by (simp_all add: ints_def unknown_def cell_int_def [of "IntCell 0"] cell_str_def [of "StrCell ''unknown''"])

lemma names_columns:
  "0 < length selected_events_columns" "1 < length selected_events_columns"
  "length selected_events_columns = 2" "distinct (map cname selected_events_columns)"
  "selected_events_columns ! 0 = pk ''id''" "ctype (selected_events_columns ! 1) = C_varchar 80"
  "cname (selected_events_columns ! 1) = ''name''" "''evsel_id'' \<notin> cname ` set selected_events_columns"
  "0 < length symbols_columns" "5 < length symbols_columns"
  "length symbols_columns = 6" "distinct (map cname symbols_columns)"
  "symbols_columns ! 0 = pk ''id''" "ctype (symbols_columns ! 5) = C_varchar 2048"
  "cname (symbols_columns ! 5) = ''name''" "''symbol_id'' \<notin> cname ` set symbols_columns"
  "''to_symbol_id'' \<notin> cname ` set symbols_columns"
  "0 < length branch_types_columns" "1 < length branch_types_columns"
  "length branch_types_columns = 2" "distinct (map cname branch_types_columns)"
  "branch_types_columns ! 0 = pk ''id''" "ctype (branch_types_columns ! 1) = C_varchar 80"
  "cname (branch_types_columns ! 1) = ''name''" "''branch_type'' \<notin> cname ` set branch_types_columns"
  by (simp_all add: selected_events_columns_def symbols_columns_def branch_types_columns_def pk_def col_def)

text \<open>One row of the view.\<close>

lemma samples_view_row:
  assumes collected: "collect cfg evs = Inr s" and typed: "well_typed evs" "sample_tuple x"
    and tabs: "\<forall>t. t \<notin> set optional_tables \<longrightarrow> holds cfg s db t"
    and v: "row_stored (samples_columns (branches cfg)) (sample_row (branches cfg) x) v"
  shows "view_row_of (outputs (samples_view hp))
      (map (\<lambda>i. eval F (tables db) [[(''samples'', zip (map cname (samples_columns (branches cfg))) v, n)]] (fst i))
        (items (samples_view hp))) = Some (sample_spec evs x)"
proof -
  let ?l = "[(''samples'', zip (map cname (samples_columns (branches cfg))) v, n)]"
  let ?g = "eval F (tables db) [?l]"
  have num: "column_value [?l] m = VInt (cell_int (x ! j))" if "(m, j) \<in> set sample_fields" for m j
    using sample_field [OF v typed(2) that] by (simp add: column_value_one)
  note nt = name_tables [OF collected typed(1)] and names = names_in_data [OF collected]
  have tables: "holds cfg s db T_selected_events" "holds cfg s db T_symbols" "holds cfg s db T_branch_types"
    using tabs by (simp_all add: optional_tables_def)
  have fields: "(''evsel_id'', 1) \<in> set sample_fields" "(''symbol_id'', 6) \<in> set sample_fields"
    "(''to_symbol_id'', 12) \<in> set sample_fields" "(''branch_type'', 19) \<in> set sample_fields"
    "(''id'', 0) \<in> set sample_fields" "(''time'', 9) \<in> set sample_fields"
    "(''insn_count'', 22) \<in> set sample_fields" "(''cyc_count'', 23) \<in> set sample_fields"
    by (simp_all add: sample_fields_def)
  have names: "str_value (?g (look_up ''selected_events'' ''name'' (Col ''evsel_id'')))
      = names_in T_selected_events 1 [(0, ''unknown'')] evs (cell_int (x ! 1))"
    "str_value (?g (look_up ''symbols'' ''name'' (Col ''symbol_id'')))
      = names_in T_symbols 5 [(0, ''unknown'')] evs (cell_int (x ! 6))"
    "str_value (?g (look_up ''symbols'' ''name'' (Col ''to_symbol_id'')))
      = names_in T_symbols 5 [(0, ''unknown'')] evs (cell_int (x ! 12))"
    "str_value (?g (look_up ''branch_types'' ''name'' (Col ''branch_type'')))
      = names_in T_branch_types 1 [] evs (cell_int (x ! 19))"
    using look_up_name [OF tables(1), unfolded table_name.simps, OF samples_statement(2) names_columns(1,2,4,5,6)
        nt(1) [folded names_columns(3)] num [OF fields(1)] names_columns(8)]
      look_up_name [OF tables(2), unfolded table_name.simps, OF samples_statement(3) names_columns(9,10,12,13,14)
        nt(2) [folded names_columns(11)] num [OF fields(2)] names_columns(16)]
      look_up_name [OF tables(2), unfolded table_name.simps, OF samples_statement(3) names_columns(9,10,12,13,14)
        nt(2) [folded names_columns(11)] num [OF fields(3)] names_columns(17)]
      look_up_name [OF tables(3), unfolded table_name.simps, OF samples_statement(4) names_columns(18,19,21,22,23)
        nt(3) [folded names_columns(20)] num [OF fields(4)] names_columns(25)]
    unfolding names_columns(7,15,24) names by simp_all
  note nums = num [OF fields(5)] num [OF fields(6)] num [OF fields(7)] num [OF fields(8)]
  show ?thesis
    unfolding view_row_of_def int_field_def str_field_def samples_view_items names sample_spec_def
    by (simp add: nums)
qed

section \<open>The analysis reads what was traced\<close>

lemma keys_ok_first: "keys_ok cs rows \<Longrightarrow> 0 < length cs \<Longrightarrow> primary (cs ! 0) \<Longrightarrow> distinct (map (\<lambda>r. r ! 0) rows)"
  by (auto simp: keys_ok_def list_all_iff)

lemma sample_key:
  assumes "row_stored (samples_columns br) (sample_row br x) v" and "sample_tuple x"
  shows "v ! 0 = VInt (cell_int (x ! 0))"
proof -
  let ?ns = "map cname (samples_columns br)"
  have "length v = length ?ns" using assms(1) by (simp add: row_stored_def)
  moreover have "0 < length ?ns" "?ns ! 0 = ''id''"
    by (simp_all add: samples_columns_def samples_branches_columns_def samples_all_columns_def pk_def)
  ultimately have "field ?ns v ''id'' = v ! 0"
    using field_nth [of v ?ns 0] samples_columns_names(1) by simp
  then show ?thesis using sample_field [OF assms, of "''id''" 0] by (simp add: sample_fields_def)
qed

lemma samples_first_key: "0 < length (samples_columns br) \<and> primary (samples_columns br ! 0)"
  by (simp add: samples_columns_def samples_branches_columns_def samples_all_columns_def pk_def)

lemma zero_tuple: "sample_tuple (ints (replicate 25 0))"
  by (auto simp: sample_tuple_def ints_def)

lemma samples_input_exported:
  assumes "faithful conv" and "export can_open conv hp argv evs = Inr db" and "well_typed evs"
  shows "samples_input F db = Some (samples_spec evs)" and "distinct (map vid (samples_spec evs))"
proof -
  obtain cfg s where s: "collect cfg evs = Inr s" "\<forall>t. t \<notin> set optional_tables \<longrightarrow> holds cfg s db t"
      "\<forall>n. n \<notin> dropped_views (empty_list s) \<longrightarrow> views db n = map_of (view_statements hp cfg) n"
    and other: "\<forall>n. n \<notin> range table_name \<or> n \<in> dropped_tables (empty_list s) \<longrightarrow> tables db n = None"
    using exported_tables [OF assms(1,2)] by metis
  let ?cs = "samples_columns (branches cfg)" and ?xs = "ints (replicate 25 0) # tuples T_samples evs"
  have data: "data_of T_samples s = map (sample_row (branches cfg)) ?xs" by (rule collected_tuples(4) [OF s(1)])
  have typed: "\<forall>x\<in>set ?xs. sample_tuple x" using assms(3) zero_tuple by (simp add: well_typed_def list_all_iff)
  have "\<forall>r\<in>set (data_of T_samples s). length r = length ?cs"
    using typed samples_columns_names(2) [of "branches cfg"]
    unfolding data by (auto simp: sample_tuple_def sample_row_length)
  moreover have "holds cfg s db T_samples" using s(2) by (simp add: optional_tables_def)
  ultimately obtain rows where rows: "tables db ''samples'' = Some \<lparr>tcols = ?cs, trows = rows\<rparr>"
      "keys_ok ?cs rows" "list_all2 (row_stored ?cs) (data_of T_samples s) rows"
    by (auto simp: holds_def samples_statement)
  have "''samples_view'' \<notin> dropped_views (empty_list s)"
    by (auto simp: dropped_views_def view_names_def dropped_tables_def only_if_def power_names_def)
  then have view: "views db ''samples_view'' = Some (samples_view hp)" using s(3) samples_view_stated by simp
  have "''samples_view'' \<noteq> table_name t" for t by (cases t) simp_all
  then have no_table: "tables db ''samples_view'' = None" using other by blast
  let ?ns = "map cname ?cs" and ?v = "samples_view hp"
  let ?row = "\<lambda>(n, r). map (\<lambda>i. eval F (tables db) [[(''samples'', zip ?ns r, n)]] (fst i)) (items ?v)"
  have "view_rows F db ?v = map ?row (enumerate 0 rows)"
    by (simp add: view_rows_def kept_def samples_view_def rows(1) bindings_def comp_def case_prod_unfold)
  then have input: "samples_input F db = those (map (\<lambda>p. view_row_of (outputs ?v) (?row p)) (enumerate 0 rows))"
    by (simp add: samples_input_def read_relation_def select_all_def no_table view comp_def)
  have "list_all2 (\<lambda>x p. view_row_of (outputs ?v) (?row p) = Some (sample_spec evs x)) ?xs (enumerate 0 rows)"
  proof (rule list_all2_all_nthI)
    show len: "length ?xs = length (enumerate 0 rows)"
      using list_all2_lengthD [OF rows(3)] by (simp add: data)
    fix i assume i: "i < length ?xs"
    have "row_stored ?cs (sample_row (branches cfg) (?xs ! i)) (rows ! i)"
      using list_all2_nthD [OF rows(3), of i] i unfolding data by (simp del: list.map)
    moreover have "sample_tuple (?xs ! i)" using typed i nth_mem by blast
    moreover have "enumerate 0 rows ! i = (i, rows ! i)" using i len by (simp add: nth_enumerate_eq)
    ultimately show "view_row_of (outputs ?v) (?row (enumerate 0 rows ! i)) = Some (sample_spec evs (?xs ! i))"
      using samples_view_row [OF s(1) assms(3) _ s(2)] by simp
  qed
  from those_map [OF this] show "samples_input F db = Some (samples_spec evs)"
    unfolding input samples_spec_def .
  have "distinct (map (\<lambda>r. r ! 0) rows)"
    using keys_ok_first [OF rows(2)] samples_first_key by blast
  moreover have "map (\<lambda>r. r ! 0) rows = map (\<lambda>x. VInt (cell_int (x ! 0))) ?xs"
  proof (rule nth_equalityI)
    show len: "length (map (\<lambda>r. r ! 0) rows) = length (map (\<lambda>x. VInt (cell_int (x ! 0))) ?xs)"
      using list_all2_lengthD [OF rows(3)] by (simp add: data)
    fix i assume i: "i < length (map (\<lambda>r. r ! 0) rows)"
    then have ix: "i < length ?xs" using len by simp
    have stored: "row_stored ?cs (sample_row (branches cfg) (?xs ! i)) (rows ! i)"
      using list_all2_nthD [OF rows(3), of i] ix unfolding data by (simp del: list.map)
    have "sample_tuple (?xs ! i)" using typed nth_mem [OF ix] by blast
    from sample_key [OF stored this] show "map (\<lambda>r. r ! 0) rows ! i = map (\<lambda>x. VInt (cell_int (x ! 0))) ?xs ! i"
      using i len by (simp del: list.map)
  qed
  ultimately have "distinct (map (\<lambda>x. VInt (cell_int (x ! 0))) ?xs)" by simp
  then have "distinct (map VInt (map vid (samples_spec evs)))"
    by (simp add: samples_spec_def sample_spec_def comp_def)
  then show "distinct (map vid (samples_spec evs))" unfolding distinct_map [of VInt] by blast
qed

section \<open>Keys\<close>

text \<open>The first column of each table the analysis joins by is its primary key.\<close>

lemma distinct_keys:
  assumes "those (map (parse (''id'' # ns)) rows) = Some xs" and "distinct (map (\<lambda>r. r ! 0) rows)"
    and "\<And>r x. parse (''id'' # ns) r = Some x \<Longrightarrow> int_field (''id'' # ns) r ''id'' = Some (key x)"
  shows "distinct (map key xs)"
proof -
  have keys: "map (\<lambda>r. r ! 0) rows = map VInt (map key xs)"
    using assms(1)
  proof (induction rows arbitrary: xs)
    case (Cons r rows)
    then obtain x ys where x: "parse (''id'' # ns) r = Some x" "those (map (parse (''id'' # ns)) rows) = Some ys" "xs = x # ys"
      by (auto split: option.splits)
    have "int_field (''id'' # ns) r ''id'' = Some (key x)" by (rule assms(3) [OF x(1)])
    then have "r ! 0 = VInt (key x)"
      by (cases r; cases "r ! 0") (auto simp: int_field_def field_def)
    with Cons.IH [OF x(2)] x(3) show ?case by simp
  qed simp
  with assms(2) show ?thesis unfolding distinct_map [of VInt] by (simp only: keys distinct_map)
qed

lemma read_keys:
  assumes "holds cfg s db t" and "read_relation parse F db (table_name t) = Some xs"
    and "map_of (table_statements cfg) (table_name t) = Some cs" and "cs = pk ''id'' # cs'"
    and "\<And>ns r x. parse ns r = Some x \<Longrightarrow> int_field ns r ''id'' = Some (key x)"
  shows "distinct (map key xs)"
proof -
  obtain rows where rows: "tables db (table_name t) = Some \<lparr>tcols = cs, trows = rows\<rparr>" "keys_ok cs rows"
    using assms(1,3) by (auto simp: holds_def)
  have "distinct (map (\<lambda>r. r ! 0) rows)" using keys_ok_first [OF rows(2)] assms(4) by (simp add: pk_def)
  moreover have "those (map (parse (''id'' # map cname cs')) rows) = Some xs"
    using assms(2) rows(1) assms(4) by (simp add: read_relation_def select_all_def pk_def)
  ultimately show ?thesis using distinct_keys [of parse "map cname cs'" rows xs key] assms(5) by blast
qed

lemma keyed_statements:
  "map_of (table_statements cfg) ''calls'' = (if perf_db_export_calls cfg then Some calls_columns else None)"
  "map_of (table_statements cfg) ''call_paths''
     = (if perf_db_export_calls cfg \<or> perf_db_export_callchains cfg then Some call_paths_columns else None)"
  "map_of (table_statements cfg) ''symbols'' = Some symbols_columns"
  "map_of (table_statements cfg) ''dsos'' = Some dsos_columns"
  by (simp_all add: table_statements_def)

lemma keyed_statement:
  assumes "t \<in> {T_calls, T_call_paths, T_symbols, T_dsos}" and "map_of (table_statements cfg) (table_name t) = Some cs"
  shows "\<exists>cs'. cs = pk ''id'' # cs'"
proof -
  from assms have "cs \<in> {calls_columns, call_paths_columns, symbols_columns, dsos_columns}"
    by (elim insertE emptyE) (simp_all add: keyed_statements split: if_splits)
  then show ?thesis
    by (elim insertE emptyE) (simp_all add: calls_columns_def call_paths_columns_def symbols_columns_def dsos_columns_def)
qed

lemma exported_keys:
  assumes "faithful conv" and "export can_open conv hp argv evs = Inr db" and "calls_input F db = Some T"
  shows "keys_unique T"
proof -
  obtain cfg s where s: "\<forall>t. t \<notin> set optional_tables \<longrightarrow> holds cfg s db t" "\<forall>t. views db (table_name t) = None"
    using exported_tables [OF assms(1,2)] by metis
  have keys: "distinct (map key xs)"
    if t: "t \<in> {T_calls, T_call_paths, T_symbols, T_dsos}" and r: "read_relation parse F db (table_name t) = Some xs"
      and k: "\<And>ns r x. parse ns r = Some x \<Longrightarrow> int_field ns r ''id'' = Some (key x)"
    for t xs and parse :: "string list \<Rightarrow> val list \<Rightarrow> 'x option" and key
  proof -
    have h: "holds cfg s db t" using s(1) t by (auto simp: optional_tables_def)
    have "tables db (table_name t) \<noteq> None"
      using r s(2) by (auto simp: read_relation_def select_all_def split: option.splits)
    then obtain cs where cs: "map_of (table_statements cfg) (table_name t) = Some cs"
      using h by (cases "map_of (table_statements cfg) (table_name t)") (auto simp: holds_def)
    obtain cs' where "cs = pk ''id'' # cs'" using keyed_statement [OF t cs] by blast
    from read_keys [OF h r cs this k] show ?thesis .
  qed
  obtain cs ps ss ds where r: "read_relation call_of F db (table_name T_calls) = Some cs"
      "read_relation call_path_of F db (table_name T_call_paths) = Some ps"
      "read_relation symbol_of F db (table_name T_symbols) = Some ss"
      "read_relation dso_of F db (table_name T_dsos) = Some ds"
    and T: "T = \<lparr>t_calls = cs, t_call_paths = ps, t_symbols = ss, t_dsos = ds\<rparr>"
    using assms(3) by (auto simp: calls_input_def split: option.splits)
  have "distinct (map cid cs)" by (rule keys [OF _ r(1)]) (auto simp: call_of_def)
  moreover have "distinct (map path_key ps)" by (rule keys [OF _ r(2)]) (auto simp: call_path_of_def)
  moreover have "distinct (map symbol_key ss)" by (rule keys [OF _ r(3)]) (auto simp: symbol_of_def)
  moreover have "distinct (map dso_key ds)" by (rule keys [OF _ r(4)]) (auto simp: dso_of_def)
  ultimately show ?thesis by (simp add: keys_unique_def T)
qed

text \<open>Without \<open>calls\<close> there is nothing to build call stacks from.\<close>

lemma no_calls_input:
  assumes "faithful conv" and "export can_open conv hp argv evs = Inr db"
    and "start_export can_open argv = Inr cfg" and "\<not> perf_db_export_calls cfg"
  shows "calls_input F db = None"
proof -
  obtain s where s: "holds cfg s db T_calls" "views db ''calls'' = None"
  proof -
    obtain cfg' s where "start_export can_open argv = Inr cfg'" "\<forall>t. t \<notin> set optional_tables \<longrightarrow> holds cfg' s db t"
        "\<forall>t. views db (table_name t) = None"
      using exported_tables [OF assms(1,2)] by metis
    moreover from this have "cfg' = cfg" using assms(3) by simp
    moreover have "T_calls \<notin> set optional_tables" by (simp add: optional_tables_def)
    moreover have "''calls'' = table_name T_calls" by simp
    ultimately show thesis using that [of s] by metis
  qed
  have "map_of (table_statements cfg) ''calls'' = None" using assms(4) by (simp add: table_statements_def)
  with s show ?thesis by (simp add: calls_input_def read_relation_def select_all_def holds_def)
qed

lemma exported_errors:
  assumes "faithful conv" and "export can_open conv hp argv evs = Inr db"
  shows "errors_input F db = None \<longleftrightarrow> tuples T_auxtrace_errors evs = []"
proof -
  obtain cfg s where s: "collect cfg evs = Inr s"
      "\<forall>t\<in>set optional_tables. data_of t s \<noteq> [] \<longrightarrow> holds cfg s db t"
      "\<forall>n. n \<notin> range table_name \<or> n \<in> dropped_tables (empty_list s) \<longrightarrow> tables db n = None"
      "\<forall>t. views db (table_name t) = None"
    using exported_tables [OF assms] by metis
  have data: "data_of T_auxtrace_errors s = tuples T_auxtrace_errors evs" by (rule collected_tuples(5) [OF s(1)])
  have view: "views db ''auxtrace_errors'' = None" using s(4) table_name.simps(19) by metis
  show ?thesis
  proof (cases "tuples T_auxtrace_errors evs = []")
    case True
    then have "''auxtrace_errors'' \<in> dropped_tables (empty_list s)"
      using empty_list_name [of s T_auxtrace_errors] by (simp add: data dropped_tables_def only_if_def)
    then have "tables db ''auxtrace_errors'' = None" using s(3) by blast
    then show ?thesis using True view by (simp add: errors_input_def read_relation_def select_all_def)
  next
    case False
    then have "holds cfg s db T_auxtrace_errors" using s(2) data by (simp add: optional_tables_def)
    moreover have "map_of (table_statements cfg) ''auxtrace_errors'' = Some auxtrace_errors_columns"
      by (simp add: table_statements_def)
    ultimately obtain rows where "tables db ''auxtrace_errors'' = Some \<lparr>tcols = auxtrace_errors_columns, trows = rows\<rparr>"
      by (auto simp: holds_def)
    moreover have "those (map (error_of ns) rows) \<noteq> None" for ns
      by (induction rows) (auto simp: error_of_def)
    ultimately show ?thesis using False by (auto simp: errors_input_def read_relation_def select_all_def)
  qed
qed

end
