(* ===== verification/Traced_Calls.thy ===== *)
theory Traced_Calls
  imports Analysis_Input_Props
begin

text \<open>
  The calls and errors \<open>SqlUtil\<close> reads, on the tuples perf passes. Every column is stored under its own
  name, so a field of an exported row is the cell of the tuple at the position of its column.
\<close>

section \<open>Typed tuples\<close>

fun cell_fits :: "coltype \<Rightarrow> cell \<Rightarrow> bool" where
  "cell_fits (C_varchar n) k \<longleftrightarrow> (\<exists>s. k = StrCell s)"
| "cell_fits C_boolean k \<longleftrightarrow> True"
| "cell_fits C_uhugeint k \<longleftrightarrow> True"
| "cell_fits _ k \<longleftrightarrow> (\<exists>i. k = IntCell i)"

definition typed_tuple :: "column list \<Rightarrow> row \<Rightarrow> bool" where
  "typed_tuple cs x \<longleftrightarrow> list_all2 (\<lambda>h k. cell_fits (ctype h) k) cs x"

lemma stored_field:
  assumes "row_stored cs x v" and "typed_tuple cs x" and "distinct (map cname cs)" and "j < length cs" "cname (cs ! j) = n"
  shows "ctype (cs ! j) \<in> {C_integer, C_bigint} \<Longrightarrow> int_field (map cname cs) v n = Some (cell_int (x ! j))"
    and "ctype (cs ! j) = C_varchar w \<Longrightarrow> str_field (map cname cs) v n = Some (cell_str (x ! j))"
proof -
  have v: "length v = length cs" "stores (ctype (cs ! j)) (x ! j) (v ! j)"
    using assms(1,4) by (simp_all add: row_stored_def)
  have f: "field (map cname cs) v n = v ! j"
    using field_nth [of v "map cname cs" j] v(1) assms(3-5) by simp
  have fit: "cell_fits (ctype (cs ! j)) (x ! j)"
    using assms(2,4) by (auto simp: typed_tuple_def dest: list_all2_nthD)
  show "int_field (map cname cs) v n = Some (cell_int (x ! j))" if "ctype (cs ! j) \<in> {C_integer, C_bigint}"
    using v(2) fit that by (auto simp: int_field_def f cell_int_def)
  show "str_field (map cname cs) v n = Some (cell_str (x ! j))" if "ctype (cs ! j) = C_varchar w"
    using v(2) fit that by (auto simp: str_field_def f cell_str_def)
qed

lemma read_spec:
  assumes "holds cfg s db t" and cs: "map_of (table_statements cfg) (table_name t) = Some cs"
    and data: "\<forall>x\<in>set (data_of t s). typed_tuple cs x"
    and parse: "\<And>x v. typed_tuple cs x \<Longrightarrow> row_stored cs x v \<Longrightarrow> parse (map cname cs) v = Some (spec x)"
  shows "read_relation parse F db (table_name t) = Some (map spec (data_of t s))"
proof -
  have "\<forall>x\<in>set (data_of t s). length x = length cs"
    using data by (fastforce simp: typed_tuple_def dest: list_all2_lengthD)
  then obtain rows where rows: "tables db (table_name t) = Some \<lparr>tcols = cs, trows = rows\<rparr>"
      "list_all2 (row_stored cs) (data_of t s) rows"
    using assms(1) cs by (auto simp: holds_def)
  have "list_all2 (\<lambda>x v. parse (map cname cs) v = Some (spec x)) (data_of t s) rows"
    using rows(2) data parse by (auto simp: list_all2_conv_all_nth)
  from those_map [OF this] show ?thesis by (simp add: read_relation_def select_all_def rows(1))
qed

section \<open>What perf passed\<close>

definition call_spec :: "row \<Rightarrow> call" where
  "call_spec x = \<lparr>cid = cell_int (x ! 0), parent_id = Some (cell_int (x ! 11)), call_path_id = Some (cell_int (x ! 3)),
     call_time = Some (cell_int (x ! 4)), return_time = Some (cell_int (x ! 5))\<rparr>"

definition path_spec :: "row \<Rightarrow> call_path" where
  "path_spec x = \<lparr>path_key = cell_int (x ! 0), path_symbol = Some (cell_int (x ! 2))\<rparr>"

definition symbol_spec :: "row \<Rightarrow> symbol_row" where
  "symbol_spec x = \<lparr>symbol_key = cell_int (x ! 0), symbol_dso = Some (cell_int (x ! 1)), symbol_name = Some (cell_str (x ! 5))\<rparr>"

definition dso_spec :: "row \<Rightarrow> dso_row" where
  "dso_spec x = \<lparr>dso_key = cell_int (x ! 0), short_name = Some (cell_str (x ! 2))\<rparr>"

definition error_spec :: "row \<Rightarrow> error_row" where
  "error_spec x = \<lparr>ae_time = Some (cell_int (x ! 6)), ae_msg = Some (cell_str (x ! 7))\<rparr>"

definition calls_spec :: "perf_event list \<Rightarrow> trace_tables" where
  "calls_spec evs =
     \<lparr>t_calls = map call_spec (ints (replicate 14 0) # tuples T_calls evs),
      t_call_paths = map path_spec (ints (replicate 4 0) # tuples T_call_paths evs),
      t_symbols = map symbol_spec ((ints [0, 0, 0, 0, 0] @ [unknown]) # tuples T_symbols evs),
      t_dsos = map dso_spec ([IntCell 0, IntCell 0, unknown, unknown, StrCell []] # tuples T_dsos evs)\<rparr>"

definition errors_spec :: "perf_event list \<Rightarrow> error_row list option" where
  "errors_spec evs = (if tuples T_auxtrace_errors evs = [] then None else Some (map error_spec (tuples T_auxtrace_errors evs)))"

definition calls_typed :: "perf_event list \<Rightarrow> bool" where
  "calls_typed evs \<longleftrightarrow> list_all (typed_tuple calls_columns) (tuples T_calls evs)
     \<and> list_all (typed_tuple call_paths_columns) (tuples T_call_paths evs)
     \<and> list_all (typed_tuple symbols_columns) (tuples T_symbols evs)
     \<and> list_all (typed_tuple dsos_columns) (tuples T_dsos evs)
     \<and> list_all (typed_tuple auxtrace_errors_columns) (tuples T_auxtrace_errors evs)"

text \<open>The exporter files the rows of \<open>ptwrite\<close> events (synthetic events of config 0) under the calls.\<close>

definition is_ptwrite :: "perf_event \<Rightarrow> bool" where
  "is_ptwrite ev = (case ev of Synth i k b \<Rightarrow> k = 0 | _ \<Rightarrow> False)"

definition no_ptwrite :: "perf_event list \<Rightarrow> bool" where
  "no_ptwrite evs \<longleftrightarrow> list_all (\<lambda>ev. \<not> is_ptwrite ev) evs"

section \<open>Rows\<close>

lemma parse_call:
  "typed_tuple calls_columns x \<Longrightarrow> row_stored calls_columns x v \<Longrightarrow>
     call_of (map cname calls_columns) v = Some (call_spec x)"
  using stored_field(1) [of calls_columns x v 0 "''id''"] stored_field(1) [of calls_columns x v 3 "''call_path_id''"]
    stored_field(1) [of calls_columns x v 4 "''call_time''"] stored_field(1) [of calls_columns x v 5 "''return_time''"]
    stored_field(1) [of calls_columns x v 11 "''parent_id''"]
  by (simp add: call_of_def call_spec_def) (simp add: calls_columns_def pk_def col_def)

lemma parse_path:
  "typed_tuple call_paths_columns x \<Longrightarrow> row_stored call_paths_columns x v \<Longrightarrow>
     call_path_of (map cname call_paths_columns) v = Some (path_spec x)"
  using stored_field(1) [of call_paths_columns x v 0 "''id''"] stored_field(1) [of call_paths_columns x v 2 "''symbol_id''"]
  by (simp add: call_path_of_def path_spec_def) (simp add: call_paths_columns_def pk_def col_def)

lemma parse_symbol:
  "typed_tuple symbols_columns x \<Longrightarrow> row_stored symbols_columns x v \<Longrightarrow>
     symbol_of (map cname symbols_columns) v = Some (symbol_spec x)"
  using stored_field(1) [of symbols_columns x v 0 "''id''"] stored_field(1) [of symbols_columns x v 1 "''dso_id''"]
    stored_field(2) [of symbols_columns x v 5 "''name''" 2048]
  by (simp add: symbol_of_def symbol_spec_def) (simp add: symbols_columns_def pk_def col_def)

lemma parse_dso:
  "typed_tuple dsos_columns x \<Longrightarrow> row_stored dsos_columns x v \<Longrightarrow>
     dso_of (map cname dsos_columns) v = Some (dso_spec x)"
  using stored_field(1) [of dsos_columns x v 0 "''id''"] stored_field(2) [of dsos_columns x v 2 "''short_name''" 256]
  by (simp add: dso_of_def dso_spec_def) (simp add: dsos_columns_def pk_def col_def)

lemma parse_error:
  "typed_tuple auxtrace_errors_columns x \<Longrightarrow> row_stored auxtrace_errors_columns x v \<Longrightarrow>
     error_of (map cname auxtrace_errors_columns) v = Some (error_spec x)"
  using stored_field(1) [of auxtrace_errors_columns x v 6 "''time''"] stored_field(2) [of auxtrace_errors_columns x v 7 "''msg''" 100]
  by (simp add: error_of_def error_spec_def) (simp add: auxtrace_errors_columns_def col_def)

section \<open>The collected calls\<close>

lemma logs_calls:
  assumes "list_all2 (\<lambda>ev lg. entries cfg ev = Inr lg) evs logs" and "no_ptwrite evs"
  shows "rows_for T_calls (concat logs) = tuples T_calls evs"
  using assms
proof (induction rule: list_all2_induct)
  case (Cons ev evs lg logs)
  have "rows_for T_calls lg = tuples T_calls [ev]"
    using Cons.hyps(1) Cons.prems
    by (cases ev) (auto simp: tuples_def decoder_def bind_res_Inr_iff no_ptwrite_def is_ptwrite_def split: option.splits if_splits)
  then show ?case using Cons.IH Cons.prems by (simp add: tuples_def no_ptwrite_def)
qed (simp add: tuples_def)

lemma logs_calls_length:
  assumes "list_all2 (\<lambda>ev lg. entries cfg ev = Inr lg) evs logs"
  shows "length (rows_for T_calls (concat logs)) = length (tuples T_calls evs) + length (filter is_ptwrite evs)"
  using assms
proof (induction rule: list_all2_induct)
  case (Cons ev evs lg logs)
  have "length (rows_for T_calls lg) = length (tuples T_calls [ev]) + length (filter is_ptwrite [ev])"
    using Cons.hyps(1)
    by (cases ev) (auto simp: tuples_def decoder_def bind_res_Inr_iff is_ptwrite_def split: option.splits if_splits)
  then show ?case using Cons.IH by (simp add: tuples_def)
qed (simp add: tuples_def)

lemma collected_calls:
  assumes "collect cfg evs = Inr s" and "perf_db_export_calls cfg" and "no_ptwrite evs"
  shows "data_of T_calls s = ints (replicate 14 0) # tuples T_calls evs"
    and "data_of T_call_paths s = ints (replicate 4 0) # tuples T_call_paths evs"
    and "data_of T_dsos s = [IntCell 0, IntCell 0, unknown, unknown, StrCell []] # tuples T_dsos evs"
proof -
  obtain logs where logs: "list_all2 (\<lambda>ev lg. entries cfg ev = Inr lg) evs logs"
    and s: "\<And>t. data_of t s = data_of t (trace_begin cfg init_collector) @ rows_for t (concat logs)"
    using assms(1) by (auto simp: collect_logged map_res_Inr_iff logged_def)
  have calls: "rows_for T_calls (concat logs) = tuples T_calls evs"
    by (rule logs_calls [OF logs assms(3)])
  show "data_of T_calls s = ints (replicate 14 0) # tuples T_calls evs"
    and "data_of T_call_paths s = ints (replicate 4 0) # tuples T_call_paths evs"
    and "data_of T_dsos s = [IntCell 0, IntCell 0, unknown, unknown, StrCell []] # tuples T_dsos evs"
    by (subst s, subst trace_begin_data, simp add: calls logs_tuples [OF logs] init_collector_def assms(2) data_of.simps)+
qed

lemma unknown_typed:
  "typed_tuple calls_columns (ints (replicate 14 0))" "typed_tuple call_paths_columns (ints (replicate 4 0))"
  "typed_tuple symbols_columns (ints [0, 0, 0, 0, 0] @ [unknown])"
  "typed_tuple dsos_columns [IntCell 0, IntCell 0, unknown, unknown, StrCell []]"
  by (simp_all add: typed_tuple_def ints_def unknown_def calls_columns_def call_paths_columns_def symbols_columns_def
      dsos_columns_def pk_def col_def numeral_eq_Suc)

text \<open>The tables \<open>SqlUtil\<close> joins are those perf passed.\<close>

lemma calls_input_exported:
  assumes "faithful conv" and "export can_open conv hp argv evs = Inr db" and "calls_typed evs"
    and "start_export can_open argv = Inr cfg" and "perf_db_export_calls cfg" and "no_ptwrite evs"
  shows "calls_input F db = Some (calls_spec evs)"
proof -
  obtain cfg' s where s: "start_export can_open argv = Inr cfg'" "collect cfg' evs = Inr s"
      "\<forall>t. t \<notin> set optional_tables \<longrightarrow> holds cfg' s db t"
    using exported_tables [OF assms(1,2)] by metis
  have cfg: "cfg' = cfg" using s(1) assms(4) by simp
  note data = collected_calls [OF s(2) [unfolded cfg] assms(5,6)] collected_tuples(2) [OF s(2)]
  have h: "holds cfg s db T_calls" "holds cfg s db T_call_paths" "holds cfg s db T_symbols" "holds cfg s db T_dsos"
    using s(3) by (simp_all add: optional_tables_def cfg)
  note st = keyed_statements [of cfg]
  have "read_relation call_of F db (table_name T_calls) = Some (map call_spec (data_of T_calls s))"
    by (rule read_spec [where parse = call_of and spec = call_spec and cs = calls_columns, OF h(1) _ _ parse_call])
      (use assms(3,5) unknown_typed(1) in \<open>simp_all add: st data calls_typed_def list_all_iff\<close>)
  moreover have "read_relation call_path_of F db (table_name T_call_paths) = Some (map path_spec (data_of T_call_paths s))"
    by (rule read_spec [where parse = call_path_of and spec = path_spec and cs = call_paths_columns, OF h(2) _ _ parse_path])
      (use assms(3,5) unknown_typed(2) in \<open>simp_all add: st data calls_typed_def list_all_iff\<close>)
  moreover have "read_relation symbol_of F db (table_name T_symbols) = Some (map symbol_spec (data_of T_symbols s))"
    by (rule read_spec [where parse = symbol_of and spec = symbol_spec and cs = symbols_columns, OF h(3) _ _ parse_symbol])
      (use assms(3,5) unknown_typed(3) in \<open>simp_all add: st data calls_typed_def list_all_iff\<close>)
  moreover have "read_relation dso_of F db (table_name T_dsos) = Some (map dso_spec (data_of T_dsos s))"
    by (rule read_spec [where parse = dso_of and spec = dso_spec and cs = dsos_columns, OF h(4) _ _ parse_dso])
      (use assms(3,5) unknown_typed(4) in \<open>simp_all add: st data calls_typed_def list_all_iff\<close>)
  ultimately show "calls_input F db = Some (calls_spec evs)"
    by (simp add: calls_input_def calls_spec_def data)
qed

lemma those_length: "those xs = Some ys \<Longrightarrow> length ys = length xs"
  by (induction xs arbitrary: ys) (auto split: option.splits)

text \<open>With a \<open>ptwrite\<close> event they are not: the table of calls has a row too many.\<close>

lemma calls_input_ptwrite:
  assumes "faithful conv" and "export can_open conv hp argv evs = Inr db"
    and "start_export can_open argv = Inr cfg" and "perf_db_export_calls cfg" and "\<not> no_ptwrite evs"
  shows "calls_input F db \<noteq> Some (calls_spec evs)"
proof
  assume read: "calls_input F db = Some (calls_spec evs)"
  obtain cfg' s where s: "start_export can_open argv = Inr cfg'" "collect cfg' evs = Inr s"
      "\<forall>t. t \<notin> set optional_tables \<longrightarrow> holds cfg' s db t"
    using exported_tables [OF assms(1,2)] by metis
  have cfg: "cfg' = cfg" using s(1) assms(3) by simp
  obtain logs where logs: "list_all2 (\<lambda>ev lg. entries cfg ev = Inr lg) evs logs"
    and data: "data_of T_calls s = data_of T_calls (trace_begin cfg init_collector) @ rows_for T_calls (concat logs)"
    using s(2) unfolding cfg by (auto simp: collect_logged map_res_Inr_iff logged_def)
  have "filter is_ptwrite evs \<noteq> []" using assms(5) by (auto simp: no_ptwrite_def list_all_iff filter_empty_conv)
  then have long: "Suc (length (tuples T_calls evs)) < length (data_of T_calls s)"
    unfolding data trace_begin_data
    by (simp add: logs_calls_length [OF logs] init_collector_def assms(4) data_of.simps)
  have "holds cfg s db T_calls" using s(3) by (simp add: optional_tables_def cfg)
  then obtain new where new: "tables db ''calls'' = Some \<lparr>tcols = calls_columns, trows = new\<rparr>"
      "length new = length (data_of T_calls s)"
    using keyed_statements [of cfg] assms(4) by (auto simp: holds_def)
  have table: "\<exists>cs. read_relation call_of F db ''calls'' = Some cs \<and> t_calls T = cs" if "calls_input F db = Some T" for T
    using that by (auto simp: calls_input_def split: option.splits)
  obtain cs where cs: "read_relation call_of F db ''calls'' = Some cs" "t_calls (calls_spec evs) = cs"
    using table [OF read] by blast
  have "length cs = length new"
    using cs(1) by (auto simp: read_relation_def select_all_def new(1) dest: those_length)
  moreover have "length cs = Suc (length (tuples T_calls evs))" using cs(2) by (auto simp: calls_spec_def)
  ultimately show False using long new(2) by simp
qed

lemma errors_input_exported:
  assumes "faithful conv" and "export can_open conv hp argv evs = Inr db" and "calls_typed evs"
  shows "errors_input F db = errors_spec evs"
proof (cases "tuples T_auxtrace_errors evs = []")
  case True
  then show ?thesis using exported_errors [OF assms(1,2)] by (simp add: errors_spec_def)
next
  case False
  obtain cfg s where s: "collect cfg evs = Inr s"
      "\<forall>t\<in>set optional_tables. data_of t s \<noteq> [] \<longrightarrow> holds cfg s db t"
    using exported_tables [OF assms(1,2)] by metis
  have err: "data_of T_auxtrace_errors s = tuples T_auxtrace_errors evs" by (rule collected_tuples(5) [OF s(1)])
  have "holds cfg s db T_auxtrace_errors" using s(2) False err by (simp add: optional_tables_def)
  then have "read_relation error_of F db (table_name T_auxtrace_errors)
      = Some (map error_spec (data_of T_auxtrace_errors s))"
    by (rule read_spec [where parse = error_of and spec = error_spec and cs = auxtrace_errors_columns, OF _ _ _ parse_error])
      (use assms(3) in \<open>simp_all add: err calls_typed_def list_all_iff table_statements_def\<close>)
  then show ?thesis using False by (simp add: errors_input_def errors_spec_def err)
qed

end
