(* ===== verification/Window_Spans.thy ===== *)
theory Window_Spans
  imports Window_Lemmas
begin

text \<open>
  The finished table \<open>ipc_spans\<close>: which window ends it holds, how its spans cover the cycle
  axis, and that the conservative and optimistic columns bound the mean density of every
  window that ends inside the span.
\<close>

section \<open>Window ends\<close>

context asof_engine begin

lemma leading_end_in_spans:
  assumes "ranges_ok c n rs" "1 \<le> W" "l \<in> set rs"
  shows "\<exists>w\<in>set (spans_t1 (sliding_window pick W rs)). window_end_cum_cyc w = end_cum_cyc l
    \<and> window_start_cum_cyc w = end_cum_cyc l - (W - 1)"
proof
  show "leading_row W l (trailing_match pick W rs l) \<in> set (spans_t1 (sliding_window pick W rs))"
    using assms(3) by (auto simp: spans_t1_def sliding_window_def leading_row_def)
qed (simp add: leading_row_def)

lemma trailing_end_in_spans:
  assumes "ranges_ok c n rs" "1 \<le> W" "t \<in> set rs" "l \<in> set rs" "end_cum_cyc t + W - 1 \<le> end_cum_cyc l"
  shows "\<exists>w\<in>set (spans_t1 (sliding_window pick W rs)). window_end_cum_cyc w = end_cum_cyc t + W - 1"
proof -
  obtain m where m: "leading_match pick W rs t = Some m"
    using leading_match_exists assms(4,5) by blast
  show ?thesis
  proof (cases "end_cum_cyc t + W - 1 = end_cum_cyc m")
    case True
    then show ?thesis
      using leading_end_in_spans [OF assms(1,2) leading_matchD(1) [OF assms(1,3,2) m]] by metis
  next
    case False
    have "trailing_row W t m \<in> set (spans_t1 (sliding_window pick W rs))"
      using assms(3) m False
      by (force simp: spans_t1_def sliding_window_def trailing_row_def map_filter_def image_iff)
    then show ?thesis by (rule bexI [rotated]) (simp add: trailing_row_def)
  qed
qed

text \<open>A trailing row that the filter drops repeats the window of a leading row.\<close>

lemma aliased_row_repeated:
  assumes ok: "ranges_ok c n rs" and W: "1 \<le> W" and t: "t \<in> set rs"
    and l: "leading_match pick W rs t = Some l" and eq: "end_cum_cyc t + W - 1 = end_cum_cyc l"
  shows "leading_row W l (Some t) \<in> set (spans_t1 (sliding_window pick W rs))"
    "calc_of fl W (leading_row W l (Some t)) = calc_of fl W
      (trailing_row W t l\<lparr>side := Leading, is_single_range := Some (W = 1)\<rparr>)"
proof -
  note m = leading_matchD [OF ok t W l]
  have "trailing_match pick W rs l = Some t"
    unfolding trailing_match_def
    by (rule asof_SomeI [OF t]) (use eq ranges_ok_end_inj(1) [OF ok] in auto)
  then show "leading_row W l (Some t) \<in> set (spans_t1 (sliding_window pick W rs))"
    using m(1) by (force simp: spans_t1_def sliding_window_def leading_row_def)
  have "leading_row W l (Some t)
      = trailing_row W t l\<lparr>side := Leading, is_single_range := Some (W = 1)\<rparr>"
    using eq by (auto simp: leading_row_def trailing_row_def)
  then show "calc_of fl W (leading_row W l (Some t)) = calc_of fl W
      (trailing_row W t l\<lparr>side := Leading, is_single_range := Some (W = 1)\<rparr>)" by simp
qed

lemma set_map_filter_iff: "y \<in> set (List.map_filter f xs) \<longleftrightarrow> (\<exists>x\<in>set xs. f x = Some y)"
  by (force simp: map_filter_def)

lemma map_map_filter:
  "map g (List.map_filter f xs) = List.map_filter (\<lambda>x. map_option g (f x)) xs"
  by (induction xs) (auto simp: map_filter_simps split: option.splits)

lemma distinct_map_filter:
  "distinct xs \<Longrightarrow> (\<And>x y u. x \<in> set xs \<Longrightarrow> y \<in> set xs \<Longrightarrow> f x = Some u \<Longrightarrow> f y = Some u \<Longrightarrow> x = y)
    \<Longrightarrow> distinct (List.map_filter f xs)"
proof (induction xs)
  case Nil
  then show ?case by (simp add: map_filter_simps)
next
  case (Cons a xs)
  then have "distinct (List.map_filter f xs)" by simp
  moreover have "u \<notin> set (List.map_filter f xs)" if "f a = Some u" for u
  proof
    assume "u \<in> set (List.map_filter f xs)"
    then obtain b where b: "b \<in> set xs" "f b = Some u" by (auto simp: set_map_filter_iff)
    then have "a = b" using Cons.prems(2) [of a b u] that by simp
    then show False using Cons.prems(1) b(1) by simp
  qed
  ultimately show ?case by (auto simp: map_filter_simps split: option.splits)
qed

lemma distinct_map_filter_sub: "distinct (map f xs) \<Longrightarrow> distinct (map f (filter P xs))"
  by (induction xs) auto

lemma spans_ends_distinct:
  assumes ok: "ranges_ok c n rs" and W: "1 \<le> W"
  shows "distinct (map window_end_cum_cyc (spans_t1 (sliding_window pick W rs)))"
proof -
  let ?L = "map (\<lambda>l. leading_row W l (trailing_match pick W rs l)) rs"
  let ?T = "List.map_filter (\<lambda>t. map_option (trailing_row W t) (leading_match pick W rs t)) rs"
  let ?keep = "\<lambda>w. case side w of Leading \<Rightarrow> True | Trailing \<Rightarrow> is_span_aliased w = Some False"
  have endL: "map window_end_cum_cyc ?L = map end_cum_cyc rs"
    by (simp add: leading_row_def comp_def)
  have keepL: "filter ?keep ?L = ?L" by (rule filter_True) (auto simp: leading_row_def)
  have endT: "map window_end_cum_cyc ?T
      = List.map_filter (\<lambda>t. map_option (\<lambda>_. end_cum_cyc t + W - 1) (leading_match pick W rs t)) rs"
    by (simp add: map_map_filter option.map_comp comp_def trailing_row_def)
  have "distinct (map window_end_cum_cyc ?T)"
    unfolding endT
  proof (rule distinct_map_filter)
    show "distinct rs" using ranges_ok_end_inj(2) [OF ok] by (simp add: distinct_map)
  qed (use ranges_ok_end_inj(1) [OF ok] in \<open>auto dest: inj_onD\<close>)
  then have dT: "distinct (map window_end_cum_cyc (filter ?keep ?T))" by (rule distinct_map_filter_sub)
  have apart: "window_end_cum_cyc w \<noteq> end_cum_cyc l" if w: "w \<in> set (filter ?keep ?T)" and l: "l \<in> set rs" for w l
  proof
    assume eq: "window_end_cum_cyc w = end_cum_cyc l"
    from w obtain t m where t: "t \<in> set rs" "leading_match pick W rs t = Some m"
        "w = trailing_row W t m" "end_cum_cyc t + W - 1 \<noteq> end_cum_cyc m"
      by (auto simp: map_filter_def trailing_row_def)
    have le: "end_cum_cyc t + W - 1 \<le> end_cum_cyc l" using eq t(3) by (simp add: trailing_row_def)
    have "end_cum_cyc m \<le> end_cum_cyc l"
      using asof_SomeD(3) [OF t(2) [unfolded leading_match_def] l le] .
    then show False
      using leading_matchD(2) [OF ok t(1) W t(2)] t(3,4) eq by (simp add: trailing_row_def)
  qed
  have split: "map window_end_cum_cyc (spans_t1 (sliding_window pick W rs))
      = map end_cum_cyc rs @ map window_end_cum_cyc (filter ?keep ?T)"
    by (simp only: spans_t1_def sliding_window_def filter_append keepL map_append endL)
  have "set (map end_cum_cyc rs) \<inter> set (map window_end_cum_cyc (filter ?keep ?T)) = {}"
  proof (rule equals0I)
    fix y assume "y \<in> set (map end_cum_cyc rs) \<inter> set (map window_end_cum_cyc (filter ?keep ?T))"
    then obtain l w where "l \<in> set rs" "y = end_cum_cyc l"
        "w \<in> set (filter ?keep ?T)" "y = window_end_cum_cyc w"
      unfolding set_map by blast
    then show False using apart by simp
  qed
  then show ?thesis
    unfolding split using dT ranges_ok_end_inj(2) [OF ok] by (simp only: distinct_append)
qed

end

section \<open>The bounds hold for every window of a span\<close>

context asof_engine begin

text \<open>
  Every window that ends inside a span (after the previous span's end, up to this one's)
  starts and ends in the same two ranges as the window at the span's end.
\<close>

lemma span_same_edges:
  assumes ok: "ranges_ok c n rs" and W: "1 \<le> W"
    and out: "ipc_spans pick fl W rs = Inr out" "x \<in> set out"
    and w: "w \<in> set (spans_t1 (sliding_window pick W rs))" "calc_row.truncate x = calc_of fl W w"
    and e: "edges rs W w t l" and inside: "end_cum_cyc t - cyc_count t < window_start_cum_cyc w"
    and k: "span_start_cyc x < k" "k \<le> window_end_cum_cyc w" "c < k - W + 1"
  shows "end_cum_cyc l - cyc_count l < k" "end_cum_cyc t - cyc_count t < k - W + 1"
proof -
  from e have m: "t \<in> set rs" "l \<in> set rs" and size: "window_end_cum_cyc w = window_start_cum_cyc w + W - 1"
    and wl: "end_cum_cyc l - cyc_count l < window_end_cum_cyc w" "window_end_cum_cyc w \<le> end_cum_cyc l"
    by (simp_all add: edges_def)
  have xe: "window_end_cum_cyc x = window_end_cum_cyc w" using calc_columns(2) [OF w(2)] by simp
  show "end_cum_cyc l - cyc_count l < k"
  proof (rule ccontr)
    assume n: "\<not> end_cum_cyc l - cyc_count l < k"
    then have "c < end_cum_cyc l - cyc_count l" using k(3) W by linarith
    then obtain q where q: "q \<in> set rs" "end_cum_cyc q = end_cum_cyc l - cyc_count l"
      by (rule ranges_ok_prev [OF ok m(2)])
    then obtain v where "v \<in> set (spans_t1 (sliding_window pick W rs))"
        "window_end_cum_cyc v = end_cum_cyc q"
      using leading_end_in_spans [OF ok W] by blast
    then show False using span_gap [OF out] q(2) n k(1) wl(1) xe by fastforce
  qed
  show "end_cum_cyc t - cyc_count t < k - W + 1"
  proof (rule ccontr)
    assume n: "\<not> end_cum_cyc t - cyc_count t < k - W + 1"
    then have "c < end_cum_cyc t - cyc_count t" using k(3) by linarith
    then obtain q where q: "q \<in> set rs" "end_cum_cyc q = end_cum_cyc t - cyc_count t"
      by (rule ranges_ok_prev [OF ok m(1)])
    have "end_cum_cyc q + W - 1 \<le> end_cum_cyc l" using q(2) inside size wl(2) by linarith
    then obtain v where "v \<in> set (spans_t1 (sliding_window pick W rs))"
        "window_end_cum_cyc v = end_cum_cyc q + W - 1"
      using trailing_end_in_spans [OF ok W q(1) m(2)] by blast
    then show False using span_gap [OF out] q(2) n k(1) inside size xe by fastforce
  qed
qed

lemma real_div_exact: "W \<noteq> 0 \<Longrightarrow> real_div (\<lambda>x. x) a W = Some (of_int a / of_int W)"
  by (simp add: real_div_def sql_div_def)

lemma span_band:
  assumes ok: "ranges_ok c n rs" and W: "1 \<le> W"
    and out: "ipc_spans pick (\<lambda>x. x) W rs = Inr out" "x \<in> set out"
    and k: "span_start_cyc x < k" "k \<le> window_end_cum_cyc x" "c < k - W + 1"
  shows "\<exists>lo hi. conservative_ipc x = Some lo \<and> optimistic_ipc x = Some hi
    \<and> lo \<le> avg_ipc rs (k - W + 1) k \<and> avg_ipc rs (k - W + 1) k \<le> hi"
proof -
  obtain w where w: "w \<in> set (spans_t1 (sliding_window pick W rs))"
      "calc_row.truncate x = calc_of (\<lambda>x. x) W w"
    by (rule ipc_spans_mem [OF out])
  note col = calc_columns(12,13) [OF w(2)]
  have xe: "window_end_cum_cyc x = window_end_cum_cyc w" using calc_columns(2) [OF w(2)] by simp
  obtain t l where e: "edges rs W w t l" and in': "c < window_start_cum_cyc w \<longrightarrow>
      end_cum_cyc t - cyc_count t < window_start_cum_cyc w"
    by (rule spans_edges [OF ok W w(1)])
  from e have size: "window_end_cum_cyc w = window_start_cum_cyc w + W - 1" by (simp add: edges_def)
  have inside: "end_cum_cyc t - cyc_count t < window_start_cum_cyc w"
    using in' k(2,3) size xe by simp
  note same = span_same_edges [OF ok W out w e inside k(1) k(2) [unfolded xe] k(3)]
  from e have m: "t \<in> set rs" "l \<in> set rs" by (simp_all add: edges_def)
  note pt = ranges_ok_pos [OF ok m(1)]
  let ?i = "if end_cum_cyc l = end_cum_cyc t then 0 else end_cum_insns l - insn_count l - end_cum_insns t"
  let ?o = "insn_count t + (if end_cum_cyc l = end_cum_cyc t then 0 else insn_count l) + ?i"
  have nz: "W \<noteq> 0" using W by simp
  have vals: "conservative_ipc x = Some (of_int ?i / of_int W)" "optimistic_ipc x = Some (of_int ?o / of_int W)"
    using calc_of_ipc(1,2) [OF e, where fl = "\<lambda>x. x"] calc_of_edges(4) [OF e, where fl = "\<lambda>x. x"]
    unfolding col by (simp_all add: real_div_exact [OF nz])
  have "of_int ?i \<le> window_insns rs (k - W + 1) k \<and> window_insns rs (k - W + 1) k \<le> of_int ?o"
  proof (cases "end_cum_cyc l = end_cum_cyc t")
    case True
    have le: "k \<le> end_cum_cyc t" using e True k(2) xe by (simp add: edges_def)
    have W': "k - (k - W + 1) + 1 \<le> cyc_count t" using same(2) le by linarith
    show ?thesis
      using window_insns_inside [OF ok m(1) same(2) le] share_bounds [of "insn_count t" W "cyc_count t"]
        pt W W' True by simp
  next
    case False
    have "window_in rs t l (k - W + 1) k"
      using e same k(2) xe size edges_parts(4) [OF ok e W False] by (auto simp: window_in_def edges_def)
    then show ?thesis using window_insns_bounds [OF ok] False by simp
  qed
  then show ?thesis
    using W by (simp add: vals avg_ipc_def divide_right_mono)
qed

end

end
