(* ===== verification/Window_Props.thy ===== *)
theory Window_Props
  imports Window_Spans
begin

text \<open>
  The properties of \<open>timestamped_ranges\<close>, \<open>sliding_window\<close> and \<open>ipc_spans\<close> as theorems about
  the samples they start from, each with a small trace on which it is applied.
\<close>

section \<open>The queries succeed\<close>

context asof_engine begin

lemma spans_t1_values:
  assumes ok: "ranges_ok 0 0 rs" and W: "1 \<le> W"
    and bnd: "\<And>r. r \<in> set rs \<Longrightarrow> end_cum_cyc r + W < 2 ^ 63 \<and> 0 \<le> end_time r \<and> end_time r < 2 ^ 64"
    and w: "w \<in> set (spans_t1 (sliding_window pick W rs))"
  shows "0 < window_end_cum_cyc w \<and> window_end_cum_cyc w < 2 ^ 63"
    and "- (2 ^ 63) \<le> window_start_cum_cyc w \<and> window_start_cum_cyc w < 2 ^ 63"
    and "0 \<le> w_end_time w \<and> w_end_time w < 2 ^ 64"
proof -
  have pos: "0 < end_cum_cyc r" if "r \<in> set rs" for r
    using ranges_ok_first_cyc [OF ok that] ranges_ok_pos [OF ok that] by linarith
  have "0 < window_end_cum_cyc w \<and> window_end_cum_cyc w < 2 ^ 63
      \<and> - (2 ^ 63) \<le> window_start_cum_cyc w \<and> window_start_cum_cyc w < 2 ^ 63
      \<and> 0 \<le> w_end_time w \<and> w_end_time w < 2 ^ 64"
    using ok W w
  proof (cases rule: spans_t1_cases)
    case (leading l t)
    then show ?thesis using bnd [of l] pos [of l] W by (simp add: leading_row_def)
  next
    case (trailing t l)
    note l = leading_matchD(1) [OF ok trailing(1) W trailing(2)]
    show ?thesis
      using trailing bnd [OF l] bnd [of t] pos [of t] W by (simp add: trailing_row_def)
  qed
  then show "0 < window_end_cum_cyc w \<and> window_end_cum_cyc w < 2 ^ 63"
    and "- (2 ^ 63) \<le> window_start_cum_cyc w \<and> window_start_cum_cyc w < 2 ^ 63"
    and "0 \<le> w_end_time w \<and> w_end_time w < 2 ^ 64" by blast+
qed

lemma ipc_spans_total:
  assumes ok: "ranges_ok 0 0 rs" and W: "1 \<le> W"
    and bnd: "\<And>r. r \<in> set rs \<Longrightarrow> end_cum_cyc r + W < 2 ^ 63 \<and> 0 \<le> end_time r \<and> end_time r < 2 ^ 64"
  shows "\<exists>out. ipc_spans pick fl W rs = Inr out"
  unfolding ipc_spans_def
proof (rule map_res_exists)
  let ?rows = "sort_key window_end_cum_cyc (spans_calc pick fl W rs)"
  note vals = spans_t1_values [OF ok W bnd]
  have row: "0 < window_end_cum_cyc (?rows ! j) \<and> window_end_cum_cyc (?rows ! j) < 2 ^ 63
      \<and> - (2 ^ 63) \<le> window_start_cum_cyc (?rows ! j) \<and> window_start_cum_cyc (?rows ! j) < 2 ^ 63
      \<and> 0 \<le> w_end_time (?rows ! j) \<and> w_end_time (?rows ! j) < 2 ^ 64" if "j < length ?rows" for j
  proof -
    have "?rows ! j \<in> set (spans_calc pick fl W rs)" using nth_mem [OF that] by simp
    then obtain w where "w \<in> set (spans_t1 (sliding_window pick W rs))" "?rows ! j = calc_of fl W w"
      by (auto simp: spans_calc_def)
    then show ?thesis using vals [of w] by simp
  qed
  fix s assume "s \<in> set (spans_t3 (spans_calc pick fl W rs))"
  then obtain i where i: "i < length (spans_calc pick fl W rs)"
      "s = spans_t3 (spans_calc pick fl W rs) ! i"
    unfolding in_set_conv_nth by auto
  have i': "i < length ?rows" "i - 1 < length ?rows" using i(1) by simp_all
  have s: "s = width_of (if i = 0 then None else Some (window_end_cum_cyc (?rows ! (i - 1)))) (?rows ! i)"
    using spans_t3_nth [OF i(1)] i(2) by simp
  have cols: "window_end_cum_cyc s = window_end_cum_cyc (?rows ! i)"
      "window_start_cum_cyc s = window_start_cum_cyc (?rows ! i)"
      "w_end_time s = w_end_time (?rows ! i)" by (simp_all add: s)
  have wd: "span_width_cyc s =
      (if i = 0 then 0 else window_end_cum_cyc (?rows ! i) - window_end_cum_cyc (?rows ! (i - 1)))"
    by (simp add: s width_of_def calc_row.defs)
  have "cast_bigint (window_end_cum_cyc s) = Inr (window_end_cum_cyc s)"
    "cast_bigint (window_start_cum_cyc s) = Inr (window_start_cum_cyc s)"
    "cast_ubigint (w_end_time s) = Inr (w_end_time s)"
    "cast_bigint (span_width_cyc s) = Inr (span_width_cyc s)"
    "cast_bigint (window_end_cum_cyc s - span_width_cyc s) = Inr (window_end_cum_cyc s - span_width_cyc s)"
    using row [OF i'(1)] row [OF i'(2)] unfolding wd cols
    by (auto simp: cast_bigint_def cast_ubigint_def)
  then show "\<exists>y. span_of s = Inr y" by (simp add: span_of_def)
qed

end

section \<open>A small trace\<close>

text \<open>
  Four samples out of order, one of them without counts: ranges of 3, 2 and 4 cycles.
\<close>

definition demo_sample :: "int \<Rightarrow> int \<Rightarrow> int \<Rightarrow> int \<Rightarrow> view_row" where
  "demo_sample i t n c = \<lparr>vid = i, vtime = t, v_insn_count = n, v_cyc_count = c,
     v_event = Some ''branches'', v_symbol = None, v_to_symbol = None,
     v_branch_type_name = Some ''call''\<rparr>"

definition demo_samples :: "view_row list" where
  "demo_samples =
     [demo_sample 7 130 4 4, demo_sample 2 100 3 3, demo_sample 3 100 0 0, demo_sample 5 120 5 2]"

lemma demo_ok: "samples_ok demo_samples" "cycles_positive demo_samples"
  by code_simp+

lemma demo_ranges: "ranges_ok 0 0 (timestamped_ranges demo_samples)"
  by (rule timestamped_ranges_ok [OF demo_ok])

lemma demo_ends: "map end_cum_cyc (timestamped_ranges demo_samples) = [3, 5, 9]"
  by code_simp

text \<open>What the export and the configuration provide: valid samples and a window of at least one cycle.\<close>

definition trace_ok :: "view_row list \<Rightarrow> int \<Rightarrow> bool" where
  "trace_ok samples W \<longleftrightarrow> samples_ok samples \<and> cycles_positive samples \<and> 1 \<le> W"

lemma trace_okD:
  "trace_ok samples W \<Longrightarrow> ranges_ok 0 0 (timestamped_ranges samples) \<and> 1 \<le> W"
  by (simp add: trace_ok_def timestamped_ranges_ok)

lemma demo_trace_ok: "trace_ok demo_samples 4"
  by (simp add: trace_ok_def demo_ok)

text \<open>Membership in \<open>ipc_spans\<close> is membership in the filtered \<open>sliding_window\<close>.\<close>

lemma ipc_spans_ends_mset:
  assumes "ipc_spans pick fl W rs = Inr out"
  shows "mset (map window_end_cum_cyc out)
    = mset (map window_end_cum_cyc (spans_t1 (sliding_window pick W rs)))"
    and "sorted (map window_end_cum_cyc out)"
proof -
  let ?rows = "sort_key window_end_cum_cyc (spans_calc pick fl W rs)"
  have len: "length out = length ?rows"
    using list_all2_lengthD [OF assms [unfolded ipc_spans_def map_res_Inr_iff]] by simp
  have eq: "map window_end_cum_cyc out = map window_end_cum_cyc ?rows"
  proof (rule nth_equalityI)
    fix i assume "i < length (map window_end_cum_cyc out)"
    then have i: "i < length out" by simp
    show "map window_end_cum_cyc out ! i = map window_end_cum_cyc ?rows ! i"
      using calc_columns(2) [OF ipc_spans_nth(2) [OF assms i]] i len by simp
  qed (use len in simp)
  show "sorted (map window_end_cum_cyc out)" unfolding eq by (rule sorted_sort_key)
  show "mset (map window_end_cum_cyc out)
    = mset (map window_end_cum_cyc (spans_t1 (sliding_window pick W rs)))"
    unfolding eq spans_ends [of pick fl W rs, symmetric] by simp
qed

lemma ipc_spans_sorted:
  assumes "asof_engine pick" and "trace_ok samples W"
    and "ipc_spans pick fl W (timestamped_ranges samples) = Inr out"
  shows "sorted_wrt (<) (map window_end_cum_cyc out)"
proof -
  note ok = trace_okD [OF assms(2)] and ms = ipc_spans_ends_mset [OF assms(3)]
  have "distinct (map window_end_cum_cyc out)"
    using asof_engine.spans_ends_distinct [OF assms(1) ok [THEN conjunct1] ok [THEN conjunct2]]
      mset_eq_imp_distinct_iff [OF ms(1)] by simp
  with ms(2) show ?thesis by (simp add: strict_sorted_iff)
qed

lemma ipc_spans_mem_end:
  assumes "ipc_spans pick fl W rs = Inr out" "e \<in> set (map window_end_cum_cyc (spans_t1 (sliding_window pick W rs)))"
  obtains x where "x \<in> set out" "window_end_cum_cyc x = e"
proof -
  have "e \<in> set (map window_end_cum_cyc out)"
    using assms(2) mset_eq_setD [OF ipc_spans_ends_mset(1) [OF assms(1)]] by simp
  then show thesis using that by auto
qed

lemma calc_of_insns [simp]:
  "trailing_insns (calc_of fl W w) = trailing_insn_count w"
  "leading_insns (calc_of fl W w) = (if is_single_range w = Some True then 0 else leading_insn_count w)"
  "interior_insns (calc_of fl W w) = (if is_single_range w = Some True then Some 0
     else map_option (\<lambda>t. (leading_end_cum_insns w - leading_insn_count w) - t) (trailing_end_cum_insns w))"
  by (simp_all add: calc_of_def Let_def window_row.defs)

text \<open>On the small trace, with any rounding: the row whose window is the cycles 5 to 8.\<close>

lemma demo_rows:
  "map window_end_cum_cyc (spans_t1 (sliding_window pick_first 4 (timestamped_ranges demo_samples)))
     = [3, 5, 9, 6, 8]"
  "list_all (\<lambda>w. window_end_cum_cyc w = 8 \<longrightarrow> window_start_cum_cyc w = 5 \<and> is_single_range w = Some False
     \<and> trailing_insn_count w = Some 5 \<and> leading_insn_count w = 4 \<and> leading_end_cum_insns w = 12
     \<and> trailing_end_cum_insns w = Some 8)
     (spans_t1 (sliding_window pick_first 4 (timestamped_ranges demo_samples)))"
  "list_all (\<lambda>r. end_cum_cyc r < 100 \<and> 0 \<le> end_time r \<and> end_time r < 1000)
     (timestamped_ranges demo_samples)"
  by code_simp+

lemma demo_out: "\<exists>out. ipc_spans pick_first fl 4 (timestamped_ranges demo_samples) = Inr out"
proof (rule first_engine.ipc_spans_total [OF demo_ranges])
  fix r assume "r \<in> set (timestamped_ranges demo_samples)"
  then show "end_cum_cyc r + 4 < 2 ^ 63 \<and> 0 \<le> end_time r \<and> end_time r < 2 ^ 64"
    using demo_rows(3) by (auto simp: list_all_iff)
qed simp

lemma demo_row:
  obtains out x where "ipc_spans pick_first fl 4 (timestamped_ranges demo_samples) = Inr out"
    "x \<in> set out" "window_start_cum_cyc x = 5" "window_end_cum_cyc x = 8"
    "trailing_insns x = Some 5" "leading_insns x = 4" "interior_insns x = Some 0"
proof -
  obtain out where out: "ipc_spans pick_first fl 4 (timestamped_ranges demo_samples) = Inr out"
    using demo_out by blast
  obtain x where x: "x \<in> set out" "window_end_cum_cyc x = 8"
    by (rule ipc_spans_mem_end [OF out, of 8]) (simp_all only: demo_rows(1), simp)
  obtain w where w: "w \<in> set (spans_t1 (sliding_window pick_first 4 (timestamped_ranges demo_samples)))"
      "calc_row.truncate x = calc_of fl 4 w"
    by (rule ipc_spans_mem [OF out x(1)])
  note cols = calc_columns [OF w(2)]
  have "window_end_cum_cyc w = 8" using cols(2) x(2) by simp
  then have "window_start_cum_cyc w = 5 \<and> is_single_range w = Some False
     \<and> trailing_insn_count w = Some 5 \<and> leading_insn_count w = 4 \<and> leading_end_cum_insns w = 12
     \<and> trailing_end_cum_insns w = Some 8"
    using demo_rows(2) w(1) by (simp add: list_all_iff)
  then show thesis using that [OF out x(1)] x(2) cols by simp
qed

section \<open>Properties\<close>

text \<open>C22: Every range of \<open>timestamped_ranges\<close> continues where the previous one ended: the
  cumulative cycles and instructions of the table are the running sums of its counts, each range
  has at least one cycle, and its start columns are the previous range's end columns.\<close>

theorem timestamped_ranges_chained:
  assumes "samples_ok samples" and "cycles_positive samples"
  shows "ranges_ok 0 0 (timestamped_ranges samples)
    \<and> (\<forall>i. Suc i < length (timestamped_ranges samples) \<longrightarrow>
         start_cum_cyc (timestamped_ranges samples ! Suc i) = Some (end_cum_cyc (timestamped_ranges samples ! i))
       \<and> start_time (timestamped_ranges samples ! Suc i) = Some (end_time (timestamped_ranges samples ! i))
       \<and> end_sample_row_number (timestamped_ranges samples ! Suc i) = int i + 2)"
  using timestamped_ranges_ok [OF assms] timestamped_ranges_start
    timestamped_ranges_nth(7) [OF assms(1)] by auto

theorem timestamped_ranges_chained_witness:
  "ranges_ok 0 0 (timestamped_ranges demo_samples) \<and> length (timestamped_ranges demo_samples) = 3"
  using timestamped_ranges_chained [OF demo_ok] demo_ends
  by (metis length_map list.size(3,4) numeral_3_eq_3 One_nat_def add_Suc_right add_0_right)

text \<open>C24: The three parts of every span's window (cycles taken from the range at its trailing
  edge, from the range at its leading edge, and from the ranges between) add up to exactly the
  window size: no cycle is lost or counted twice.\<close>

theorem ipc_spans_conservation:
  assumes "asof_engine pick" and "trace_ok samples W"
    and "ipc_spans pick fl W (timestamped_ranges samples) = Inr out" and "x \<in> set out"
  shows "\<exists>t i. trailing_cyc_in_window x = Some t \<and> interior_cyc x = Some i
    \<and> t + leading_cyc_in_window x + i = W \<and> 1 \<le> t \<and> 0 \<le> leading_cyc_in_window x \<and> 0 \<le> i"
proof -
  note ok = trace_okD [OF assms(2), THEN conjunct1] and W = trace_okD [OF assms(2), THEN conjunct2]
  obtain w where w: "w \<in> set (spans_t1 (sliding_window pick W (timestamped_ranges samples)))"
      "calc_row.truncate x = calc_of fl W w"
    by (rule ipc_spans_mem [OF assms(3,4)])
  obtain t l where e: "edges (timestamped_ranges samples) W w t l"
    by (rule asof_engine.spans_edges [OF assms(1) ok W w(1)])
  show ?thesis
    using edges_conservation [OF e, of fl] edges_parts(1,2) [OF ok e W] edges_parts(4) [OF ok e W]
      calc_of_edges(3,7) [OF e, where fl = fl] calc_columns(7,9,11) [OF w(2)]
    by (auto split: if_splits)
qed

theorem ipc_spans_conservation_witness:
  "\<exists>out x. ipc_spans pick_first f32 4 (timestamped_ranges demo_samples) = Inr out \<and> x \<in> set out
    \<and> (\<exists>t i. trailing_cyc_in_window x = Some t \<and> interior_cyc x = Some i
         \<and> t + leading_cyc_in_window x + i = 4)"
proof -
  obtain out x where x: "ipc_spans pick_first f32 4 (timestamped_ranges demo_samples) = Inr out"
      "x \<in> set out"
    by (rule demo_row)
  show ?thesis
    using ipc_spans_conservation [OF first_engine.asof_engine_axioms demo_trace_ok x] x by blast
qed

text \<open>C2: Once its window lies inside the trace, the interpolated IPC of a span lies between its
  conservative and its optimistic IPC, in rounded arithmetic as the database computes it: for
  every monotone rounding that is exact on the instruction counts involved.\<close>

theorem ipc_spans_bounds:
  assumes "asof_engine pick" and "rounding fl B" and "trace_ok samples W"
    and "ipc_spans pick fl W (timestamped_ranges samples) = Inr out" and "x \<in> set out"
    and "0 < window_start_cum_cyc x"
    and "trailing_insns x = Some tn" and "interior_insns x = Some i" and "tn + leading_insns x + i \<le> B"
  shows "\<exists>lo v hi. conservative_ipc x = Some lo \<and> end_linear_interp_ipc x = Some v
    \<and> optimistic_ipc x = Some hi \<and> lo \<le> v \<and> v \<le> hi"
proof -
  note ok = trace_okD [OF assms(3), THEN conjunct1] and W = trace_okD [OF assms(3), THEN conjunct2]
  obtain w where w: "w \<in> set (spans_t1 (sliding_window pick W (timestamped_ranges samples)))"
      "calc_row.truncate x = calc_of fl W w"
    by (rule ipc_spans_mem [OF assms(4,5)])
  note cols = calc_columns [OF w(2)]
  obtain t l where e: "edges (timestamped_ranges samples) W w t l"
      and inside: "0 < window_start_cum_cyc w \<longrightarrow> end_cum_cyc t - cyc_count t < window_start_cum_cyc w"
    by (rule asof_engine.spans_edges [OF assms(1) ok W w(1)])
  have "insn_count t + leading_insns (calc_of fl W w) + (if end_cum_cyc l = end_cum_cyc t then 0
      else end_cum_insns l - insn_count l - end_cum_insns t) \<le> B"
    using assms(7-9) calc_of_edges(2,6) [OF e, where fl = fl] unfolding cols by simp
  then show ?thesis
    using rounding.edges_ipc_between [OF assms(2) ok e W] inside assms(6) unfolding cols by simp
qed

theorem ipc_spans_bounds_witness:
  "\<exists>out x lo v hi. ipc_spans pick_first f32 4 (timestamped_ranges demo_samples) = Inr out \<and> x \<in> set out
    \<and> window_start_cum_cyc x = 5 \<and> conservative_ipc x = Some lo \<and> end_linear_interp_ipc x = Some v
    \<and> optimistic_ipc x = Some hi \<and> lo \<le> v \<and> v \<le> hi"
proof -
  obtain out x where x: "ipc_spans pick_first f32 4 (timestamped_ranges demo_samples) = Inr out"
      "x \<in> set out" "window_start_cum_cyc x = 5"
      "trailing_insns x = Some 5" "leading_insns x = 4" "interior_insns x = Some 0"
    by (rule demo_row)
  show ?thesis
    using ipc_spans_bounds [OF first_engine.asof_engine_axioms f32.rounding_axioms demo_trace_ok x(1,2)]
      x by fastforce
qed

text \<open>C1: In exact arithmetic the interpolated IPC column is the mean, over the cycles of the
  window, of the instruction density the trace gives each cycle: the query computes the average
  IPC of the window. (The first windows, which begin before the trace, are excluded.)\<close>

theorem ipc_spans_average:
  assumes "asof_engine pick" and "trace_ok samples W"
    and "ipc_spans pick (\<lambda>x. x) W (timestamped_ranges samples) = Inr out" and "x \<in> set out"
    and "0 < window_start_cum_cyc x"
  shows "end_linear_interp_ipc x =
    Some (avg_ipc (timestamped_ranges samples) (window_start_cum_cyc x) (window_end_cum_cyc x))"
proof -
  note ok = trace_okD [OF assms(2), THEN conjunct1] and W = trace_okD [OF assms(2), THEN conjunct2]
  obtain w where w: "w \<in> set (spans_t1 (sliding_window pick W (timestamped_ranges samples)))"
      "calc_row.truncate x = calc_of (\<lambda>x. x) W w"
    by (rule ipc_spans_mem [OF assms(3,4)])
  note cols = calc_columns [OF w(2)]
  obtain t l where e: "edges (timestamped_ranges samples) W w t l"
      and inside: "0 < window_start_cum_cyc w \<longrightarrow> end_cum_cyc t - cyc_count t < window_start_cum_cyc w"
    by (rule asof_engine.spans_edges [OF assms(1) ok W w(1)])
  show ?thesis
    using edges_linear_exact [OF ok e W] inside assms(5) unfolding cols by simp
qed

theorem ipc_spans_average_witness:
  "\<exists>out x. ipc_spans pick_first (\<lambda>x. x) 4 (timestamped_ranges demo_samples) = Inr out \<and> x \<in> set out
    \<and> end_linear_interp_ipc x = Some (avg_ipc (timestamped_ranges demo_samples) 5 8)"
proof -
  obtain out x where x: "ipc_spans pick_first (\<lambda>x. x) 4 (timestamped_ranges demo_samples) = Inr out"
      "x \<in> set out" "window_start_cum_cyc x = 5" "window_end_cum_cyc x = 8"
    by (rule demo_row)
  show ?thesis
    using ipc_spans_average [OF first_engine.asof_engine_axioms demo_trace_ok x(1,2)] x by auto
qed

text \<open>C3: The conservative and optimistic IPC of a span bound the true mean IPC of every window
  that ends inside the span, not only of the window at its end: the rectangle drawn for a span is
  an error band for the rolling average.\<close>

theorem ipc_span_error_band:
  assumes "asof_engine pick" and "trace_ok samples W"
    and "ipc_spans pick (\<lambda>x. x) W (timestamped_ranges samples) = Inr out" and "x \<in> set out"
    and "span_start_cyc x < k" and "k \<le> window_end_cum_cyc x" and "W \<le> k"
  shows "\<exists>lo hi. conservative_ipc x = Some lo \<and> optimistic_ipc x = Some hi
    \<and> lo \<le> avg_ipc (timestamped_ranges samples) (k - W + 1) k
    \<and> avg_ipc (timestamped_ranges samples) (k - W + 1) k \<le> hi"
  using asof_engine.span_band [OF assms(1) trace_okD [OF assms(2), THEN conjunct1]
      trace_okD [OF assms(2), THEN conjunct2] assms(3-6)] assms(7) by simp

theorem ipc_span_error_band_witness:
  "\<exists>out x lo hi. ipc_spans pick_first (\<lambda>x. x) 4 (timestamped_ranges demo_samples) = Inr out \<and> x \<in> set out
    \<and> conservative_ipc x = Some lo \<and> optimistic_ipc x = Some hi
    \<and> lo \<le> avg_ipc (timestamped_ranges demo_samples) 4 7 \<and> avg_ipc (timestamped_ranges demo_samples) 4 7 \<le> hi"
proof -
  have "case ipc_spans pick_first (\<lambda>x. x) 4 (timestamped_ranges demo_samples) of Inl e \<Rightarrow> False
    | Inr out \<Rightarrow> list_ex (\<lambda>x. span_start_cyc x = 6 \<and> window_end_cum_cyc x = 8) out"
    by code_simp
  then obtain out x where x: "ipc_spans pick_first (\<lambda>x. x) 4 (timestamped_ranges demo_samples) = Inr out"
      "x \<in> set out" "span_start_cyc x = 6" "window_end_cum_cyc x = 8"
    by (auto simp: list_ex_iff split: sum.splits)
  show ?thesis
    using ipc_span_error_band [OF first_engine.asof_engine_axioms demo_trace_ok x(1,2), of 7] x by auto
qed

text \<open>The table holds exactly one span per position where an edge of the window meets the end
  of a range: its window ends are the range ends and the range ends plus \<open>W - 1\<close> that the trace
  still reaches, each once, in increasing order.\<close>

theorem ipc_spans_ends:
  assumes "asof_engine pick" and "trace_ok samples W"
    and "ipc_spans pick fl W (timestamped_ranges samples) = Inr out"
  defines "ends \<equiv> end_cum_cyc ` set (timestamped_ranges samples)"
  shows "sorted_wrt (<) (map window_end_cum_cyc out)
    \<and> window_end_cum_cyc ` set out = ends \<union> {e + W - 1 | e. e \<in> ends \<and> (\<exists>m\<in>ends. e + W - 1 \<le> m)}"
proof -
  let ?rs = "timestamped_ranges samples" and ?sp = "spans_t1 (sliding_window pick W (timestamped_ranges samples))"
  note ok = trace_okD [OF assms(2), THEN conjunct1] and W = trace_okD [OF assms(2), THEN conjunct2]
  note ms = ipc_spans_ends_mset [OF assms(3)]
  note sorted = ipc_spans_sorted [OF assms(1-3)]
  have "window_end_cum_cyc ` set out = window_end_cum_cyc ` set ?sp"
    using mset_eq_setD [OF ms(1)] by simp
  also have "\<dots> = ends \<union> {e + W - 1 | e. e \<in> ends \<and> (\<exists>m\<in>ends. e + W - 1 \<le> m)}" (is "_ = ?E")
  proof (rule set_eqI, rule iffI)
    fix y assume "y \<in> window_end_cum_cyc ` set ?sp"
    then obtain w where w: "w \<in> set ?sp" "y = window_end_cum_cyc w" by blast
    show "y \<in> ?E"
    proof (rule asof_engine.spans_t1_cases [OF assms(1) ok W w(1)])
      fix l t assume "l \<in> set ?rs" "w = leading_row W l (Some t)"
      then show ?thesis by (simp add: w(2) ends_def leading_row_def)
    next
      fix t l assume t: "t \<in> set ?rs" "leading_match pick W ?rs t = Some l" "w = trailing_row W t l"
      then show ?thesis
        using asof_engine.leading_matchD(1,2) [OF assms(1) ok t(1) W t(2)]
        by (auto simp: w(2) ends_def trailing_row_def)
    qed
  next
    fix y assume "y \<in> ?E"
    then consider l where "l \<in> set ?rs" "y = end_cum_cyc l"
      | t m where "t \<in> set ?rs" "m \<in> set ?rs" "y = end_cum_cyc t + W - 1" "y \<le> end_cum_cyc m"
      by (auto simp: ends_def)
    then show "y \<in> window_end_cum_cyc ` set ?sp"
    proof cases
      case 1
      then show ?thesis using asof_engine.leading_end_in_spans [OF assms(1) ok W] by (metis image_eqI)
    next
      case 2
      then show ?thesis using asof_engine.trailing_end_in_spans [OF assms(1) ok W] by (metis image_eqI)
    qed
  qed
  finally show ?thesis using sorted by simp
qed

theorem ipc_spans_ends_witness:
  "\<exists>out. ipc_spans pick_first f32 4 (timestamped_ranges demo_samples) = Inr out
    \<and> sorted_wrt (<) (map window_end_cum_cyc out)
    \<and> {3, 6, 8} \<subseteq> window_end_cum_cyc ` set out \<and> 12 \<notin> window_end_cum_cyc ` set out"
proof -
  obtain out where out: "ipc_spans pick_first f32 4 (timestamped_ranges demo_samples) = Inr out"
    using demo_out by blast
  have "end_cum_cyc ` set (timestamped_ranges demo_samples) = {3, 5, 9}"
    using arg_cong [OF demo_ends, of set] by auto
  then show ?thesis
    using ipc_spans_ends [OF first_engine.asof_engine_axioms demo_trace_ok out] out by auto
qed

text \<open>C23: The spans tile the cycle axis from the first window end on: each span starts where the
  previous one ends and is at least one cycle wide; the first one has width 0.\<close>

theorem ipc_spans_tile:
  assumes "asof_engine pick" and "trace_ok samples W"
    and "ipc_spans pick fl W (timestamped_ranges samples) = Inr out" and "Suc i < length out"
  shows "span_start_cyc (out ! Suc i) = window_end_cum_cyc (out ! i)
    \<and> 0 < span_width_cyc (out ! Suc i)
    \<and> span_start_cyc (out ! Suc i) + span_width_cyc (out ! Suc i) = window_end_cum_cyc (out ! Suc i)
    \<and> span_width_cyc (out ! 0) = 0"
proof -
  have i: "i < length out" "0 < length out" using assms(4) by linarith+
  note at = ipc_spans_nth [OF assms(3) assms(4)] and prev = ipc_spans_nth [OF assms(3) i(1)]
    and first = ipc_spans_nth [OF assms(3) i(2)]
  have "window_end_cum_cyc (out ! i) < window_end_cum_cyc (out ! Suc i)"
    using ipc_spans_sorted [OF assms(1-3)] assms(4) by (simp add: sorted_wrt_iff_nth_less)
  then show ?thesis
    using at(3,4) first(3) calc_columns(2) [OF at(2)] calc_columns(2) [OF prev(2)] by simp
qed

theorem ipc_spans_tile_witness:
  "\<exists>out. ipc_spans pick_first f32 4 (timestamped_ranges demo_samples) = Inr out
    \<and> span_start_cyc (out ! 2) = window_end_cum_cyc (out ! 1) \<and> 0 < span_width_cyc (out ! 2)"
proof -
  obtain out where out: "ipc_spans pick_first f32 4 (timestamped_ranges demo_samples) = Inr out"
    using demo_out by blast
  have "length out = 5"
    using arg_cong [OF ipc_spans_ends_mset(1) [OF out], of size] demo_rows(1) by simp
  then show ?thesis
    using ipc_spans_tile [OF first_engine.asof_engine_axioms demo_trace_ok out, of 1] out
    by (auto simp: numeral_2_eq_2)
qed

text \<open>The filter loses nothing: where a row made from the trailing edge is dropped as aliased,
  the finished table has the span made from the leading edge, with the same window and the same
  edge ranges.\<close>

theorem aliased_spans_kept:
  assumes "asof_engine pick" and "trace_ok samples W"
    and "ipc_spans pick fl W (timestamped_ranges samples) = Inr out"
    and "t \<in> set (timestamped_ranges samples)"
    and "leading_match pick W (timestamped_ranges samples) t = Some l"
    and "is_span_aliased (trailing_row W t l) = Some True"
  shows "\<exists>x\<in>set out. window_row.truncate x =
    (trailing_row W t l)\<lparr>side := Leading, is_single_range := Some (W = 1)\<rparr>"
proof -
  let ?rs = "timestamped_ranges samples"
  note ok = trace_okD [OF assms(2), THEN conjunct1] and W = trace_okD [OF assms(2), THEN conjunct2]
  have eq: "end_cum_cyc t + W - 1 = end_cum_cyc l" using assms(6) by (simp add: trailing_row_def)
  have kept: "leading_row W l (Some t) \<in> set (spans_t1 (sliding_window pick W ?rs))"
    by (rule asof_engine.aliased_row_repeated(1) [OF assms(1) ok W assms(4,5) eq])
  have same: "leading_row W l (Some t)
      = trailing_row W t l\<lparr>side := Leading, is_single_range := Some (W = 1)\<rparr>"
    using eq by (auto simp: leading_row_def trailing_row_def)
  have "window_end_cum_cyc (leading_row W l (Some t))
      \<in> set (map window_end_cum_cyc (spans_t1 (sliding_window pick W ?rs)))"
    using imageI [OF kept, of window_end_cum_cyc] by simp
  then obtain x where x: "x \<in> set out" "window_end_cum_cyc x = window_end_cum_cyc (leading_row W l (Some t))"
    by (rule ipc_spans_mem_end [OF assms(3)])
  obtain w where w: "w \<in> set (spans_t1 (sliding_window pick W ?rs))" "calc_row.truncate x = calc_of fl W w"
    by (rule ipc_spans_mem [OF assms(3) x(1)])
  have "window_end_cum_cyc w = window_end_cum_cyc (leading_row W l (Some t))"
    using calc_columns(2) [OF w(2)] x(2) by simp
  then have "w = leading_row W l (Some t)"
    using asof_engine.spans_ends_distinct [OF assms(1) ok W] w(1) kept
    by (auto simp: distinct_map dest: inj_onD)
  then show ?thesis using calc_columns(1) [OF w(2)] x(1) same by auto
qed

theorem aliased_spans_kept_witness:
  "\<exists>out t l. ipc_spans pick_first f32 3 (timestamped_ranges demo_samples) = Inr out
    \<and> leading_match pick_first 3 (timestamped_ranges demo_samples) t = Some l
    \<and> (\<exists>x\<in>set out. window_start_cum_cyc x = 3 \<and> window_end_cum_cyc x = 5)"
proof -
  have tok: "trace_ok demo_samples 3" by (simp add: trace_ok_def demo_ok)
  obtain out where out: "ipc_spans pick_first f32 3 (timestamped_ranges demo_samples) = Inr out"
    using first_engine.ipc_spans_total [OF demo_ranges, of 3 f32] demo_rows(3)
    by (fastforce simp: list_all_iff)
  let ?t = "timestamped_ranges demo_samples ! 0" and ?l = "timestamped_ranges demo_samples ! 1"
  have m: "leading_match pick_first 3 (timestamped_ranges demo_samples) ?t = Some ?l"
    "is_span_aliased (trailing_row 3 ?t ?l) = Some True" "end_cum_cyc ?t = 3"
    by code_simp+
  have "?t \<in> set (timestamped_ranges demo_samples)"
    using arg_cong [OF demo_ends, of length] by (intro nth_mem) simp
  from aliased_spans_kept [OF first_engine.asof_engine_axioms tok out this m(1,2)]
  obtain x where x: "x \<in> set out" and eq: "window_row.truncate x =
      (trailing_row 3 ?t ?l)\<lparr>side := Leading, is_single_range := Some (3 = (1::int))\<rparr>"
    by blast
  have "window_start_cum_cyc x = 3 \<and> window_end_cum_cyc x = 5"
    using arg_cong [OF eq, of window_start_cum_cyc] arg_cong [OF eq, of window_end_cum_cyc] m(3)
    by (simp add: window_row.defs trailing_row_def)
  then show ?thesis using out m(1) x by blast
qed

lemma end_cum_cyc_le_total:
  assumes "samples_ok samples" "r \<in> set (timestamped_ranges samples)"
  shows "end_cum_cyc r \<le> sum_list (map v_cyc_count samples)"
    and "\<exists>s\<in>set samples. end_time r = vtime s"
proof -
  let ?rows = "sort_key vid (ranges_t1 samples)"
  obtain i where i: "i < length (timestamped_ranges samples)" "r = timestamped_ranges samples ! i"
    using assms(2) unfolding in_set_conv_nth by blast
  note at = timestamped_ranges_nth [OF assms(1) i(1)]
  have nonneg: "\<forall>s\<in>set ?rows. 0 \<le> v_cyc_count s" "\<forall>s\<in>set samples. 0 \<le> v_cyc_count s"
    using assms(1) by (auto simp: samples_ok_def ranges_t1_def)
  have "sum_list (map v_cyc_count (take (Suc i) ?rows) @ map v_cyc_count (drop (Suc i) ?rows))
      = sum_list (map v_cyc_count ?rows)"
    by (simp only: map_append [symmetric] append_take_drop_id)
  moreover have "0 \<le> sum_list (map v_cyc_count (drop (Suc i) ?rows))"
    by (rule sum_list_nonneg) (use nonneg(1) in_set_dropD in fastforce)
  moreover have "sum_list (map v_cyc_count ?rows) = sum_list (map v_cyc_count (ranges_t1 samples))"
    by (rule sum_list_mset_cong) simp
  moreover have "sum_list (map v_cyc_count (ranges_t1 samples)) \<le> sum_list (map v_cyc_count samples)"
    unfolding ranges_t1_def using nonneg(2) by (induction samples) auto
  ultimately show "end_cum_cyc r \<le> sum_list (map v_cyc_count samples)"
    unfolding i(2) at(5) by simp
  have "?rows ! i \<in> set ?rows"
    using i(1) by (intro nth_mem) (simp add: length_timestamped_ranges)
  then show "\<exists>s\<in>set samples. end_time r = vtime s"
    unfolding i(2) at(3) by (auto simp: ranges_t1_def)
qed

text \<open>C26: The final SELECT's casts cannot fail on a trace whose cycles and times fit their columns:
  \<open>ipc_spans\<close> is built for every window size the cycle counter can hold.\<close>

theorem ipc_spans_succeed:
  assumes "asof_engine pick" and "trace_ok samples W"
    and "sum_list (map v_cyc_count samples) + W < 2 ^ 63"
    and "\<forall>s\<in>set samples. 0 \<le> vtime s \<and> vtime s < 2 ^ 64"
  shows "\<exists>out. ipc_spans pick fl W (timestamped_ranges samples) = Inr out"
proof (rule asof_engine.ipc_spans_total [OF assms(1)])
  show "ranges_ok 0 0 (timestamped_ranges samples)" "1 \<le> W"
    using trace_okD [OF assms(2)] by auto
  fix r assume r: "r \<in> set (timestamped_ranges samples)"
  have "samples_ok samples" using assms(2) by (simp add: trace_ok_def)
  from end_cum_cyc_le_total [OF this r] assms(3,4)
  show "end_cum_cyc r + W < 2 ^ 63 \<and> 0 \<le> end_time r \<and> end_time r < 2 ^ 64" by auto
qed

theorem ipc_spans_succeed_witness:
  "\<exists>out. ipc_spans pick_first f32 4 (timestamped_ranges demo_samples) = Inr out"
  by (rule ipc_spans_succeed [OF first_engine.asof_engine_axioms demo_trace_ok]) code_simp+

text \<open>At the head of the trace the bound fails: if the first range is shorter than the window,
  the interpolated IPC of the window at its end is the range's own IPC, above the optimistic IPC,
  because the cycles before the trace are credited to the first range.\<close>

theorem head_window_overshoots:
  assumes "asof_engine pick" and "trace_ok samples W"
    and "ipc_spans pick (\<lambda>x. x) W (timestamped_ranges samples) = Inr out"
    and "timestamped_ranges samples = r # rs" and "cyc_count r < W" and "0 < insn_count r"
  shows "\<exists>x\<in>set out. window_end_cum_cyc x = cyc_count r
    \<and> optimistic_ipc x = Some (of_int (insn_count r) / of_int W)
    \<and> end_linear_interp_ipc x = Some (of_int (insn_count r) / of_int (cyc_count r))
    \<and> (of_int (insn_count r) / of_int W :: rat) < of_int (insn_count r) / of_int (cyc_count r)"
proof -
  note ok = trace_okD [OF assms(2), THEN conjunct1] and W = trace_okD [OF assms(2), THEN conjunct2]
  have r: "0 < cyc_count r" "end_cum_cyc r = cyc_count r" "r \<in> set (timestamped_ranges samples)"
    using ok assms(4) by auto
  have least: "end_cum_cyc r \<le> end_cum_cyc s" if "s \<in> set (timestamped_ranges samples)" for s
  proof (rule ccontr)
    assume "\<not> end_cum_cyc r \<le> end_cum_cyc s"
    then show False
      using ranges_ok_order [OF ok that r(3)] ranges_ok_first_cyc [OF ok that] ranges_ok_pos [OF ok that] r
      by auto
  qed
  have tm: "trailing_match pick W (timestamped_ranges samples) r = Some r"
    unfolding trailing_match_def
    by (rule asof_engine.asof_SomeI [OF assms(1) r(3)]) (use W least ranges_ok_end_inj(1) [OF ok] in auto)
  let ?w = "leading_row W r (Some r)"
  have kept: "?w \<in> set (spans_t1 (sliding_window pick W (timestamped_ranges samples)))"
    using tm r(3) by (force simp: spans_t1_def sliding_window_def leading_row_def)
  have "window_end_cum_cyc ?w
      \<in> set (map window_end_cum_cyc (spans_t1 (sliding_window pick W (timestamped_ranges samples))))"
    using imageI [OF kept, of window_end_cum_cyc] by simp
  then obtain x where x: "x \<in> set out" "window_end_cum_cyc x = window_end_cum_cyc ?w"
    by (rule ipc_spans_mem_end [OF assms(3)])
  obtain w where w: "w \<in> set (spans_t1 (sliding_window pick W (timestamped_ranges samples)))"
      "calc_row.truncate x = calc_of (\<lambda>x. x) W w"
    by (rule ipc_spans_mem [OF assms(3) x(1)])
  have "w = ?w"
    using asof_engine.spans_ends_distinct [OF assms(1) ok W] w(1) kept calc_columns(2) [OF w(2)] x(2)
    by (auto simp: distinct_map dest: inj_onD)
  then have "optimistic_ipc x = Some (of_int (insn_count r) / of_int W)"
    "end_linear_interp_ipc x = Some (of_int (insn_count r) / of_int (cyc_count r))"
    using W r(1) calc_columns(12,14) [OF w(2)]
    by (simp_all add: calc_of_def Let_def window_row.defs leading_row_def real_div_def sql_div_def
        linear_ipc_def edge_share_def)
  moreover have "(of_int (insn_count r) / of_int W :: rat) < of_int (insn_count r) / of_int (cyc_count r)"
    using assms(5,6) r(1) by (intro divide_strict_left_mono) auto
  ultimately show ?thesis using x r(2) by (auto simp: leading_row_def)
qed

theorem head_window_overshoots_witness:
  "\<exists>out. ipc_spans pick_first (\<lambda>x. x) 4 (timestamped_ranges demo_samples) = Inr out
    \<and> (\<exists>x\<in>set out. window_end_cum_cyc x = 3 \<and> optimistic_ipc x = Some (3/4)
         \<and> end_linear_interp_ipc x = Some 1)"
proof -
  obtain out where out: "ipc_spans pick_first (\<lambda>x. x) 4 (timestamped_ranges demo_samples) = Inr out"
    using demo_out by blast
  have "case timestamped_ranges demo_samples of [] \<Rightarrow> False | r # rs \<Rightarrow> cyc_count r = 3 \<and> insn_count r = 3"
    by code_simp
  then obtain r rs where r: "timestamped_ranges demo_samples = r # rs" "cyc_count r = 3" "insn_count r = 3"
    by (auto split: list.splits)
  show ?thesis
    using head_window_overshoots [OF first_engine.asof_engine_axioms demo_trace_ok out r(1)] r(2,3) out
    by auto
qed

end
