(* ===== verification/Util_Props.thy ===== *)
theory Util_Props
  imports Sql_Util Window_Props
begin

text \<open>
  What a session with \<open>SqlUtil\<close> leaves behind: the object and its database after any calls in any
  order, errors included, are a function of the log of the calls (\<open>log_state\<close>), which says of every
  table and attribute which call made it, with which configuration and from what. From it follows
  the order the methods need; the notebook's sequence runs exactly when the composition of the
  components does.
\<close>

section \<open>Logs\<close>

text \<open>The calls that were made before each call of a method, one list per call of it, in order.\<close>

definition before :: "util_call \<Rightarrow> util_call list \<Rightarrow> util_call list list" where
  "before m ms = map (\<lambda>i. take i ms) (filter (\<lambda>i. ms ! i = m) [0..<length ms])"

definition latest :: "'a option list \<Rightarrow> 'a option" where
  "latest xs = (case rev (List.map_filter (\<lambda>x. x) xs) of [] \<Rightarrow> None | x # _ \<Rightarrow> Some x)"

definition configured :: "util_call list \<Rightarrow> util_config option" where
  "configured ms = latest (map (\<lambda>m. case m of Configure k \<Rightarrow> Some k | _ \<Rightarrow> None) ms)"

definition live :: "util_call list \<Rightarrow> bool" where
  "live ms \<longleftrightarrow> Close \<notin> set ms"

lemma before_Nil [simp]: "before m [] = []"
  by (simp add: before_def)

lemma before_snoc [simp]: "before m (ms @ [x]) = before m ms @ (if x = m then [ms] else [])"
proof -
  have "filter (\<lambda>i. (ms @ [x]) ! i = m) [0..<length ms] = filter (\<lambda>i. ms ! i = m) [0..<length ms]"
    by (intro filter_cong) (auto simp: nth_append)
  then show ?thesis by (simp add: before_def)
qed

lemma before_iff: "pre \<in> set (before m ms) \<longleftrightarrow> (\<exists>post. ms = pre @ m # post)"
proof
  assume "pre \<in> set (before m ms)"
  then obtain i where "i < length ms" "ms ! i = m" "pre = take i ms" by (auto simp: before_def)
  then show "\<exists>post. ms = pre @ m # post" by (metis id_take_nth_drop)
next
  assume "\<exists>post. ms = pre @ m # post"
  then obtain post where "ms = pre @ m # post" ..
  then show "pre \<in> set (before m ms)"
    by (auto simp: before_def intro!: image_eqI [where x = "length pre"])
qed

lemma latest_Nil [simp]: "latest [] = None"
  by (simp add: latest_def map_filter_simps)

lemma latest_snoc [simp]: "latest (xs @ [x]) = (case x of None \<Rightarrow> latest xs | Some y \<Rightarrow> Some y)"
  by (simp add: latest_def List.map_filter_def split: option.split)

lemma latest_SomeD: "latest xs = Some x \<Longrightarrow> Some x \<in> set xs"
  by (induction xs rule: rev_induct) (auto split: option.splits)

lemma configured_simps [simp]:
  "configured [] = None"
  "configured (ms @ [m]) = (case m of Configure k \<Rightarrow> Some k | _ \<Rightarrow> configured ms)"
  by (simp_all add: configured_def split: util_call.split)

lemma live_simps [simp]: "live []" "live (ms @ [m]) \<longleftrightarrow> live ms \<and> m \<noteq> Close"
  by (auto simp: live_def)

section \<open>What a log leaves\<close>

text \<open>\<open>setup\<close>: the ranges of the exported samples and the two bounds of their middle.\<close>

definition log_ranges :: "bool \<Rightarrow> view_row list option \<Rightarrow> util_call list \<Rightarrow> trange list option" where
  "log_ranges found S ms = (if found \<and> list_ex live (before Setup ms) then map_option timestamped_ranges S else None)"

definition log_bounds :: "bool \<Rightarrow> view_row list option \<Rightarrow> util_call list \<Rightarrow> time_bound list option" where
  "log_bounds found S ms = Option.bind (log_ranges found S ms) (\<lambda>rs. case setup_start f64 rs of
      Inl _ \<Rightarrow> None | Inr s \<Rightarrow> Some (time_bounds s (s + 15000) rs))"

text \<open>What \<open>time_series_prep\<close> and \<open>cdf_prep\<close> work on when they are called after \<open>ms\<close>.\<close>

definition prep_input :: "bool \<Rightarrow> view_row list option \<Rightarrow> util_call list \<Rightarrow> (util_config \<times> trange list) option" where
  "prep_input found S ms = (if live ms
     then Option.bind (configured ms) (\<lambda>k. map_option (Pair k) (log_ranges found S ms)) else None)"

text \<open>\<open>time_series_prep\<close>: the windows of its last call that got that far, the spans of its last call
  whose casts succeeded, and after such a call, if there were bounds, the attributes of the clock.\<close>

definition log_windows :: "(int option list \<Rightarrow> nat option) \<Rightarrow> bool \<Rightarrow> view_row list option \<Rightarrow> util_call list \<Rightarrow> window_row list option" where
  "log_windows pick found S ms = latest (map (\<lambda>pre.
     map_option (\<lambda>(k, rs). sliding_window pick (window_size_cyc k) rs) (prep_input found S pre)) (before Time_series_prep ms))"

definition spans_made :: "(int option list \<Rightarrow> nat option) \<Rightarrow> bool \<Rightarrow> view_row list option \<Rightarrow> util_call list \<Rightarrow> ipc_span list option" where
  "spans_made pick found S pre = Option.bind (prep_input found S pre) (\<lambda>(k, rs).
     case ipc_spans pick f32 (window_size_cyc k) rs of Inl _ \<Rightarrow> None | Inr out \<Rightarrow> Some out)"

definition log_spans :: "(int option list \<Rightarrow> nat option) \<Rightarrow> bool \<Rightarrow> view_row list option \<Rightarrow> util_call list \<Rightarrow> ipc_span list option" where
  "log_spans pick found S ms = latest (map (spans_made pick found S) (before Time_series_prep ms))"

definition clock_reached :: "(int option list \<Rightarrow> nat option) \<Rightarrow> bool \<Rightarrow> view_row list option \<Rightarrow> util_call list \<Rightarrow> bool" where
  "clock_reached pick found S ms \<longleftrightarrow>
     list_ex (\<lambda>pre. spans_made pick found S pre \<noteq> None \<and> log_bounds found S pre \<noteq> None) (before Time_series_prep ms)"

definition log_clock :: "(int option list \<Rightarrow> nat option) \<Rightarrow> bool \<Rightarrow> view_row list option \<Rightarrow> util_call list \<Rightarrow> clock option" where
  "log_clock pick found S ms = (if clock_reached pick found S ms
     then Option.bind (log_bounds found S ms) (\<lambda>tb. case clock_bounds tb of
         Inl _ \<Rightarrow> None
       | Inr (b, e) \<Rightarrow> Some (clock_between b e (case rate_of f64 b e of Inl _ \<Rightarrow> None | Inr rate \<Rightarrow> rate)))
     else None)"

definition log_has_rate :: "(int option list \<Rightarrow> nat option) \<Rightarrow> bool \<Rightarrow> view_row list option \<Rightarrow> util_call list \<Rightarrow> bool" where
  "log_has_rate pick found S ms \<longleftrightarrow> clock_reached pick found S ms
     \<and> (case log_bounds found S ms of None \<Rightarrow> False
        | Some tb \<Rightarrow> (case clock_of f64 tb of Inl _ \<Rightarrow> False | Inr _ \<Rightarrow> True))"

text \<open>\<open>cdf_prep\<close>: the view and the table of its last call that got that far, with one threshold.\<close>

definition log_threshold :: "bool \<Rightarrow> view_row list option \<Rightarrow> util_call list \<Rightarrow> rat option" where
  "log_threshold found S ms = latest (map (\<lambda>pre.
     map_option (\<lambda>(k, rs). cumulative_longest_time_to_discard k) (prep_input found S pre)) (before Cdf_prep ms))"

definition log_cdf :: "bool \<Rightarrow> view_row list option \<Rightarrow> util_call list \<Rightarrow> cdf_row list option" where
  "log_cdf found S ms = latest (map (\<lambda>pre.
     map_option (\<lambda>(k, rs). range_cdf f32 (samples_for_cdf f32 (cumulative_longest_time_to_discard k) rs))
       (prep_input found S pre)) (before Cdf_prep ms))"

text \<open>\<open>events_prep\<close>: the three tables; and unless the assertion failed, whether there is a table of
  errors and, if so, the temporary table of overflows.\<close>

definition events_left :: "(int option list \<Rightarrow> nat option) \<Rightarrow> clock \<Rightarrow> trace_tables \<Rightarrow> error_row list option \<Rightarrow> trange list \<Rightarrow> event_tables" where
  "events_left pick k T E rs = (case full_syscalls (start_ns k) (end_ns k) T of
      None \<Rightarrow> no_events
    | Some rows \<Rightarrow>
       (let sws = event_switches pick T; cpu = on_cpu_syscalls pick (start_ns k) (end_ns k) sws rows;
            ok = list_all (\<lambda>r. \<not> inconsistent (start_ns k) (end_ns k) r) cpu
        in \<lparr>full_syscalls_table = Some rows, context_switches_table = Some sws, on_cpu_table = Some cpu,
            have_errors_table = (if ok then Some (E \<noteq> None) else None),
            errors_temp = (if ok then map_option (\<lambda>es. errors_and_ranges pick es rs) E else None)\<rparr>))"

definition log_events :: "(int option list \<Rightarrow> nat option) \<Rightarrow> bool \<Rightarrow> view_row list option \<Rightarrow> trace_tables option
    \<Rightarrow> error_row list option \<Rightarrow> util_call list \<Rightarrow> event_tables" where
  "log_events pick found S C E ms =
     (if list_ex (\<lambda>pre. live pre \<and> log_clock pick found S pre \<noteq> None) (before Events_prep ms) then
        (case (log_clock pick found S ms, C, log_ranges found S ms) of
           (Some k, Some T, Some rs) \<Rightarrow> events_left pick k T E rs | _ \<Rightarrow> no_events)
      else no_events)"

definition log_state :: "(int option list \<Rightarrow> nat option) \<Rightarrow> bool \<Rightarrow> view_row list option \<Rightarrow> trace_tables option
    \<Rightarrow> error_row list option \<Rightarrow> util_call list \<Rightarrow> sql_util" where
  "log_state pick found S C E ms =
     \<lparr>conn_open = live ms, config = configured ms,
      self_clock = log_clock pick found S ms, has_rate = log_has_rate pick found S ms,
      database = \<lparr>db_samples = S, db_calls = C, db_errors = E,
        timestamped = log_ranges found S ms, bounds_table = log_bounds found S ms,
        window_table = log_windows pick found S ms, spans_table = log_spans pick found S ms,
        cdf_view = log_threshold found S ms, cdf_table = log_cdf found S ms,
        event_db = log_events pick found S C E ms\<rparr>\<rparr>"

lemmas log_defs = log_windows_def log_spans_def log_threshold_def log_cdf_def

text \<open>Ranges, bounds and clock are made once and stay.\<close>

lemma log_ranges_snoc:
  "log_ranges found S (ms @ [m]) = (if found \<and> m = Setup \<and> live ms then map_option timestamped_ranges S else log_ranges found S ms)"
  by (auto simp: log_ranges_def)

lemma log_ranges_stay: "log_ranges found S ms = Some rs \<Longrightarrow> log_ranges found S (ms @ [m]) = Some rs"
  by (auto simp: log_ranges_def split: if_splits)

lemma log_bounds_stay: "log_bounds found S ms = Some tb \<Longrightarrow> log_bounds found S (ms @ [m]) = Some tb"
  by (auto simp: log_bounds_def bind_eq_Some_conv log_ranges_stay)

lemma log_other:
  assumes "m \<noteq> Setup \<or> \<not> live ms"
  shows "log_ranges found S (ms @ [m]) = log_ranges found S ms" "log_bounds found S (ms @ [m]) = log_bounds found S ms"
  using assms by (auto simp: log_bounds_def log_ranges_snoc)

lemma clock_reached_bounds: "clock_reached pick found S ms \<Longrightarrow> log_bounds found S ms \<noteq> None"
proof (induction ms rule: rev_induct)
  case Nil
  then show ?case by (simp add: clock_reached_def)
next
  case (snoc m ms)
  then have "log_bounds found S ms \<noteq> None" by (auto simp: clock_reached_def split: if_splits)
  then show ?case using log_bounds_stay by fastforce
qed

lemma log_clock_snoc:
  assumes "m \<noteq> Time_series_prep"
  shows "log_clock pick found S (ms @ [m]) = log_clock pick found S ms"
    and "log_has_rate pick found S (ms @ [m]) = log_has_rate pick found S ms"
proof -
  have reached: "clock_reached pick found S (ms @ [m]) = clock_reached pick found S ms"
    using assms by (simp add: clock_reached_def)
  moreover have "log_bounds found S (ms @ [m]) = log_bounds found S ms" if "clock_reached pick found S ms"
    using clock_reached_bounds [OF that] log_bounds_stay by fastforce
  ultimately show "log_clock pick found S (ms @ [m]) = log_clock pick found S ms"
    "log_has_rate pick found S (ms @ [m]) = log_has_rate pick found S ms"
    by (auto simp: log_clock_def log_has_rate_def)
qed

lemma log_clock_stay: "log_clock pick found S ms = Some k \<Longrightarrow> log_clock pick found S (ms @ [m]) = Some k"
proof -
  assume k: "log_clock pick found S ms = Some k"
  then have r: "clock_reached pick found S ms" by (auto simp: log_clock_def split: if_splits)
  then have "clock_reached pick found S (ms @ [m])" by (simp add: clock_reached_def)
  moreover have "log_bounds found S (ms @ [m]) = log_bounds found S ms"
    using clock_reached_bounds [OF r] log_bounds_stay by fastforce
  ultimately show ?thesis using k r by (simp add: log_clock_def)
qed

lemma log_clock_ranges: "log_clock pick found S ms = Some k \<Longrightarrow> \<exists>rs. log_ranges found S ms = Some rs"
  by (auto simp: log_clock_def log_bounds_def bind_eq_Some_conv split: if_splits)

lemma log_events_snoc:
  assumes "m \<noteq> Events_prep"
  shows "log_events pick found S C E (ms @ [m]) = log_events pick found S C E ms"
proof (cases "list_ex (\<lambda>pre. live pre \<and> log_clock pick found S pre \<noteq> None) (before Events_prep ms)")
  case True
  then obtain pre post k where "log_clock pick found S pre = Some k" "ms = pre @ Events_prep # post"
    by (auto simp: list_ex_iff before_iff)
  then have "log_clock pick found S ms = Some k"
  proof (induction post arbitrary: ms rule: rev_induct)
    case Nil
    then show ?case using log_clock_stay by simp
  next
    case (snoc x xs)
    then show ?case using log_clock_stay [of pick found S "pre @ Events_prep # xs" k x] by simp
  qed
  then obtain rs where "log_clock pick found S ms = Some k" "log_ranges found S ms = Some rs"
    using log_clock_ranges by blast
  then show ?thesis using assms log_clock_stay [of pick found S ms k m] log_ranges_stay [of found S ms rs m]
    by (simp add: log_events_def)
qed (use assms in \<open>simp add: log_events_def\<close>)

section \<open>What a method leaves\<close>

lemmas method_defs = and_then_def execute_def require_def with_config_def bind_res_def

lemma run_setup_state:
  "snd (run_setup found u) = (if found \<and> conn_open u then
      (case db_samples (database u) of None \<Rightarrow> u
       | Some s \<Rightarrow> u\<lparr>database := (case setup_start f64 (timestamped_ranges s) of
            Inl _ \<Rightarrow> (database u)\<lparr>timestamped := Some (timestamped_ranges s)\<rparr>
          | Inr t \<Rightarrow> (database u)\<lparr>timestamped := Some (timestamped_ranges s),
              bounds_table := Some (time_bounds t (t + 15000) (timestamped_ranges s))\<rparr>)\<rparr>)
    else u)"
  by (auto simp: run_setup_def method_defs ranges_script_def create_time_bounds_def read_range_data_def
      split: option.splits sum.splits if_splits)

lemma read_clock_state:
  "snd (read_clock u) = (if conn_open u then
      (case bounds_table (database u) of None \<Rightarrow> u
       | Some tb \<Rightarrow> (case clock_bounds tb of Inl _ \<Rightarrow> u
          | Inr (b, e) \<Rightarrow> (case rate_of f64 b e of
              Inl _ \<Rightarrow> u\<lparr>self_clock := Some (clock_between b e (Option.bind (self_clock u) ns_rate))\<rparr>
            | Inr rate \<Rightarrow> u\<lparr>self_clock := Some (clock_between b e rate), has_rate := True\<rparr>)))
    else u)"
  by (auto simp: read_clock_def assign_clock_def assign_rate_def and_then_def require_def clock_between_def
      split: option.splits sum.splits prod.splits)

lemma run_time_series_prep_state:
  "snd (run_time_series_prep pick u) = (if conn_open u then
      (case config u of None \<Rightarrow> u | Some k \<Rightarrow> (case timestamped (database u) of None \<Rightarrow> u
       | Some rs \<Rightarrow> (let d = (database u)\<lparr>window_table := Some (sliding_window pick (window_size_cyc k) rs)\<rparr> in
          (case ipc_spans pick f32 (window_size_cyc k) rs of
             Inl _ \<Rightarrow> u\<lparr>database := d\<rparr>
           | Inr out \<Rightarrow> snd (read_clock (u\<lparr>database := d\<lparr>spans_table := Some out\<rparr>\<rparr>))))))
    else u)"
  by (simp add: run_time_series_prep_def method_defs create_sliding_window_def create_ipc_spans_def Let_def
      split: option.split sum.split)

lemma run_cdf_prep_state:
  "snd (run_cdf_prep u) = (if conn_open u then
      (case config u of None \<Rightarrow> u | Some k \<Rightarrow> (case timestamped (database u) of None \<Rightarrow> u
       | Some rs \<Rightarrow> u\<lparr>database := (database u)\<lparr>cdf_view := Some (cumulative_longest_time_to_discard k),
          cdf_table := Some (range_cdf f32 (samples_for_cdf f32 (cumulative_longest_time_to_discard k) rs))\<rparr>\<rparr>))
    else u)"
  by (simp add: run_cdf_prep_def method_defs create_cdf_view_def create_range_cdf_def split: option.split)

text \<open>\<open>events_prep\<close> leaves the same tables the first time and every other time.\<close>

lemma events_prep_left:
  assumes "events_prep pick (start_ns k) (end_ns k) T E rs db = Some (e, db')"
    and "db = no_events \<or> db = events_left pick k T E rs"
  shows "db' = events_left pick k T E rs"
proof -
  obtain rows where rows: "full_syscalls (start_ns k) (end_ns k) T = Some rows" using events_prep_Some [OF assms(1)] by blast
  show ?thesis
    using assms(1,2) unfolding events_prep_returns [OF rows]
    by (auto simp: events_left_def rows Let_def no_events_def list_all_iff split: if_splits option.splits)
qed

section \<open>A step of a session\<close>

lemma log_setup: "snd (run_setup found (log_state pick found S C E ms)) = log_state pick found S C E (ms @ [Setup])"
proof (cases "found \<and> live ms \<and> S \<noteq> None")
  case True
  then obtain s where s: "S = Some s" by auto
  have new: "log_ranges found S (ms @ [Setup]) = Some (timestamped_ranges s)" using True s by (simp add: log_ranges_snoc)
  have "log_ranges found S ms = None \<or> log_ranges found S ms = Some (timestamped_ranges s)"
    by (auto simp: log_ranges_def s)
  then have old: "log_bounds found S ms = None" if "setup_start f64 (timestamped_ranges s) = Inl e" for e
    using that by (auto simp: log_bounds_def)
  have "log_bounds found S (ms @ [Setup]) = (case setup_start f64 (timestamped_ranges s) of
      Inl _ \<Rightarrow> None | Inr t \<Rightarrow> Some (time_bounds t (t + 15000) (timestamped_ranges s)))"
    by (simp add: log_bounds_def new)
  then show ?thesis
    using True s new old
    by (simp add: run_setup_state log_state_def log_defs log_clock_snoc log_events_snoc split: sum.split)
next
  case False
  have "log_ranges found S (ms @ [Setup]) = log_ranges found S ms"
    using False by (auto simp: log_ranges_snoc log_ranges_def)
  moreover from this have "log_bounds found S (ms @ [Setup]) = log_bounds found S ms" by (simp add: log_bounds_def)
  ultimately show ?thesis
    using False by (auto simp: run_setup_state log_state_def log_defs log_clock_snoc log_events_snoc)
qed

lemma log_prep_input:
  "prep_input found S ms = None \<longleftrightarrow> \<not> live ms \<or> configured ms = None \<or> log_ranges found S ms = None"
  "prep_input found S ms = Some (k, rs) \<longleftrightarrow> live ms \<and> configured ms = Some k \<and> log_ranges found S ms = Some rs"
  by (auto simp: prep_input_def bind_eq_Some_conv bind_eq_None_conv split: if_splits)

lemma log_cdf_prep: "snd (run_cdf_prep (log_state pick found S C E ms)) = log_state pick found S C E (ms @ [Cdf_prep])"
proof (cases "prep_input found S ms")
  case None
  then have "snd (run_cdf_prep (log_state pick found S C E ms)) = log_state pick found S C E ms"
    unfolding log_prep_input by (auto simp: run_cdf_prep_state log_state_def split: option.split)
  then show ?thesis
    using None by (simp add: log_state_def log_defs log_other log_clock_snoc log_events_snoc)
next
  case (Some p)
  obtain k rs where p: "p = (k, rs)" by (cases p)
  show ?thesis
    using Some [unfolded p] Some [unfolded p log_prep_input]
    by (simp add: run_cdf_prep_state log_state_def log_defs log_other log_clock_snoc log_events_snoc)
qed

lemma clock_between_simps [simp]: "start_ns (clock_between b e r) = tb_ns b" "end_ns (clock_between b e r) = tb_ns e"
  "ns_rate (clock_between b e r) = r"
  by (simp_all add: clock_between_def)

text \<open>Reading the clock: an earlier clock was read from the same bounds.\<close>

lemma log_time_series_prep:
  "snd (run_time_series_prep pick (log_state pick found S C E ms)) = log_state pick found S C E (ms @ [Time_series_prep])"
proof (cases "prep_input found S ms")
  case None
  then have "snd (run_time_series_prep pick (log_state pick found S C E ms)) = log_state pick found S C E ms"
    unfolding log_prep_input by (auto simp: run_time_series_prep_state log_state_def split: option.split)
  moreover have "clock_reached pick found S (ms @ [Time_series_prep]) = clock_reached pick found S ms"
    using None by (simp add: clock_reached_def spans_made_def)
  ultimately show ?thesis
    using None by (simp add: log_state_def log_defs log_other log_events_snoc log_clock_def log_has_rate_def spans_made_def)
next
  case (Some p)
  obtain k rs where p: "p = (k, rs)" by (cases p)
  note i = Some [unfolded p log_prep_input]
  show ?thesis
  proof (cases "ipc_spans pick f32 (window_size_cyc k) rs")
    case (Inl x)
    then have none: "spans_made pick found S ms = None" using Some p by (simp add: spans_made_def)
    then have "clock_reached pick found S (ms @ [Time_series_prep]) = clock_reached pick found S ms"
      by (simp add: clock_reached_def)
    then show ?thesis
      using i Inl none Some p by (simp add: run_time_series_prep_state log_state_def log_defs log_other log_events_snoc
          log_clock_def log_has_rate_def Let_def)
  next
    case (Inr out)
    then have made: "spans_made pick found S ms = Some out" using Some p by (simp add: spans_made_def)
    have reached: "clock_reached pick found S (ms @ [Time_series_prep])
        \<longleftrightarrow> clock_reached pick found S ms \<or> log_bounds found S ms \<noteq> None"
      by (simp add: clock_reached_def made)
    let ?u = "(log_state pick found S C E ms)\<lparr>database := (database (log_state pick found S C E ms))\<lparr>
        window_table := Some (sliding_window pick (window_size_cyc k) rs), spans_table := Some out\<rparr>\<rparr>"
    have run: "snd (run_time_series_prep pick (log_state pick found S C E ms)) = snd (read_clock ?u)"
      using i Inr by (simp add: run_time_series_prep_state log_state_def Let_def)
    have target: "log_state pick found S C E (ms @ [Time_series_prep])
        = ?u\<lparr>self_clock := log_clock pick found S (ms @ [Time_series_prep]),
            has_rate := log_has_rate pick found S (ms @ [Time_series_prep])\<rparr>"
      using made Some p by (simp add: log_state_def log_defs log_other log_events_snoc)
    show ?thesis
      unfolding run target read_clock_state using i
      by (auto simp: log_state_def log_clock_def log_has_rate_def reached log_other clock_of_def bind_res_def
          dest: clock_reached_bounds split: option.split sum.split prod.split)
  qed
qed

lemma log_events_prep:
  assumes "run_events_prep pick (log_state pick found S C E ms) = Some (e, u')"
  shows "u' = log_state pick found S C E (ms @ [Events_prep])"
proof (cases "live ms \<and> log_clock pick found S ms \<noteq> None \<and> C \<noteq> None")
  case True
  then obtain k T rs where k: "log_clock pick found S ms = Some k" "C = Some T" "log_ranges found S ms = Some rs"
    using log_clock_ranges by fastforce
  then obtain ev where ev: "events_prep pick (start_ns k) (end_ns k) T E rs (log_events pick found S C E ms) = Some (e, ev)"
      "u' = (log_state pick found S C E ms)\<lparr>database := (database (log_state pick found S C E ms))\<lparr>event_db := ev\<rparr>\<rparr>"
    using assms True by (auto simp: run_events_prep_def log_state_def)
  have "log_events pick found S C E ms = no_events \<or> log_events pick found S C E ms = events_left pick k T E rs"
    using k by (simp add: log_events_def)
  from events_prep_left [OF ev(1) this] have "ev = events_left pick k T E rs" .
  moreover have "log_events pick found S C E (ms @ [Events_prep]) = events_left pick k T E rs"
    using True k by (simp add: log_events_def log_other log_clock_snoc)
  ultimately show ?thesis
    using ev(2) by (simp add: log_state_def log_defs log_other log_clock_snoc)
next
  case False
  then have u: "u' = log_state pick found S C E ms"
    using assms by (auto simp: run_events_prep_def log_state_def split: option.splits if_splits)
  moreover have "log_events pick found S C E (ms @ [Events_prep]) = log_events pick found S C E ms"
    using False by (cases "log_clock pick found S ms"; cases C) (auto simp: log_events_def log_other log_clock_snoc)
  ultimately show ?thesis by (simp add: log_state_def log_defs log_other log_clock_snoc)
qed

lemma log_step:
  assumes "run_method pick found m (log_state pick found S C E ms) = Some (e, u')"
  shows "u' = log_state pick found S C E (ms @ [m])"
proof (cases m)
  case (Configure k)
  then have "u' = (log_state pick found S C E ms)\<lparr>config := Some k\<rparr>"
    using assms by (simp add: run_method_def configure_def)
  then show ?thesis by (simp add: Configure log_state_def log_defs log_other log_clock_snoc log_events_snoc)
next
  case Setup
  then have "u' = snd (run_setup found (log_state pick found S C E ms))" using assms by (auto simp: run_method_def)
  then show ?thesis by (simp add: Setup log_setup)
next
  case Time_series_prep
  then have "u' = snd (run_time_series_prep pick (log_state pick found S C E ms))" using assms by (auto simp: run_method_def)
  then show ?thesis by (simp add: Time_series_prep log_time_series_prep)
next
  case Cdf_prep
  then have "u' = snd (run_cdf_prep (log_state pick found S C E ms))" using assms by (auto simp: run_method_def)
  then show ?thesis by (simp add: Cdf_prep log_cdf_prep)
next
  case Events_prep
  then show ?thesis using assms log_events_prep by (simp add: run_method_def)
next
  case Close
  then have "u' = (log_state pick found S C E ms)\<lparr>conn_open := False\<rparr>"
    using assms by (simp add: run_method_def close_def)
  then show ?thesis by (simp add: Close log_state_def log_defs log_other log_clock_snoc log_events_snoc)
qed

lemma log_start: "log_state pick found S C E [] = fresh_util S C E"
  by (simp add: log_state_def fresh_util_def log_defs log_ranges_def log_bounds_def log_clock_def clock_reached_def
      log_has_rate_def log_events_def)

lemma session_log: "util_session pick found (fresh_util S C E) ms u \<Longrightarrow> u = log_state pick found S C E ms"
proof (induction rule: util_session.induct)
  case start
  show ?case by (simp add: log_start)
next
  case (call ms u m e u')
  then show ?case using log_step by blast
qed

section \<open>When a method succeeds\<close>

lemma run_calls_ok_iff:
  "run_calls pick found (m # ms) u = Some (None, u') \<longleftrightarrow>
     (\<exists>v. run_method pick found m u = Some (None, v) \<and> run_calls pick found ms v = Some (None, u'))"
  by (auto split: option.splits prod.splits)

lemma setup_ok_iff:
  assumes "conn_open u"
  shows "run_setup found u = (None, u') \<longleftrightarrow> found \<and> (\<exists>s tb. db_samples (database u) = Some s
    \<and> util_setup f64 k (timestamped_ranges s) = Inr tb
    \<and> u' = u\<lparr>database := (database u)\<lparr>timestamped := Some (timestamped_ranges s), bounds_table := Some tb\<rparr>\<rparr>)"
  using assms by (auto simp: run_setup_def method_defs ranges_script_def create_time_bounds_def read_range_data_def
      util_setup_def Let_def split: option.splits sum.splits if_splits)

lemma read_clock_ok_iff:
  assumes "conn_open u"
  shows "read_clock u = (None, u') \<longleftrightarrow> (\<exists>tb ck. bounds_table (database u) = Some tb \<and> clock_of f64 tb = Inr ck
    \<and> u' = u\<lparr>self_clock := Some ck, has_rate := True\<rparr>)"
proof (cases "bounds_table (database u)")
  case (Some tb)
  then show ?thesis
    using assms by (cases "clock_bounds tb") (auto simp: read_clock_def require_def assign_clock_def assign_rate_def
        and_then_def clock_of_def bind_res_def clock_between_def split: sum.splits)
qed (use assms in \<open>simp add: read_clock_def require_def\<close>)

lemma time_series_prep_ok_iff:
  assumes "conn_open u" "config u = Some k"
  shows "run_time_series_prep pick u = (None, u') \<longleftrightarrow> (\<exists>rs out tb ck. timestamped (database u) = Some rs
    \<and> ipc_spans pick f32 (window_size_cyc k) rs = Inr out \<and> bounds_table (database u) = Some tb \<and> clock_of f64 tb = Inr ck
    \<and> u' = u\<lparr>self_clock := Some ck, has_rate := True, database := (database u)\<lparr>
        window_table := Some (sliding_window pick (window_size_cyc k) rs), spans_table := Some out\<rparr>\<rparr>)"
proof (cases "timestamped (database u)")
  case (Some rs)
  then show ?thesis
    using assms by (cases "ipc_spans pick f32 (window_size_cyc k) rs")
      (auto simp: run_time_series_prep_def method_defs create_sliding_window_def create_ipc_spans_def read_clock_ok_iff)
qed (use assms in \<open>simp add: run_time_series_prep_def method_defs create_sliding_window_def\<close>)

lemma cdf_prep_ok_iff:
  assumes "conn_open u" "config u = Some k"
  shows "run_cdf_prep u = (None, u') \<longleftrightarrow> (\<exists>rs. timestamped (database u) = Some rs
    \<and> u' = u\<lparr>database := (database u)\<lparr>cdf_view := Some (cumulative_longest_time_to_discard k),
        cdf_table := Some (range_cdf f32 (samples_for_cdf f32 (cumulative_longest_time_to_discard k) rs))\<rparr>\<rparr>)"
  using assms by (auto simp: run_cdf_prep_def method_defs create_cdf_view_def create_range_cdf_def
      split: option.splits sum.splits if_splits)

lemma events_prep_ok_iff:
  assumes "conn_open u" "self_clock u = Some ck" "timestamped (database u) = Some rs"
  shows "run_events_prep pick u = Some (None, u') \<longleftrightarrow> (\<exists>T ev. db_calls (database u) = Some T
    \<and> events_prep pick (start_ns ck) (end_ns ck) T (db_errors (database u)) rs (event_db (database u)) = Some (None, ev)
    \<and> u' = u\<lparr>database := (database u)\<lparr>event_db := ev\<rparr>\<rparr>)"
  using assms by (auto simp: run_events_prep_def split: option.splits)

text \<open>The notebook, one method after the other.\<close>

definition pure_result ::
  "(int option list \<Rightarrow> nat option) \<Rightarrow> util_config \<Rightarrow> view_row list \<Rightarrow> trace_tables \<Rightarrow> error_row list option
     \<Rightarrow> time_bound list \<Rightarrow> ipc_span list \<Rightarrow> clock \<Rightarrow> event_tables \<Rightarrow> sql_util" where
  "pure_result pick k s T E tb out ck ev = (let rs = timestamped_ranges s in
     \<lparr>conn_open = True, config = Some k, self_clock = Some ck, has_rate = True,
      database = \<lparr>db_samples = Some s, db_calls = Some T, db_errors = E, timestamped = Some rs, bounds_table = Some tb,
        window_table = Some (sliding_window pick (window_size_cyc k) rs), spans_table = Some out,
        cdf_view = Some (cumulative_longest_time_to_discard k),
        cdf_table = Some (range_cdf f32 (samples_for_cdf f32 (cumulative_longest_time_to_discard k) rs)),
        event_db = ev\<rparr>\<rparr>)"

lemma notebook_steps:
  "run_calls pick found (notebook_calls k) (fresh_util S C E) = Some (None, u) \<longleftrightarrow>
     (\<exists>a b d. run_setup found ((fresh_util S C E)\<lparr>config := Some k\<rparr>) = (None, a)
        \<and> run_time_series_prep pick a = (None, b) \<and> run_cdf_prep b = (None, d)
        \<and> run_events_prep pick d = Some (None, u))"
proof -
  have "run_method pick found (Configure k) (fresh_util S C E) = Some (None, v) \<longleftrightarrow>
      v = (fresh_util S C E)\<lparr>config := Some k\<rparr>" for v
    by (auto simp: run_method_def configure_def)
  then show ?thesis
    unfolding notebook_calls_def run_calls_ok_iff by (simp add: run_method_def run_calls.simps(1))
qed

lemma notebook_pure:
  assumes "run_calls pick found (notebook_calls k) (fresh_util S C E) = Some (None, u)"
  obtains s tb out ck T ev where "found" "S = Some s" "util_setup f64 k (timestamped_ranges s) = Inr tb"
    "ipc_spans pick f32 (window_size_cyc k) (timestamped_ranges s) = Inr out" "clock_of f64 tb = Inr ck" "C = Some T"
    "events_prep pick (start_ns ck) (end_ns ck) T E (timestamped_ranges s) no_events = Some (None, ev)"
    "u = pure_result pick k s T E tb out ck ev"
proof -
  let ?u0 = "(fresh_util S C E)\<lparr>config := Some k\<rparr>"
  have open0: "conn_open ?u0" "db_samples (database ?u0) = S" by (simp_all add: fresh_util_def)
  obtain a b d where r: "run_setup found ?u0 = (None, a)" "run_time_series_prep pick a = (None, b)"
      "run_cdf_prep b = (None, d)" "run_events_prep pick d = Some (None, u)"
    using assms unfolding notebook_steps by blast
  obtain s tb where s: "found" "S = Some s" "util_setup f64 k (timestamped_ranges s) = Inr tb"
      "a = ?u0\<lparr>database := (database ?u0)\<lparr>timestamped := Some (timestamped_ranges s), bounds_table := Some tb\<rparr>\<rparr>"
    using r(1) unfolding setup_ok_iff [OF open0(1), of found a k] open0(2) by blast
  have a: "conn_open a" "config a = Some k" "timestamped (database a) = Some (timestamped_ranges s)"
    "bounds_table (database a) = Some tb" by (simp_all add: s(4) fresh_util_def)
  obtain out ck where o: "ipc_spans pick f32 (window_size_cyc k) (timestamped_ranges s) = Inr out"
      "clock_of f64 tb = Inr ck" "b = a\<lparr>self_clock := Some ck, has_rate := True, database := (database a)\<lparr>
      window_table := Some (sliding_window pick (window_size_cyc k) (timestamped_ranges s)), spans_table := Some out\<rparr>\<rparr>"
    using r(2) unfolding time_series_prep_ok_iff [OF a(1,2)] a(3,4) by blast
  have b: "conn_open b" "config b = Some k" "timestamped (database b) = Some (timestamped_ranges s)"
    using a by (simp_all add: o(3))
  have d: "d = b\<lparr>database := (database b)\<lparr>cdf_view := Some (cumulative_longest_time_to_discard k),
      cdf_table := Some (range_cdf f32 (samples_for_cdf f32 (cumulative_longest_time_to_discard k) (timestamped_ranges s)))\<rparr>\<rparr>"
    using r(3) unfolding cdf_prep_ok_iff [OF b(1,2)] b(3) by blast
  have d': "conn_open d" "self_clock d = Some ck" "timestamped (database d) = Some (timestamped_ranges s)"
    "db_calls (database d) = C" "db_errors (database d) = E" "event_db (database d) = no_events"
    using b by (simp_all add: d o(3) s(4) fresh_util_def)
  obtain T ev where t: "C = Some T" "u = d\<lparr>database := (database d)\<lparr>event_db := ev\<rparr>\<rparr>"
      "events_prep pick (start_ns ck) (end_ns ck) T E (timestamped_ranges s) no_events = Some (None, ev)"
    using r(4) unfolding events_prep_ok_iff [OF d'(1-3)] d'(4-6) by blast
  show thesis
    by (rule that [OF s(1-3) o(1,2) t(1,3)]) (simp add: t d o(3) s(2,4) fresh_util_def pure_result_def Let_def)
qed

lemma notebook_runs:
  assumes "util_setup f64 k (timestamped_ranges s) = Inr tb"
    and "ipc_spans pick f32 (window_size_cyc k) (timestamped_ranges s) = Inr out" and "clock_of f64 tb = Inr ck"
    and "events_prep pick (start_ns ck) (end_ns ck) T E (timestamped_ranges s) no_events = Some (None, ev)"
  shows "run_calls pick True (notebook_calls k) (fresh_util (Some s) (Some T) E) = Some (None, pure_result pick k s T E tb out ck ev)"
proof -
  let ?u0 = "(fresh_util (Some s) (Some T) E)\<lparr>config := Some k\<rparr>"
  have "conn_open ?u0" "db_samples (database ?u0) = Some s" by (simp_all add: fresh_util_def)
  then have "run_setup True ?u0 = (None, ?u0\<lparr>database := (database ?u0)\<lparr>timestamped := Some (timestamped_ranges s),
      bounds_table := Some tb\<rparr>\<rparr>)"
    using assms(1) setup_ok_iff [of ?u0 True _ k] by blast
  then show ?thesis
    unfolding notebook_steps
    by (simp add: assms time_series_prep_ok_iff [where k = k] cdf_prep_ok_iff [where k = k] events_prep_ok_iff
        fresh_util_def pure_result_def Let_def)
qed

lemma session_run:
  "run_calls pick found ms u = Some (None, u') \<Longrightarrow> util_session pick found u0 pre u \<Longrightarrow> util_session pick found u0 (pre @ ms) u'"
proof (induction ms arbitrary: u pre)
  case Nil
  then show ?case by simp
next
  case (Cons m ms)
  then obtain v where v: "run_method pick found m u = Some (None, v)" "run_calls pick found ms v = Some (None, u')"
    unfolding run_calls_ok_iff by blast
  have "util_session pick found u0 (pre @ [m]) v" by (rule util_session.call [OF Cons.prems(2) v(1)])
  from Cons.IH [OF v(2) this] show ?case by simp
qed

lemma session_longer:
  assumes "util_session pick found u0 pre u" "Events_prep \<notin> set ms"
  obtains v where "util_session pick found u0 (pre @ ms) v"
  using assms
proof (induction ms arbitrary: thesis rule: rev_induct)
  case Nil
  then show ?case by simp
next
  case (snoc m ms)
  then obtain v where v: "util_session pick found u0 (pre @ ms) v" by auto
  have "\<exists>p. run_method pick found m v = Some p" using snoc.prems(3) by (cases m) (simp_all add: run_method_def)
  then obtain e w where "run_method pick found m v = Some (e, w)" by auto
  from util_session.call [OF v this] show ?case using snoc.prems(1) by simp
qed

section \<open>A session\<close>

definition demo_session_samples :: "view_row list" where
  "demo_session_samples = map (\<lambda>(i, t, n). \<lparr>vid = i, vtime = t, v_insn_count = n, v_cyc_count = n, v_event = None,
     v_symbol = None, v_to_symbol = None, v_branch_type_name = Some ''call''\<rparr>) [(1, 100, 1), (2, 30060, 3), (3, 60000, 5)]"

definition demo_no_calls :: trace_tables where
  "demo_no_calls = demo_tables\<lparr>t_calls := []\<rparr>"

lemma demo_session_ranges:
  "map (\<lambda>r. (end_time r, end_cum_cyc r)) (timestamped_ranges demo_session_samples) = [(100, 1), (30060, 4), (60000, 9)]"
  by (simp add: timestamped_ranges_def ranges_t1_def ranges_t2_def ranges_t3_def demo_session_samples_def
      sql_min_def cum_of_def view_row.extend_def lag1_def range_of_def numeral_eq_Suc range_sum_def)

lemma time_bounds_cong:
  "map (\<lambda>r. (end_time r, end_cum_cyc r)) rs = map (\<lambda>r. (end_time r, end_cum_cyc r)) rs' \<Longrightarrow>
     util_setup fl k rs = util_setup fl k rs'"
proof -
  assume eq: "map (\<lambda>r. (end_time r, end_cum_cyc r)) rs = map (\<lambda>r. (end_time r, end_cum_cyc r)) rs'"
  have "map f (filter P rs) = map f (filter P rs')"
    if "\<And>r. f r = g (end_time r, end_cum_cyc r)" "\<And>r. P r = Q (end_time r, end_cum_cyc r)"
    for f :: "trange \<Rightarrow> int" and g P Q
  proof -
    have "map f (filter P xs) = map g (filter Q (map (\<lambda>r. (end_time r, end_cum_cyc r)) xs))" for xs
      by (induction xs) (simp_all add: that)
    then show ?thesis by (simp only: eq)
  qed
  note m = this
  have "first_time rs = first_time rs'" unfolding first_time_def
    by (rule arg_cong [of _ _ sql_min], rule m [of _ fst _ "\<lambda>x. 0 < fst x"]) simp_all
  moreover have "last_time rs = last_time rs'" unfolding last_time_def
    using m [of end_time fst "\<lambda>_. True" "\<lambda>_. True"] by simp
  moreover have "time_bounds a b rs = time_bounds a b rs'" for a b
    unfolding time_bounds_def using m [of end_cum_cyc snd "\<lambda>r. n < end_time r" "\<lambda>x. n < fst x" for n] by simp
  ultimately show ?thesis by (simp add: util_setup_def setup_start_def)
qed

lemma demo_session_setup:
  "util_setup f64 demo_util_config (timestamped_ranges demo_session_samples)
     = Inr [\<lparr>tb_ns = 30050, tb_cyc = Some 4\<rparr>, \<lparr>tb_ns = 45050, tb_cyc = Some 9\<rparr>]"
proof -
  have "map (\<lambda>r. (end_time r, end_cum_cyc r)) (timestamped_ranges demo_session_samples)
      = map (\<lambda>r. (end_time r, end_cum_cyc r)) demo_times"
    unfolding demo_session_ranges by (simp add: demo_times_def demo_range_def)
  then show ?thesis using time_bounds_cong demo_setup by metis
qed

lemma demo_session_spans: "\<exists>out. ipc_spans pick_first f32 2000 (timestamped_ranges demo_session_samples) = Inr out"
proof (rule first_engine.ipc_spans_total)
  show "ranges_ok 0 0 (timestamped_ranges demo_session_samples)"
    by (rule timestamped_ranges_ok) (simp_all add: samples_ok_def cycles_positive_def demo_session_samples_def)
  fix r assume "r \<in> set (timestamped_ranges demo_session_samples)"
  then have "(end_time r, end_cum_cyc r) \<in> set (map (\<lambda>r. (end_time r, end_cum_cyc r)) (timestamped_ranges demo_session_samples))"
    by auto
  then show "end_cum_cyc r + 2000 < 2 ^ 63 \<and> 0 \<le> end_time r \<and> end_time r < 2 ^ 64"
    unfolding demo_session_ranges by auto
qed simp

lemma demo_session_events:
  "\<exists>ev. events_prep pick_first 30050 45050 demo_no_calls None rs no_events = Some (None, ev) \<and> on_cpu_table ev = Some []"
proof -
  have "full_syscalls 30050 45050 demo_no_calls = Some []" by code_simp
  moreover have "event_switches pick_first demo_no_calls = []" by code_simp
  ultimately show ?thesis
    by (simp add: events_prep_returns on_cpu_syscalls_def range_starts_def in_view_context_switches_def)
qed

lemma demo_session:
  "\<exists>u. util_session pick_first True (fresh_util (Some demo_session_samples) (Some demo_no_calls) None)
       (notebook_calls demo_util_config) u \<and> on_cpu_table (event_db (database u)) = Some []
     \<and> self_clock u = Some demo_clock"
proof -
  obtain out where out: "ipc_spans pick_first f32 2000 (timestamped_ranges demo_session_samples) = Inr out"
    using demo_session_spans by blast
  obtain ev where ev: "events_prep pick_first 30050 45050 demo_no_calls None (timestamped_ranges demo_session_samples) no_events
      = Some (None, ev)" "on_cpu_table ev = Some []" using demo_session_events by blast
  let ?u = "pure_result pick_first demo_util_config demo_session_samples demo_no_calls None
      [\<lparr>tb_ns = 30050, tb_cyc = Some 4\<rparr>, \<lparr>tb_ns = 45050, tb_cyc = Some 9\<rparr>] out demo_clock ev"
  have "run_calls pick_first True (notebook_calls demo_util_config)
      (fresh_util (Some demo_session_samples) (Some demo_no_calls) None) = Some (None, ?u)"
    using out ev(1) by (intro notebook_runs [OF demo_session_setup _ demo_clock_of_f64])
      (simp_all add: demo_util_config_def demo_clock_def)
  from session_run [OF this util_session.start]
  have "util_session pick_first True (fresh_util (Some demo_session_samples) (Some demo_no_calls) None)
      (notebook_calls demo_util_config) ?u" by simp
  then show ?thesis using ev(2) by (intro exI [of _ ?u]) (simp add: pure_result_def Let_def)
qed

section \<open>Properties\<close>

text \<open>C10: Whatever is called in whatever order, errors included, the object and its database are
  what the log of the calls says: the ranges are those of the exported samples once \<open>setup\<close> has run
  before a \<open>close\<close>, and the bounds their middle 15000 ns; windows, spans and distribution are those of
  the last call that got far enough, with the window size and the threshold configured last before
  it; the clock is read from the bounds after the casts of the spans, and has a rate unless the
  bounds are one cycle; the event tables, the flag and the temporary table are made from that clock,
  and a failed assertion leaves the flag and the temporary table alone.\<close>

theorem session_state:
  assumes "util_session pick found (fresh_util S C E) ms u"
  shows "u = log_state pick found S C E ms"
  by (rule session_log [OF assms])

theorem session_state_witness:
  "\<exists>u. util_session pick_first True (fresh_util (Some demo_session_samples) (Some demo_no_calls) None)
         (notebook_calls demo_util_config @ [Configure (demo_util_config\<lparr>window_size_cyc := 7\<rparr>), Setup, Close, Time_series_prep]) u
     \<and> window_table (database u) = Some (sliding_window pick_first 2000 (timestamped_ranges demo_session_samples))
     \<and> map_option window_size_cyc (config u) = Some 7 \<and> \<not> conn_open u"
proof -
  let ?c = "Configure (demo_util_config\<lparr>window_size_cyc := 7\<rparr>)"
  let ?log = "notebook_calls demo_util_config @ [?c, Setup, Close, Time_series_prep]"
  obtain u where u: "util_session pick_first True (fresh_util (Some demo_session_samples) (Some demo_no_calls) None)
      (notebook_calls demo_util_config) u" using demo_session by blast
  obtain v where v: "util_session pick_first True (fresh_util (Some demo_session_samples) (Some demo_no_calls) None) ?log v"
    by (rule session_longer [OF u, of "[?c, Setup, Close, Time_series_prep]"]) simp_all
  have log: "before Time_series_prep ?log = [[Configure demo_util_config, Setup], notebook_calls demo_util_config @ [?c, Setup, Close]]"
    by (simp add: before_def notebook_calls_def upt_rec numeral_eq_Suc)
  have made: "before Setup [Configure demo_util_config, Setup] = [[Configure demo_util_config]]"
    by (simp add: before_def upt_rec numeral_eq_Suc)
  have "prep_input True (Some demo_session_samples) [Configure demo_util_config, Setup]
      = Some (demo_util_config, timestamped_ranges demo_session_samples)"
    by (simp add: log_prep_input live_def configured_def latest_def map_filter_simps log_ranges_def made)
  moreover have "prep_input True (Some demo_session_samples) (notebook_calls demo_util_config @ [?c, Setup, Close]) = None"
    by (simp add: log_prep_input live_def)
  ultimately have "log_windows pick_first True (Some demo_session_samples) ?log
      = Some (sliding_window pick_first 2000 (timestamped_ranges demo_session_samples))"
    unfolding log_windows_def log by (simp add: latest_def map_filter_simps demo_util_config_def)
  moreover have "map_option window_size_cyc (configured ?log) = Some 7"
    by (simp add: configured_def latest_def map_filter_simps notebook_calls_def)
  moreover have "\<not> live ?log" by (simp add: live_def)
  moreover note session_state [OF v]
  ultimately show ?thesis using v by (intro exI [of _ v] conjI) (simp_all add: log_state_def)
qed

text \<open>The on-CPU table exists only after \<open>configure\<close> and \<open>setup\<close>, then \<open>time_series_prep\<close>, then
  \<open>events_prep\<close>, in this order and before any \<open>close\<close>, whatever else has been called and whatever
  failed in between.\<close>

theorem events_need_order:
  assumes "util_session pick found (fresh_util S C E) ms u" and "on_cpu_table (event_db (database u)) \<noteq> None"
  shows "\<exists>xs ys zs k. ms = xs @ Time_series_prep # ys @ Events_prep # zs
    \<and> Setup \<in> set xs \<and> Configure k \<in> set xs \<and> Close \<notin> set (xs @ ys)"
proof -
  have "log_events pick found S C E ms \<noteq> no_events"
    using assms(2) unfolding session_log [OF assms(1)] by (auto simp: log_state_def no_events_def)
  then obtain pre zs where pre: "ms = pre @ Events_prep # zs" "live pre" "log_clock pick found S pre \<noteq> None"
    by (auto simp: log_events_def list_ex_iff before_iff split: if_splits)
  then obtain xs ys where xs: "pre = xs @ Time_series_prep # ys" "spans_made pick found S xs \<noteq> None"
    by (auto simp: log_clock_def clock_reached_def list_ex_iff before_iff split: if_splits)
  then obtain k rs where k: "configured xs = Some k" "log_ranges found S xs = Some rs"
    by (auto simp: spans_made_def bind_eq_Some_conv log_prep_input)
  have "Configure k \<in> set xs"
    using latest_SomeD [OF k(1) [unfolded configured_def]] by (auto split: util_call.splits)
  moreover have "Setup \<in> set xs"
    using k(2) by (auto simp: log_ranges_def list_ex_iff before_iff split: if_splits)
  ultimately show ?thesis using pre xs by (auto simp: live_def)
qed

theorem events_need_order_witness:
  "\<exists>xs ys zs k. notebook_calls demo_util_config = xs @ Time_series_prep # ys @ Events_prep # zs
    \<and> Setup \<in> set xs \<and> Configure k \<in> set xs \<and> Close \<notin> set (xs @ ys)"
proof -
  obtain u where "util_session pick_first True (fresh_util (Some demo_session_samples) (Some demo_no_calls) None)
      (notebook_calls demo_util_config) u" "on_cpu_table (event_db (database u)) \<noteq> None"
    using demo_session by auto
  then show ?thesis by (rule events_need_order)
qed

text \<open>The notebook's sequence \<open>configure\<close>, \<open>setup\<close>, \<open>time_series_prep\<close>, \<open>cdf_prep\<close>, \<open>events_prep\<close>
  runs to its end on an exported database exactly when the script file is found, the samples give
  two time bounds, the casts of \<open>ipc_spans\<close> and of the bounds succeed, calls were exported, and
  \<open>events_prep\<close> accepts the stretch; the database then holds what these five functions compute.\<close>

theorem notebook_runs_iff:
  "run_calls pick found (notebook_calls k) (fresh_util S C E) = Some (None, u) \<longleftrightarrow>
    (\<exists>s tb out ck T ev. found \<and> S = Some s \<and> C = Some T
       \<and> util_setup f64 k (timestamped_ranges s) = Inr tb
       \<and> ipc_spans pick f32 (window_size_cyc k) (timestamped_ranges s) = Inr out
       \<and> clock_of f64 tb = Inr ck
       \<and> events_prep pick (start_ns ck) (end_ns ck) T E (timestamped_ranges s) no_events = Some (None, ev)
       \<and> u = pure_result pick k s T E tb out ck ev)" (is "?run \<longleftrightarrow> ?pure")
proof
  assume ?run
  then show ?pure by (rule notebook_pure) blast
next
  assume ?pure
  then show ?run by (elim exE conjE) (simp add: notebook_runs)
qed

end
