(* ===== verification/Pipeline.thy ===== *)
theory Pipeline
  imports Traced_Calls Util_Props
begin

text \<open>
  Lemmas for the properties of the root theory: what \<open>SqlUtil.setup\<close> makes of an exported database,
  and which of the exporter's views the tables of \<open>events_prep\<close> touch.
\<close>

section \<open>setup on an exported database\<close>

lemma setup_ranges:
  assumes "conn_open u" and "db_samples (database u) = Some s"
  shows "timestamped (database (snd (run_setup True u))) = Some (timestamped_ranges s)"
  using assms
  by (auto simp: run_setup_def and_then_def execute_def require_def ranges_script_def create_time_bounds_def
      read_range_data_def bind_res_def split: sum.splits option.splits prod.splits)

text \<open>The last range carries the totals.\<close>

lemma ranges_totals:
  assumes "samples_ok samples"
  shows "length (timestamped_ranges samples) = length (ranges_t1 samples)"
    and "timestamped_ranges samples \<noteq> [] \<Longrightarrow>
      end_cum_cyc (last (timestamped_ranges samples)) = sum_list (map v_cyc_count (ranges_t1 samples))
      \<and> end_cum_insns (last (timestamped_ranges samples)) = sum_list (map v_insn_count (ranges_t1 samples))"
proof -
  let ?rs = "timestamped_ranges samples" and ?rows = "sort_key vid (ranges_t1 samples)"
  show len: "length ?rs = length (ranges_t1 samples)"
    by (simp add: length_timestamped_ranges)
  assume "?rs \<noteq> []"
  then have pos: "0 < length ?rs" and last: "last ?rs = ?rs ! (length ?rs - 1)"
    by (simp_all add: last_conv_nth)
  then have i: "length ?rs - 1 < length ?rs" and all: "take (Suc (length ?rs - 1)) ?rows = ?rows"
    using len by simp_all
  have "sum_list (map v_cyc_count ?rows) = sum_list (map v_cyc_count (ranges_t1 samples))"
    "sum_list (map v_insn_count ?rows) = sum_list (map v_insn_count (ranges_t1 samples))"
    by (rule sum_list_mset_cong, simp)+
  with timestamped_ranges_nth(5,6) [OF assms i] show "end_cum_cyc (last ?rs) = sum_list (map v_cyc_count (ranges_t1 samples))
      \<and> end_cum_insns (last ?rs) = sum_list (map v_insn_count (ranges_t1 samples))"
    by (simp only: last all)
qed

text \<open>The samples that carry a count, as perf passed them.\<close>

definition counted :: "row \<Rightarrow> bool" where
  "counted x \<longleftrightarrow> 0 < cell_int (x ! 22) \<or> 0 < cell_int (x ! 23)"

lemma ranges_t1_spec: "ranges_t1 (samples_spec evs) = map (sample_spec evs) (filter counted (tuples T_samples evs))"
proof -
  have "\<not> counted (ints (replicate 25 0))" by (simp add: counted_def ints_def cell_int_def)
  then show ?thesis
    by (simp add: ranges_t1_def samples_spec_def filter_map comp_def sample_spec_def counted_def [abs_def])
qed

definition counts_nonneg :: "perf_event list \<Rightarrow> bool" where
  "counts_nonneg evs \<longleftrightarrow> list_all (\<lambda>x. 0 \<le> cell_int (x ! 22) \<and> 0 \<le> cell_int (x ! 23)) (tuples T_samples evs)"

lemma exported_samples_ok:
  assumes "faithful conv" and "export can_open conv hp argv evs = Inr db" and "well_typed evs" and "counts_nonneg evs"
  shows "samples_ok (samples_spec evs)"
  using samples_input_exported(2) [OF assms(1-3)] assms(4)
  by (auto simp: samples_ok_def samples_spec_def sample_spec_def counts_nonneg_def list_all_iff ints_def cell_int_def)

lemma open_util_sel [simp]:
  "conn_open (open_util F db)" "db_samples (database (open_util F db)) = samples_input F db"
  "db_calls (database (open_util F db)) = calls_input F db" "db_errors (database (open_util F db)) = errors_input F db"
  by (simp_all add: open_util_def fresh_util_def)

section \<open>The exporter's views and the tables of events\_prep\<close>

lemma views_reading_switches:
  assumes "(n, v) \<in> set (view_statements hp cfg)" and "''context_switches'' \<in> set (relations v)"
  shows "n = ''context_switches_view''"
proof -
  have "own_optional (n, v)"
    using assms(1) views_own_optional view_statements_sub [of hp cfg] by (auto simp: list_all_iff)
  then show ?thesis using assms(2) by (simp add: own_optional_def optional_tables_def list_all_iff)
qed

lemma columns_of_replaced:
  "columns_of (replace_context_switches sws db) n
    = (if n = ''context_switches'' then Some (map cname event_switches_columns) else columns_of db n)"
  by (simp add: replace_context_switches_def columns_of_def split: option.split)

lemma replaced_binds:
  assumes "''context_switches'' \<notin> set (relations v)"
  shows "binds (replace_context_switches sws db) v \<longleftrightarrow> binds db v"
  by (rule binds_cong) (use assms in \<open>auto simp: columns_of_replaced\<close>)

lemma switches_view_broken: "\<not> binds (replace_context_switches sws db) context_switches_view"
  by (auto simp: binds_def view_resolves_def context_switches_view_def columns_of_replaced event_switches_columns_def
      col_def List.member_iff split: option.splits)

lemma exported_views:
  assumes "export can_open conv hp argv evs = Inr db" and "views db n = Some v"
  shows "binds db v" and "\<exists>cfg. (n, v) \<in> set (view_statements hp cfg)"
proof -
  obtain cfg s where s: "init_db hp cfg = Inr (schema_db hp cfg)" "trace_end conv s (schema_db hp cfg) = Inr db"
    using assms(1) by (auto simp: export_def bind_res_Inr_iff init_db_eq)
  show "binds db v" by (rule views_bind_at_end [OF s assms(2)])
  obtain mid where mid: "insert_all conv s (schema_db hp cfg) = Inr mid"
      "db = (hide (dropped_tables (empty_list s)) (dropped_views (empty_list s)) mid)\<lparr>is_open := False\<rparr>"
    using s(2) by (auto simp: trace_end_schema)
  have "views mid = map_of (view_statements hp cfg)"
    using mid(1) [unfolded insert_all_schema] by (simp add: schema_db_def)
  with assms(2) have "map_of (view_statements hp cfg) n = Some v" by (simp add: mid(2) split: if_splits)
  then show "\<exists>cfg. (n, v) \<in> set (view_statements hp cfg)" by (blast dest: map_of_SomeD)
qed

lemma switches_view_stated: "(''context_switches_view'', v) \<in> set (view_statements hp cfg) \<Longrightarrow> v = context_switches_view"
  by (auto simp: view_statements_def split: if_splits)

lemma demo_switches_view:
  assumes "export (\<lambda>_. False) demo_conv hp demo_argv demo_trace = Inr db"
  shows "views db ''context_switches_view'' = Some context_switches_view"
proof -
  obtain cfg s where s: "start_export (\<lambda>_. False) demo_argv = Inr cfg" "collect cfg demo_trace = Inr s"
      "\<forall>n. n \<notin> dropped_views (empty_list s) \<longrightarrow> views db n = map_of (view_statements hp cfg) n"
    using exported_tables [OF demo_conv_faithful assms] by metis
  have "cfg = demo_cfg True True False" using s(1) by (simp add: demo_argv_def demo_start)
  with s(2) have "s = demo_trace_collector" by (simp add: demo_trace_collected)
  then have "data_of T_context_switches s \<noteq> []" by (simp add: data_of.simps demo_trace_collector_def)
  then have "''context_switches_view'' \<notin> dropped_views (empty_list s)"
    using empty_list_name [of s T_context_switches]
    by (auto simp: dropped_views_def view_names_def dropped_tables_def only_if_def power_names_def split: if_splits)
  with s(3) show ?thesis by (simp add: view_statements_def)
qed

definition demo_functions :: sql_functions where
  "demo_functions = \<lparr>hex_text = str_int, ipc_value = (\<lambda>i j. of_int i / of_int j)\<rparr>"

end
