(* ===== verification/Notebook.thy ===== *)
theory Notebook
  imports Sql_Util
begin

text \<open>
  The notebook \<open>pt.ipynb\<close>: the data its cells compute before they hand it to matplotlib. The cells
  repeat the first steps of \<open>SqlUtil\<close> on Python integers (\<open>fetchall\<close>) instead of data frames, so
  NULL and division by zero raise there. The table \<open>syscall_calls\<close> comes from a script the
  repository does not contain; its rows are a parameter.
\<close>

section \<open>Cells 1 and 2\<close>

definition window_size :: int where
  "window_size = 250"

definition nb_time_bounds :: "trange list \<Rightarrow> time_bound list result" where
  "nb_time_bounds rs = (case (first_time rs, last_time rs) of
      (Some a, Some b) \<Rightarrow> (let s = midpoint f64 a b in Inr (time_bounds s (s + 15000) rs))
    | _ \<Rightarrow> Inl TypeError)"

definition nb_range_data :: "time_bound list \<Rightarrow> int option list" where
  "nb_range_data tb = map tb_cyc (nulls_last tb_cyc tb)"

text \<open>The second cell reads two scripts before it builds the sliding-window tables.\<close>

definition sql_files :: "string list" where
  "sql_files = [''sql/ovf_errors.sql'', ''sql/timestamped_ranges.sql'']"

text \<open>Its two statements are those of \<open>SqlUtil.time_series_prep\<close>, formatted with the constant window.\<close>

definition nb_sliding_window :: "(int option list \<Rightarrow> nat option) \<Rightarrow> trange list \<Rightarrow> window_row list" where
  "nb_sliding_window pick rs = sliding_window pick window_size rs"

definition nb_ipc_spans :: "(int option list \<Rightarrow> nat option) \<Rightarrow> trange list \<Rightarrow> ipc_span list result" where
  "nb_ipc_spans pick rs = ipc_spans pick f32 window_size rs"

definition nb_prepare ::
  "string list \<Rightarrow> (int option list \<Rightarrow> nat option) \<Rightarrow> trange list \<Rightarrow> (window_row list \<times> ipc_span list) result" where
  "nb_prepare files pick rs =
     (if ''sql/callstacks.sql'' \<notin> set files \<or> ''sql/cdf.sql'' \<notin> set files then Inl OSError
      else bind_res (nb_ipc_spans pick rs) (\<lambda>out. Inr (nb_sliding_window pick rs, out)))"

section \<open>Cell 3: the time series\<close>

record nb_clock =
  nb_start_ns :: int
  nb_start_cyc :: int
  nb_end_ns :: int
  nb_end_cyc :: int
  nb_rate :: rat

definition nb_clock_of :: "time_bound list \<Rightarrow> nb_clock result" where
  "nb_clock_of tb = (case nulls_last tb_cyc tb of
      [b, e] \<Rightarrow> (case (tb_cyc b, tb_cyc e) of
          (Some s, Some f) \<Rightarrow>
            if f = s then Inl ZeroDivisionError
            else Inr \<lparr>nb_start_ns = tb_ns b, nb_start_cyc = s, nb_end_ns = tb_ns e, nb_end_cyc = f,
                   nb_rate = f64 (f64 (of_int (tb_ns e - tb_ns b)) / f64 (of_int (f - s)))\<rparr>
        | _ \<Rightarrow> Inl TypeError)
    | _ \<Rightarrow> Inl ValueError)"

definition nb_duration_cyc_to_ns :: "(rat \<Rightarrow> rat) \<Rightarrow> nb_clock \<Rightarrow> rat \<Rightarrow> rat" where
  "nb_duration_cyc_to_ns fl k duration_cyc = fl (duration_cyc * nb_rate k)"

definition nb_time_cyc_to_ns :: "(rat \<Rightarrow> rat) \<Rightarrow> nb_clock \<Rightarrow> rat \<Rightarrow> rat" where
  "nb_time_cyc_to_ns fl k cyc =
     fl (fl (of_int (nb_start_ns k)) + nb_duration_cyc_to_ns fl k (fl (cyc - fl (of_int (nb_start_cyc k)))))"

record nb_range =
  r_ipc :: "rat option"
  r_cyc_count :: int
  r_start_ns :: "rat option"
  r_end_ns :: rat

definition range_line :: "(rat \<Rightarrow> rat) \<Rightarrow> nb_clock \<Rightarrow> trange \<Rightarrow> nb_range" where
  "range_line fl k r =
     \<lparr>r_ipc = real_div f32 (insn_count r) (cyc_count r), r_cyc_count = cyc_count r,
      r_start_ns = map_option (\<lambda>s. nb_time_cyc_to_ns fl k (of_int s)) (start_cum_cyc r),
      r_end_ns = nb_time_cyc_to_ns fl k (of_int (end_cum_cyc r))\<rparr>"

definition range_lines :: "(rat \<Rightarrow> rat) \<Rightarrow> nb_clock \<Rightarrow> trange list \<Rightarrow> nb_range list" where
  "range_lines fl k rs = map (range_line fl k)
     (sort_key end_cum_cyc (filter (\<lambda>r. nb_start_cyc k \<le> end_cum_cyc r \<and> end_cum_cyc r \<le> nb_end_cyc k) rs))"

definition long_range_lines :: "nb_range list \<Rightarrow> nb_range list" where
  "long_range_lines = filter (\<lambda>r. window_size < r_cyc_count r)"

definition span_data :: "nb_clock \<Rightarrow> ipc_span list \<Rightarrow> ipc_span list" where
  "span_data k spans = sort_key window_end_cum_cyc
     (filter (\<lambda>s. nb_start_cyc k \<le> window_end_cum_cyc s \<and> window_end_cum_cyc s \<le> nb_end_cyc k) spans)"

record rectangle =
  rect_x :: rat
  rect_y :: "rat option"
  rect_width :: rat
  rect_height :: "rat option"

definition rectangle_of :: "(rat \<Rightarrow> rat) \<Rightarrow> nb_clock \<Rightarrow> ipc_span \<Rightarrow> rectangle" where
  "rectangle_of fl k s =
     \<lparr>rect_x = nb_time_cyc_to_ns fl k (of_int (span_start_cyc s)), rect_y = conservative_ipc s,
      rect_width = nb_duration_cyc_to_ns fl k (of_int (span_width_cyc s)),
      rect_height = sql_minus f32 (optimistic_ipc s) (conservative_ipc s)\<rparr>"

definition rectangles :: "(rat \<Rightarrow> rat) \<Rightarrow> nb_clock \<Rightarrow> ipc_span list \<Rightarrow> rectangle list" where
  "rectangles fl k spans = map (rectangle_of fl k) (span_data k spans)"

section \<open>Cell 3: the events\<close>

record syscall_call =
  y_call_time :: "int option"
  y_return_time :: "int option"
  y_name :: "string option"

definition lstrip_underscore :: "string \<Rightarrow> string" where
  "lstrip_underscore = dropWhile (\<lambda>k. k = CHR ''_'')"

text \<open>\<open>d[label].append(x)\<close> on a \<open>defaultdict(list)\<close>: a dict keeps the order of first insertion.\<close>

fun dict_append :: "string \<Rightarrow> 'a \<Rightarrow> (string \<times> 'a list) list \<Rightarrow> (string \<times> 'a list) list" where
  "dict_append k x [] = [(k, [x])]"
| "dict_append k x ((j, ys) # dict) = (if j = k then (j, ys @ [x]) # dict else (j, ys) # dict_append k x dict)"

definition event_data :: "nb_clock \<Rightarrow> (syscall_call list \<Rightarrow> syscall_call list) \<Rightarrow> syscall_call list \<Rightarrow> syscall_call list" where
  "event_data k order_by_name rows = order_by_name
     (filter (\<lambda>r. sql_between (y_call_time r) (nb_start_ns k) (nb_end_ns k)
        \<or> sql_between (y_return_time r) (nb_start_ns k) (nb_end_ns k)) rows)"

type_synonym time_span = "int option \<times> int option"

fun group_events :: "syscall_call list \<Rightarrow> (string \<times> time_span list) list \<Rightarrow> (string \<times> time_span list) list result" where
  "group_events [] dict = Inr dict"
| "group_events (r # rs) dict = (case y_name r of
      None \<Rightarrow> Inl (AttributeError ''lstrip'')
    | Some n \<Rightarrow> group_events rs (dict_append (lstrip_underscore n) (y_call_time r, y_return_time r) dict))"

datatype artist =
    Axvspan (x_range: time_span) (facecolor: string) (hatch: string)
  | Axvline (x_at: "int option")

record legend =
  labels :: "string list"
  handles :: "artist list"
  drawn :: "artist list"
  span_type_count :: nat

definition hatches :: "string list" where
  "hatches = [''/'', [CHR 0x5C], ''x'']"

definition colors :: "string list" where
  "colors = [''orange'', ''green'', ''blue'', ''red'']"

text \<open>One label: every span is drawn, the first one is its handle.\<close>

definition draw_label :: "string \<Rightarrow> artist list \<Rightarrow> legend \<Rightarrow> legend" where
  "draw_label label arts g =
     \<lparr>labels = labels g @ [label], handles = handles g @ take 1 arts, drawn = drawn g @ arts,
      span_type_count = Suc (span_type_count g)\<rparr>"

definition spans_of :: "legend \<Rightarrow> time_span list \<Rightarrow> artist list" where
  "spans_of g spans = map (\<lambda>s. Axvspan s (colors ! (span_type_count g mod length colors))
      (hatches ! (span_type_count g mod length hatches))) spans"

definition draw_groups :: "(string \<times> time_span list) list \<Rightarrow> legend \<Rightarrow> legend" where
  "draw_groups dict g = fold (\<lambda>(label, spans) g. draw_label label (spans_of g spans) g) dict g"

definition in_error_view :: "nb_clock \<Rightarrow> error_range \<Rightarrow> bool" where
  "in_error_view k e \<longleftrightarrow>
     ((case (er_start_time e, er_end_time e) of
         (Some s, Some f) \<Rightarrow> s \<le> nb_start_ns k \<and> nb_end_ns k \<le> f | _ \<Rightarrow> False)
      \<or> sql_between (er_start_time e) (nb_start_ns k) (nb_end_ns k)
      \<or> sql_between (er_end_time e) (nb_start_ns k) (nb_end_ns k))"

definition draw_errors :: "nb_clock \<Rightarrow> error_range list \<Rightarrow> legend \<Rightarrow> legend" where
  "draw_errors k ers g = (let errors = nulls_last er_end_cum_cyc (filter (in_error_view k) ers) in
     if 0 < length errors
     then draw_label ''trace overflow'' (spans_of g (map (\<lambda>e. (er_start_time e, er_end_time e)) errors)) g
     else g)"

definition draw_switches :: "nb_clock \<Rightarrow> int option list \<Rightarrow> legend \<Rightarrow> legend" where
  "draw_switches k ts g =
     (let switches = nulls_last (\<lambda>t. t) (filter (\<lambda>t. sql_between t (nb_start_ns k) (nb_end_ns k)) ts) in
      if 0 < length switches then draw_label ''context switch'' (map Axvline switches) g else g)"

text \<open>
  The third plot. The tables of errors and context switches exist only if the exporter had rows for
  them (\<open>None\<close> otherwise), and the cell queries both without asking.
\<close>

definition event_plot ::
  "(int option list \<Rightarrow> nat option) \<Rightarrow> nb_clock \<Rightarrow> (syscall_call list \<Rightarrow> syscall_call list) \<Rightarrow> syscall_call list
     \<Rightarrow> error_row list option \<Rightarrow> int option list option \<Rightarrow> trange list \<Rightarrow> legend result" where
  "event_plot pick k order_by_name rows errors switch_times ranges =
     bind_res (group_events (event_data k order_by_name rows) []) (\<lambda>dict.
     (case errors of None \<Rightarrow> Inl (CatalogError ''auxtrace_errors'') | Some ae \<Rightarrow>
     (case switch_times of None \<Rightarrow> Inl (CatalogError ''context_switches_view'') | Some ts \<Rightarrow>
       Inr (draw_switches k ts (draw_errors k (errors_and_ranges pick ae ranges)
         (draw_groups dict \<lparr>labels = [], handles = [], drawn = [], span_type_count = 0\<rparr>))))))"

section \<open>Cell 4: the histogram of durations\<close>

fun top_of_cdf :: "cdf_row list \<Rightarrow> cdf_row list result" where
  "top_of_cdf [] = Inr []"
| "top_of_cdf (t # ts) = (case cdf t of
      None \<Rightarrow> Inl TypeError
    | Some p \<Rightarrow> bind_res (top_of_cdf ts) (\<lambda>rest. Inr (if f64 (95 / 100) < p then t # rest else rest)))"

text \<open>Unpacking no row at all is a \<open>ValueError\<close>.\<close>

definition min_cyc_count :: "cdf_row list \<Rightarrow> int result" where
  "min_cyc_count rows = bind_res (top_of_cdf rows) (\<lambda>top.
     case sql_min (map cdf_cyc_count top) of None \<Rightarrow> Inl ValueError | Some m \<Rightarrow> Inr m)"

definition insn_group :: "int \<Rightarrow> nat" where
  "insn_group i = (if i \<le> 35 then 0 else if i \<le> 100 then 1 else 2)"

record weight_row =
  w_cyc_count :: int
  weighted_insn_count_0 :: "rat option"
  weighted_insn_count_1 :: "rat option"
  weighted_insn_count_2 :: "rat option"

definition weight_of :: "(rat \<Rightarrow> rat) \<Rightarrow> cdf_sample list \<Rightarrow> int \<Rightarrow> nat \<Rightarrow> rat option" where
  "weight_of fl samples k grp =
     real_div fl (count_where (\<lambda>s. s_cyc_count s = k \<and> insn_group (s_insn_count s) = grp) samples * k)
       (sum_list (map s_cyc_count samples))"

definition weight_rows :: "(rat \<Rightarrow> rat) \<Rightarrow> cdf_sample list \<Rightarrow> int \<Rightarrow> weight_row list" where
  "weight_rows fl samples m =
     map (\<lambda>k. \<lparr>w_cyc_count = k, weighted_insn_count_0 = weight_of fl samples k 0,
         weighted_insn_count_1 = weight_of fl samples k 1, weighted_insn_count_2 = weight_of fl samples k 2\<rparr>)
       (sort (remdups (filter (\<lambda>k. m \<le> k) (map s_cyc_count samples))))"

section \<open>Cell 5: latencies\<close>

record latency_row =
  l_return_time :: "int option"
  lag_return_time :: "int option"
  latency_ns :: "int option"

definition latencies :: "syscall_call list \<Rightarrow> latency_row list" where
  "latencies rows =
     (let rs = nulls_last y_return_time (filter (\<lambda>r. y_name r = Some ''__x64_sys_recvfrom'') rows) in
      filter (\<lambda>r. lag_return_time r \<noteq> None)
        (map2 (\<lambda>p r. \<lparr>l_return_time = y_return_time r, lag_return_time = Option.bind p (\<lambda>x. x),
            latency_ns = (case (y_return_time r, p) of (Some a, Some (Some b)) \<Rightarrow> Some (a - b) | _ \<Rightarrow> None)\<rparr>)
          (lag1 y_return_time rs) rs))"

definition latency_bins :: "latency_row list \<Rightarrow> (rat \<times> rat) option" where
  "latency_bins rows = (let ls = List.map_filter latency_ns rows in
     case (sql_min ls, sql_max ls) of
       (Some a, Some b) \<Rightarrow> Some (f64 (of_int a * f64 (99 / 100)), f64 (of_int b * f64 (101 / 100)))
     | _ \<Rightarrow> None)"

end
