(* ===== verification/Plot_Calls.thy ===== *)
theory Plot_Calls
  imports Notebook
begin

text \<open>
  What the notebook \<open>pt.ipynb\<close> draws. A plotting cell is the list of calls it makes to matplotlib,
  in order, and the error it stops with, if any: the calls made before an error have been made.
  What matplotlib does with a call is not modelled. Its arguments are: data frames as lists of
  rows, a NULL as \<open>None\<close>.
\<close>

section \<open>Calls\<close>

datatype axes = Ax1 | Ax2 | Ax3

text \<open>Bins are evenly spaced on a logarithmic scale: the two ends and the number of edges.\<close>

type_synonym log_bins = "rat \<times> rat \<times> nat"

datatype drawing =
    Curve "(rat option \<times> rat option) list" string
  | Segments "(rat option \<times> rat option \<times> rat option) list" "(string \<times> string) option"
  | Boxes "(rat option \<times> rat option \<times> rat option \<times> rat option) list" rat string
  | Swatch rat string string
  | Event artist
  | Log_curve "(rat \<times> rat option) list"
  | Histogram "(rat option \<times> rat option) list" "log_bins option" "string option" bool

datatype plot_call =
    Close_figure
  | Subplots nat bool
  | Draw axes drawing
  | Show_legend axes "(drawing list \<times> string list option) option"
  | Title axes string
  | Xlabel axes string
  | Ylabel axes string
  | No_yticks axes
  | Log_xscale axes

type_synonym 'a plotting = "plot_call list \<times> 'a result"

definition then_plot :: "'a plotting \<Rightarrow> ('a \<Rightarrow> 'b plotting) \<Rightarrow> 'b plotting" where
  "then_plot m f = (case m of
      (cs, Inl e) \<Rightarrow> (cs, Inl e)
    | (cs, Inr x) \<Rightarrow> (case f x of (ds, r) \<Rightarrow> (cs @ ds, r)))"

definition draws :: "plot_call list \<Rightarrow> unit plotting" where
  "draws cs = (cs, Inr ())"

definition query :: "'a result \<Rightarrow> 'a plotting" where
  "query r = ([], r)"

lemma then_plot_draws [simp]: "then_plot (draws cs) f = (cs @ fst (f ()), snd (f ()))"
  by (simp add: then_plot_def draws_def split_def)

lemma then_plot_query [simp]:
  "then_plot (query (Inl e)) f = ([], Inl e)"
  "then_plot (query (Inr x)) f = f x"
  by (simp_all add: then_plot_def query_def)

lemma snd_then_plot: "snd (then_plot m f) = bind_res (snd m) (\<lambda>x. snd (f x))"
  by (cases m; cases "snd m") (auto simp: then_plot_def split_def)

lemma draws_snd [simp]: "snd (draws cs) = Inr ()" and query_snd [simp]: "snd (query r) = r"
  by (simp_all add: draws_def query_def)

definition events :: "artist list \<Rightarrow> plot_call list" where
  "events = map (\<lambda>a. Draw Ax3 (Event a))"

section \<open>Cell 3\<close>

definition nb_sample_plot :: "nb_clock \<Rightarrow> trange list \<Rightarrow> plot_call list" where
  "nb_sample_plot k rs =
     [Close_figure, Subplots 3 True,
      Draw Ax1 (Segments (map (\<lambda>r. (r_ipc r, r_start_ns r, Some (r_end_ns r))) (range_lines f64 k rs)) None),
      Title Ax1 ''Individual timestamped samples'', Ylabel Ax1 ''IPC'']"

definition nb_curve :: "nb_clock \<Rightarrow> ipc_span list \<Rightarrow> drawing" where
  "nb_curve k spans = Curve (map (\<lambda>s. (Some (nb_time_cyc_to_ns f64 k (of_int (window_end_cum_cyc s))), Some (linear_ipc_or_default s)))
     (span_data k spans)) ''interpolated ipc''"

definition error_boxes :: "(rat option \<times> rat option \<times> rat option \<times> rat option) list \<Rightarrow> drawing" where
  "error_boxes bs = Boxes bs (1 / 2) ''tab:cyan''"

definition proxy_patch :: drawing where
  "proxy_patch = Swatch (1 / 2) ''tab:cyan'' ''ipc error bound''"

definition nb_long_ranges :: "nb_clock \<Rightarrow> trange list \<Rightarrow> drawing" where
  "nb_long_ranges k rs =
     Segments (map (\<lambda>r. (r_ipc r, r_start_ns r, Some (r_end_ns r))) (long_range_lines (range_lines f64 k rs)))
       (Some (''r'', ''ranges > '' @ str_int window_size))"

definition nb_average_plot :: "nb_clock \<Rightarrow> trange list \<Rightarrow> ipc_span list \<Rightarrow> plot_call list" where
  "nb_average_plot k rs spans =
     [Draw Ax2 (nb_curve k spans),
      Draw Ax2 (error_boxes (map (\<lambda>b. (Some (rect_x b), rect_y b, Some (rect_width b), rect_height b)) (rectangles f64 k spans))),
      Draw Ax2 (nb_long_ranges k rs),
      Title Ax2 (''Rolling average (window='' @ str_int window_size @ '' cycles)''), Ylabel Ax2 ''IPC'',
      Show_legend Ax2 (Some ([nb_curve k spans, nb_long_ranges k rs, proxy_patch], None))]"

definition event_axes :: "legend \<Rightarrow> plot_call list" where
  "event_axes g = [Show_legend Ax3 (Some (map Event (handles g), Some (labels g))), No_yticks Ax3,
     Title Ax3 ''syscall events'', Xlabel Ax3 ''ns since host boot'']"

definition no_legend :: legend where
  "no_legend = \<lparr>labels = [], handles = [], drawn = [], span_type_count = 0\<rparr>"

definition nb_event_plot ::
  "(int option list \<Rightarrow> nat option) \<Rightarrow> nb_clock \<Rightarrow> (syscall_call list \<Rightarrow> syscall_call list) \<Rightarrow> syscall_call list
     \<Rightarrow> error_row list option \<Rightarrow> int option list option \<Rightarrow> trange list \<Rightarrow> unit plotting" where
  "nb_event_plot pick k order_by_name rows errors switch_times ranges =
     then_plot (query (group_events (event_data k order_by_name rows) [])) (\<lambda>dict.
       let g1 = draw_groups dict no_legend in
       case errors of None \<Rightarrow> (events (drawn g1), Inl (CatalogError ''auxtrace_errors'')) | Some ae \<Rightarrow>
       (let g2 = draw_errors k (errors_and_ranges pick ae ranges) g1 in
        case switch_times of None \<Rightarrow> (events (drawn g2), Inl (CatalogError ''context_switches_view'')) | Some ts \<Rightarrow>
        (let g3 = draw_switches k ts g2 in draws (events (drawn g3) @ event_axes g3))))"

definition nb_time_series ::
  "(int option list \<Rightarrow> nat option) \<Rightarrow> time_bound list \<Rightarrow> trange list \<Rightarrow> ipc_span list
     \<Rightarrow> (syscall_call list \<Rightarrow> syscall_call list) \<Rightarrow> syscall_call list
     \<Rightarrow> error_row list option \<Rightarrow> int option list option \<Rightarrow> unit plotting" where
  "nb_time_series pick tb rs spans order_by_name rows errors switch_times =
     then_plot (query (nb_clock_of tb)) (\<lambda>k.
     then_plot (draws (nb_sample_plot k rs)) (\<lambda>_.
     then_plot (draws (nb_average_plot k rs spans)) (\<lambda>_.
     nb_event_plot pick k order_by_name rows errors switch_times rs)))"

section \<open>Cell 4\<close>

definition cdf_axes :: "(rat \<times> rat option) list \<Rightarrow> (rat \<times> rat option) list \<Rightarrow> plot_call list" where
  "cdf_axes ps ws =
     [Close_figure, Subplots 3 True, Draw Ax1 (Log_curve ps), Title Ax1 ''CDF of sample range durations (cycles)'',
      Draw Ax2 (Log_curve ws), Title Ax2 ''CDF, weighted by duration'']"

definition weight_axes :: "weight_row list \<Rightarrow> log_bins \<Rightarrow> plot_call list" where
  "weight_axes rows bins =
     map (\<lambda>(label, w). Draw Ax3 (Histogram (map (\<lambda>r. (Some (of_int (w_cyc_count r)), w r)) rows) (Some bins) (Some label) False))
       [(''35'', weighted_insn_count_0), (''100'', weighted_insn_count_1), (''>100'', weighted_insn_count_2)]
     @ [Show_legend Ax3 None, Title Ax3 ''Perc. time in samples by duration (cycles) and # instructions'',
        Ylabel Ax3 ''% time'', Xlabel Ax3 ''cycles'']"

definition nb_cdf_plots :: "cdf_row list \<Rightarrow> cdf_sample list \<Rightarrow> unit plotting" where
  "nb_cdf_plots rows samples =
     then_plot (query (top_of_cdf rows)) (\<lambda>top.
     then_plot (query (min_cyc_count rows)) (\<lambda>m.
     draws (cdf_axes (map (\<lambda>t. (of_int (cdf_cyc_count t), cdf t)) top)
              (map (\<lambda>t. (of_int (cdf_cyc_count t), weighted_cdf t)) top)
            @ weight_axes (weight_rows f32 samples m)
                (of_int m, of_int (Max (set (map cdf_cyc_count top))), 30))))"

section \<open>Cell 5\<close>

definition nb_latency_plot :: "syscall_call list \<Rightarrow> unit plotting" where
  "nb_latency_plot rows =
     draws [Close_figure, Subplots 1 False, Log_xscale Ax1,
       Draw Ax1 (Histogram (map (\<lambda>r. (map_option of_int (latency_ns r), None)) (latencies rows))
         (map_option (\<lambda>(a, b). (a, b, 50)) (latency_bins (latencies rows))) None True),
       Title Ax1 ''log-log histogram of iterations.  Read syscall return-to-return'',
       Xlabel Ax1 ''duration (ns)'', Ylabel Ax1 ''frequency'']"

section \<open>Lemmas\<close>

text \<open>The third plot draws what \<open>event_plot\<close> returns, and fails exactly where it does.\<close>

lemma nb_event_plot_eq:
  "nb_event_plot pick k order_by_name rows errors switch_times ranges =
     (case event_plot pick k order_by_name rows errors switch_times ranges of
        Inr g \<Rightarrow> draws (events (drawn g) @ event_axes g)
      | Inl e \<Rightarrow> (fst (nb_event_plot pick k order_by_name rows errors switch_times ranges), Inl e))"
proof (cases "group_events (event_data k order_by_name rows) []")
  case (Inr dict)
  then show ?thesis
    by (cases errors; cases switch_times) (simp_all add: event_plot_def nb_event_plot_def Let_def no_legend_def)
qed (simp add: event_plot_def nb_event_plot_def)

end
