(* ===== verification/Timeline.thy ===== *)
theory Timeline
  imports Plot_Calls
begin

text \<open>
  The plotting cells of \<open>pt.ipy\<close>, which work on a \<open>SqlUtil\<close> object: the time series with the events
  below it, and the distributions. \<open>conn\<close> is the object; a query needs an open connection and its
  tables, and an attribute that no method has set yet raises. Cycle counts are below 2^53, where
  the data frame's doubles are exact.
\<close>

section \<open>Reading\<close>

definition attribute :: "string \<Rightarrow> 'a option \<Rightarrow> 'a result" where
  "attribute name x = (case x of None \<Rightarrow> Inl (AttributeError name) | Some v \<Rightarrow> Inr v)"

definition util_query :: "sql_util \<Rightarrow> (util_db \<Rightarrow> 'a result) \<Rightarrow> 'a result" where
  "util_query u q = (if conn_open u then q (database u) else Inl ConnectionClosed)"

text \<open>\<open>WHERE key BETWEEN conn.start_cyc AND conn.end_cyc ORDER BY key\<close>; a missing cycle is formatted
  as \<open>nan\<close>.\<close>

definition in_cycles :: "clock \<Rightarrow> ('r \<Rightarrow> int) \<Rightarrow> 'r list \<Rightarrow> 'r list result" where
  "in_cycles c key rows = (case (start_cyc c, end_cyc c) of
      (Some a, Some b) \<Rightarrow> Inr (sort_key key (filter (\<lambda>r. a \<le> key r \<and> key r \<le> b) rows))
    | _ \<Rightarrow> Inl (BinderError ''nan''))"

definition range_data :: "sql_util \<Rightarrow> clock \<Rightarrow> trange list result" where
  "range_data u c = util_query u (\<lambda>d. require ''timestamped_ranges'' (timestamped d) (in_cycles c end_cum_cyc))"

definition util_span_data :: "sql_util \<Rightarrow> clock \<Rightarrow> ipc_span list result" where
  "util_span_data u c = util_query u (\<lambda>d. require ''ipc_spans'' (spans_table d) (in_cycles c window_end_cum_cyc))"

section \<open>Plots 1 and 2\<close>

definition segment_of :: "clock \<Rightarrow> trange \<Rightarrow> rat option \<times> rat option \<times> rat option" where
  "segment_of c r = (real_div f32 (insn_count r) (cyc_count r),
     Option.bind (start_cum_cyc r) (time_cyc_to_ns f64 c), time_cyc_to_ns f64 c (end_cum_cyc r))"

definition sample_plot :: "clock \<Rightarrow> trange list \<Rightarrow> plot_call list" where
  "sample_plot c rs = [Draw Ax1 (Segments (map (segment_of c) rs) None),
     Title Ax1 ''Individual timestamped samples'', Ylabel Ax1 ''IPC'']"

definition curve :: "clock \<Rightarrow> ipc_span list \<Rightarrow> drawing" where
  "curve c spans = Curve (map (\<lambda>s. (time_cyc_to_ns f64 c (window_end_cum_cyc s), Some (linear_ipc_or_default s))) spans)
     ''interpolated ipc''"

definition box_of :: "clock \<Rightarrow> ipc_span \<Rightarrow> rat option \<times> rat option \<times> rat option \<times> rat option" where
  "box_of c s = (time_cyc_to_ns f64 c (span_start_cyc s), conservative_ipc s,
     duration_cyc_to_ns f64 c (span_width_cyc s), sql_minus f32 (optimistic_ipc s) (conservative_ipc s))"

definition long_ranges :: "clock \<Rightarrow> int \<Rightarrow> trange list \<Rightarrow> drawing" where
  "long_ranges c limit rs = Segments (map (segment_of c) (filter (\<lambda>r. limit < cyc_count r) rs))
     (Some (''r'', ''ranges > '' @ str_int limit))"

text \<open>Comparing a column with the \<open>None\<close> of an unconfigured object is a \<open>TypeError\<close>.\<close>

definition average_plot :: "sql_util \<Rightarrow> clock \<Rightarrow> trange list \<Rightarrow> ipc_span list \<Rightarrow> unit plotting" where
  "average_plot u c rs spans =
     then_plot (draws [Draw Ax2 (curve c spans), Draw Ax2 (error_boxes (map (box_of c) spans))]) (\<lambda>_.
     case config u of None \<Rightarrow> query (Inl TypeError) | Some k \<Rightarrow>
       (let long = long_ranges c (long_sample_limit_cyc k) rs in
        draws [Draw Ax2 long,
          Title Ax2 (''Rolling average (window='' @ str_int (window_size_cyc k) @ '' cycles)''), Ylabel Ax2 ''IPC'',
          Show_legend Ax2 (Some ([curve c spans, long, proxy_patch], None))]))"

section \<open>Plot 3: the timeline of events\<close>

definition on_cpu_event :: "on_cpu_row \<Rightarrow> syscall_call" where
  "on_cpu_event r = \<lparr>y_call_time = starts_time r, y_return_time = ends_time r,
     y_name = (case starts_name r of None \<Rightarrow> ends_name r | Some n \<Rightarrow> Some n)\<rparr>"

definition on_cpu_in_view :: "clock \<Rightarrow> on_cpu_row \<Rightarrow> bool" where
  "on_cpu_in_view c r \<longleftrightarrow> sql_between (starts_time r) (start_ns c) (end_ns c) \<or> sql_between (ends_time r) (start_ns c) (end_ns c)"

definition on_cpu_data :: "sql_util \<Rightarrow> clock \<Rightarrow> (syscall_call list \<Rightarrow> syscall_call list) \<Rightarrow> syscall_call list result" where
  "on_cpu_data u c order_by_name = util_query u (\<lambda>d. require ''on_cpu_syscalls'' (on_cpu_table (event_db d))
     (\<lambda>rows. Inr (order_by_name (map on_cpu_event (filter (on_cpu_in_view c) rows)))))"

definition switch_times :: "sql_util \<Rightarrow> clock \<Rightarrow> int option list result" where
  "switch_times u c = util_query u (\<lambda>d. require ''context_switches'' (context_switches_table (event_db d))
     (\<lambda>sws. Inr (filter (\<lambda>t. sql_between t (start_ns c) (end_ns c)) (map (\<lambda>w. Option.bind (smio w) k_call_time) sws))))"

definition overflow_in_view :: "clock \<Rightarrow> error_range \<Rightarrow> bool" where
  "overflow_in_view c e \<longleftrightarrow>
     (case (er_start_time e, er_end_time e) of
        (Some s, Some f) \<Rightarrow> s \<le> start_ns c \<and> end_ns c \<le> f | _ \<Rightarrow> False)
     \<or> sql_between (er_start_time e) (start_ns c) (end_ns c)
     \<or> sql_between (er_end_time e) (start_ns c) (end_ns c)"

definition overflows :: "sql_util \<Rightarrow> clock \<Rightarrow> error_range list result" where
  "overflows u c = bind_res (attribute ''have_errors_table'' (have_errors_table (event_db (database u)))) (\<lambda>have.
     if have then util_query u (\<lambda>d. require ''errors_and_ranges'' (errors_temp (event_db d))
       (\<lambda>ers. Inr (nulls_last er_end_cum_cyc (filter (overflow_in_view c) ers))))
     else Inr [])"

text \<open>The label of the switches is appended whether or not there are any; the colour advances once
  after the overflows, drawn or not.\<close>

definition draw_switch_lines :: "int option list \<Rightarrow> legend \<Rightarrow> legend" where
  "draw_switch_lines ts g = g\<lparr>labels := labels g @ [''context switches''],
     handles := handles g @ take 1 (map Axvline ts), drawn := drawn g @ map Axvline ts\<rparr>"

definition overflow_spans :: "legend \<Rightarrow> error_range list \<Rightarrow> artist list" where
  "overflow_spans g ers = spans_of g (map (\<lambda>e. (er_start_time e, er_end_time e)) ers)"

definition draw_overflows :: "error_range list \<Rightarrow> legend \<Rightarrow> legend" where
  "draw_overflows ers g =
     (if 0 < length ers then draw_label ''trace overflow'' (overflow_spans g ers) g
      else g\<lparr>span_type_count := Suc (span_type_count g)\<rparr>)"

definition timeline_plot :: "sql_util \<Rightarrow> clock \<Rightarrow> (syscall_call list \<Rightarrow> syscall_call list) \<Rightarrow> legend plotting" where
  "timeline_plot u c order_by_name =
     then_plot (query (on_cpu_data u c order_by_name)) (\<lambda>rows.
     then_plot (query (group_events rows [])) (\<lambda>dict.
     let g1 = draw_groups dict no_legend in
     then_plot (draws (events (drawn g1))) (\<lambda>_.
     then_plot (query (switch_times u c)) (\<lambda>ts.
     let g2 = draw_switch_lines ts g1 in
     then_plot (draws (events (map Axvline ts))) (\<lambda>_.
     then_plot (query (overflows u c)) (\<lambda>ers.
     let g3 = draw_overflows ers g2 in
     then_plot (draws (events (overflow_spans g2 ers) @ event_axes g3)) (\<lambda>_. query (Inr g3))))))))"

definition time_series_cell :: "sql_util \<Rightarrow> (syscall_call list \<Rightarrow> syscall_call list) \<Rightarrow> legend plotting" where
  "time_series_cell u order_by_name =
     then_plot (draws [Close_figure, Subplots 3 True]) (\<lambda>_.
     then_plot (query (attribute ''start_cyc'' (self_clock u))) (\<lambda>c.
     then_plot (query (range_data u c)) (\<lambda>rs.
     then_plot (query (attribute ''ns_rate'' (if has_rate u then Some () else None))) (\<lambda>_.
     then_plot (draws (sample_plot c rs)) (\<lambda>_.
     then_plot (query (util_span_data u c)) (\<lambda>spans.
     then_plot (average_plot u c rs spans) (\<lambda>_.
     timeline_plot u c order_by_name)))))))"

section \<open>The distributions\<close>

text \<open>
  The rows whose \<open>cdf\<close> exceeds 0.95, compared in single precision; a NULL does not. The least
  duration of no row is formatted as \<open>nan\<close>. The view \<open>samples_for_cdf\<close> is read again.
\<close>

definition cdf_top :: "cdf_row list \<Rightarrow> cdf_row list" where
  "cdf_top = filter (\<lambda>t. case cdf t of None \<Rightarrow> False | Some p \<Rightarrow> f32 (95 / 100) < p)"

definition cdf_samples :: "sql_util \<Rightarrow> cdf_row list \<Rightarrow> cdf_sample list result" where
  "cdf_samples u rows = util_query u (\<lambda>d.
     require ''samples_for_cdf'' (cdf_view d) (\<lambda>thr.
     require ''timestamped_ranges'' (timestamped d) (\<lambda>rs.
       if rows = [] then Inl (BinderError ''nan'') else Inr (samples_for_cdf f32 thr rs))))"

definition cdf_cell :: "sql_util \<Rightarrow> unit plotting" where
  "cdf_cell u =
     then_plot (query (util_query u (\<lambda>d. require ''range_cdf'' (cdf_table d) Inr))) (\<lambda>rows.
     let tops = cdf_top rows; ks = set (map cdf_cyc_count tops) in
     then_plot (draws (cdf_axes (map (\<lambda>t. (of_int (cdf_cyc_count t), cdf t)) tops)
       (map (\<lambda>t. (of_int (cdf_cyc_count t), weighted_cdf t)) tops))) (\<lambda>_.
     then_plot (query (cdf_samples u tops)) (\<lambda>samples.
     draws (weight_axes (weight_rows f32 samples (Min ks)) (of_int (Min ks), of_int (Max ks), 30)))))"

end
