(* ===== verification/Notebook_Props.thy ===== *)
theory Notebook_Props
  imports Notebook Window_Props
begin

text \<open>
  What the notebook's plots show: the legend, the grouping of events, which overflows are drawn, the
  rectangles of the error band, the weights of the histogram and the latencies.
\<close>

section \<open>Lemmas\<close>

lemma dict_append_keys:
  "map fst (dict_append k x dict) = (if k \<in> fst ` set dict then map fst dict else map fst dict @ [k])"
  by (induction k x dict rule: dict_append.induct) auto

definition dict_get :: "(string \<times> 'a list) list \<Rightarrow> string \<Rightarrow> 'a list" where
  "dict_get dict k = (case map_of dict k of None \<Rightarrow> [] | Some xs \<Rightarrow> xs)"

lemma dict_get_append: "dict_get (dict_append k x dict) j = (if j = k then dict_get dict k @ [x] else dict_get dict j)"
  unfolding dict_get_def by (induction k x dict rule: dict_append.induct) auto

definition stripped :: "syscall_call \<Rightarrow> string option" where
  "stripped r = map_option lstrip_underscore (y_name r)"

definition times_of :: "syscall_call \<Rightarrow> time_span" where
  "times_of r = (y_call_time r, y_return_time r)"

lemma group_events_spec:
  "group_events rs dict = Inr dict' \<Longrightarrow> distinct (map fst dict) \<Longrightarrow> \<forall>p\<in>set dict. snd p \<noteq> [] \<Longrightarrow>
     distinct (map fst dict') \<and> (\<forall>p\<in>set dict'. snd p \<noteq> [])
     \<and> (\<forall>l. dict_get dict' l = dict_get dict l @ map times_of (filter (\<lambda>r. stripped r = Some l) rs))
     \<and> (\<Sum>p\<leftarrow>dict'. length (snd p)) = (\<Sum>p\<leftarrow>dict. length (snd p)) + length rs"
proof (induction rs arbitrary: dict)
  case Nil
  then show ?case by simp
next
  case (Cons r rs)
  then obtain n where n: "y_name r = Some n"
    "group_events rs (dict_append (lstrip_underscore n) (times_of r) dict) = Inr dict'"
    by (auto simp: times_of_def split: option.splits)
  let ?d = "dict_append (lstrip_underscore n) (times_of r) dict"
  have "distinct (map fst ?d)" using Cons.prems(2) by (auto simp: dict_append_keys)
  moreover have "\<forall>p\<in>set ?d. snd p \<noteq> []" using Cons.prems(3)
    by (induction "lstrip_underscore n" "times_of r" dict rule: dict_append.induct) auto
  moreover have "(\<Sum>p\<leftarrow>?d. length (snd p)) = Suc (\<Sum>p\<leftarrow>dict. length (snd p))"
    by (induction "lstrip_underscore n" "times_of r" dict rule: dict_append.induct) auto
  ultimately show ?case
    using Cons.IH [OF n(2)] n(1) by (auto simp: dict_get_append stripped_def)
qed

lemma group_events_total:
  "group_events rs [] = Inr dict \<Longrightarrow> (\<forall>p\<in>set dict. snd p \<noteq> []) \<and> (\<Sum>p\<leftarrow>dict. length (snd p)) = length rs"
  using group_events_spec [of rs "[]" dict] by simp

text \<open>A legend with one handle per label.\<close>

definition legend_ok :: "legend \<Rightarrow> bool" where
  "legend_ok g \<longleftrightarrow> length (handles g) = length (labels g) \<and> set (handles g) \<subseteq> set (drawn g)
     \<and> span_type_count g = length (labels g)"

lemma draw_label_ok: "legend_ok g \<Longrightarrow> arts \<noteq> [] \<Longrightarrow> legend_ok (draw_label l arts g)"
  by (cases arts) (auto simp: legend_ok_def draw_label_def)

lemma draw_groups_spec:
  "legend_ok g \<Longrightarrow> \<forall>p\<in>set dict. snd p \<noteq> [] \<Longrightarrow> legend_ok (draw_groups dict g)
     \<and> labels (draw_groups dict g) = labels g @ map fst dict
     \<and> length (drawn (draw_groups dict g)) = length (drawn g) + (\<Sum>p\<leftarrow>dict. length (snd p))"
proof (induction dict arbitrary: g)
  case Nil
  then show ?case by (simp add: draw_groups_def)
next
  case (Cons p dict)
  obtain l spans where p: "p = (l, spans)" by (cases p)
  let ?g = "draw_label l (spans_of g spans) g"
  have "legend_ok ?g" using Cons.prems p by (intro draw_label_ok) (auto simp: spans_of_def)
  moreover have "draw_groups (p # dict) g = draw_groups dict ?g" by (simp add: draw_groups_def p)
  ultimately show ?case using Cons by (simp add: p draw_label_def spans_of_def)
qed

lemma length_draw_label [simp]: "length (drawn (draw_label l arts g)) = length (drawn g) + length arts"
  by (simp add: draw_label_def)

lemma length_spans_of [simp]: "length (spans_of g spans) = length spans"
  by (simp add: spans_of_def)

lemma length_nulls_last [simp]: "length (nulls_last f xs) = length xs"
  by (induction xs) (auto simp: nulls_last_def)

lemma nulls_last_empty: "nulls_last f xs = [] \<longleftrightarrow> xs = []"
  by (metis length_0_conv length_nulls_last)

lemma draw_errors_ok:
  assumes "legend_ok g"
  shows "legend_ok (draw_errors k ers g)
    \<and> length (drawn (draw_errors k ers g)) = length (drawn g) + length (filter (in_error_view k) ers)"
proof (cases "filter (in_error_view k) ers = []")
  case False
  let ?es = "nulls_last er_end_cum_cyc (filter (in_error_view k) ers)"
  have len: "length ?es = length (filter (in_error_view k) ers)" by (rule length_nulls_last)
  with False have "spans_of g (map (\<lambda>e. (er_start_time e, er_end_time e)) ?es) \<noteq> []"
    by (metis length_0_conv length_map length_spans_of)
  from draw_label_ok [OF assms this] False len show ?thesis by (simp add: draw_errors_def Let_def nulls_last_empty)
qed (simp add: draw_errors_def nulls_last_def assms)

lemma draw_switches_ok:
  assumes "legend_ok g"
  shows "legend_ok (draw_switches k ts g) \<and> length (drawn (draw_switches k ts g)) = length (drawn g)
    + length (filter (\<lambda>t. sql_between t (nb_start_ns k) (nb_end_ns k)) ts)"
proof (cases "filter (\<lambda>t. sql_between t (nb_start_ns k) (nb_end_ns k)) ts = []")
  case False
  let ?ts = "nulls_last (\<lambda>t. t) (filter (\<lambda>t. sql_between t (nb_start_ns k) (nb_end_ns k)) ts)"
  have len: "length ?ts = length (filter (\<lambda>t. sql_between t (nb_start_ns k) (nb_end_ns k)) ts)"
    by (rule length_nulls_last)
  with False have "map Axvline ?ts \<noteq> []" by (metis length_0_conv length_map)
  from draw_label_ok [OF assms this] False len show ?thesis by (simp add: draw_switches_def Let_def nulls_last_empty)
qed (simp add: draw_switches_def nulls_last_def assms)

text \<open>Where an artist is drawn: over a stretch of time or at an instant.\<close>

definition place :: "artist \<Rightarrow> time_span + int option" where
  "place a = (case a of Axvspan s _ _ \<Rightarrow> Inl s | Axvline t \<Rightarrow> Inr t)"

abbreviation places :: "legend \<Rightarrow> (time_span + int option) multiset" where
  "places g \<equiv> image_mset place (mset (drawn g))"

lemma place_spans_of: "image_mset place (mset (spans_of g spans)) = image_mset Inl (mset spans)"
  by (induction spans) (simp_all add: spans_of_def place_def)

lemma place_lines: "image_mset place (mset (map Axvline ts)) = image_mset Inr (mset ts)"
  by (induction ts) (simp_all add: place_def)

lemma places_draw_label: "places (draw_label l arts g) = places g + image_mset place (mset arts)"
  by (simp add: draw_label_def)

lemma dict_append_times: "(\<Sum>p\<leftarrow>dict_append k x dict. mset (snd p)) = add_mset x (\<Sum>p\<leftarrow>dict. mset (snd p))"
  by (induction k x dict rule: dict_append.induct) auto

lemma group_events_times:
  "group_events rs dict = Inr dict' \<Longrightarrow>
     (\<Sum>p\<leftarrow>dict'. mset (snd p)) = (\<Sum>p\<leftarrow>dict. mset (snd p)) + image_mset times_of (mset rs)"
  by (induction rs arbitrary: dict) (auto simp: dict_append_times times_of_def split: option.splits)

lemma draw_groups_places: "places (draw_groups dict g) = places g + image_mset Inl (\<Sum>p\<leftarrow>dict. mset (snd p))"
proof (induction dict arbitrary: g)
  case (Cons p dict)
  have "draw_groups (p # dict) g = draw_groups dict (draw_label (fst p) (spans_of g (snd p)) g)"
    by (simp add: draw_groups_def split_def)
  then show ?case by (simp add: Cons.IH places_draw_label place_spans_of)
qed (simp add: draw_groups_def)

lemma draw_errors_places:
  "places (draw_errors k ers g) = places g
     + image_mset (\<lambda>e. Inl (er_start_time e, er_end_time e)) (filter_mset (in_error_view k) (mset ers))"
proof (cases "filter (in_error_view k) ers = []")
  case False
  then show ?thesis
    by (simp add: draw_errors_def Let_def nulls_last_empty places_draw_label place_spans_of mset_nulls_last
        multiset.map_comp comp_def mset_filter)
next
  case True
  then have "filter_mset (in_error_view k) (mset ers) = {#}" by (metis mset.simps(1) mset_filter)
  then show ?thesis using True by (simp add: draw_errors_def nulls_last_def)
qed

lemma draw_switches_places:
  "places (draw_switches k ts g) = places g
     + image_mset Inr (filter_mset (\<lambda>t. sql_between t (nb_start_ns k) (nb_end_ns k)) (mset ts))"
proof (cases "filter (\<lambda>t. sql_between t (nb_start_ns k) (nb_end_ns k)) ts = []")
  case False
  then show ?thesis
    by (simp add: draw_switches_def Let_def nulls_last_empty places_draw_label place_lines mset_nulls_last mset_filter
        del: mset_map)
next
  case True
  then have "filter_mset (\<lambda>t. sql_between t (nb_start_ns k) (nb_end_ns k)) (mset ts) = {#}" by (metis mset.simps(1) mset_filter)
  then show ?thesis using True by (simp add: draw_switches_def nulls_last_def)
qed

text \<open>Differences of neighbours.\<close>

definition gaps :: "int list \<Rightarrow> int list" where
  "gaps xs = map2 (\<lambda>a b. b - a) xs (tl xs)"

lemma gaps_sum: "xs \<noteq> [] \<Longrightarrow> sum_list (gaps xs) = last xs - hd xs"
proof (induction xs)
  case (Cons x xs)
  then show ?case by (cases xs) (auto simp: gaps_def)
qed simp

lemma gaps_nonneg: "sorted xs \<Longrightarrow> \<forall>g\<in>set (gaps xs). 0 \<le> g"
proof (induction xs)
  case (Cons x xs)
  then show ?case by (cases xs) (auto simp: gaps_def)
qed (simp add: gaps_def)

lemma sorted_ends: "sorted (xs :: int list) \<Longrightarrow> xs \<noteq> [] \<Longrightarrow> hd xs = Min (set xs) \<and> last xs = Max (set xs)"
proof
  assume *: "sorted xs" "xs \<noteq> []"
  then show "hd xs = Min (set xs)" by (cases xs) (auto intro!: Min_eqI [symmetric])
  have "\<forall>y\<in>set xs. y \<le> last xs" using * by (induction xs) auto
  then show "last xs = Max (set xs)" using *(2) by (auto intro!: Max_eqI [symmetric])
qed

lemma lagged_gaps:
  fixes rs :: "syscall_call list"
  assumes "\<forall>r\<in>set rs. y_return_time r \<noteq> None"
  shows "map latency_ns (filter (\<lambda>r. lag_return_time r \<noteq> None)
      (map2 (\<lambda>p r. \<lparr>l_return_time = y_return_time r, lag_return_time = Option.bind p (\<lambda>x. x),
          latency_ns = (case (y_return_time r, p) of (Some a, Some (Some b)) \<Rightarrow> Some (a - b) | _ \<Rightarrow> None)\<rparr>)
        (lag1 y_return_time rs) rs)) = map Some (gaps (map (\<lambda>r. the (y_return_time r)) rs))"
proof -
  let ?f = "\<lambda>p r. \<lparr>l_return_time = y_return_time r, lag_return_time = Option.bind p (\<lambda>x. x),
          latency_ns = (case (y_return_time r, p) of (Some a, Some (Some b)) \<Rightarrow> Some (a - b) | _ \<Rightarrow> None)\<rparr>"
  have tail: "map latency_ns (filter (\<lambda>r. lag_return_time r \<noteq> None)
      (map2 ?f (take (length xs) (Some (y_return_time p) # map (\<lambda>r. Some (y_return_time r)) xs)) xs))
      = map Some (gaps (map (\<lambda>r. the (y_return_time r)) (p # xs)))"
    if "\<forall>r\<in>set (p # xs). y_return_time r \<noteq> None" for p :: syscall_call and xs
    using that
  proof (induction xs arbitrary: p)
    case Nil
    then show ?case by (simp add: gaps_def)
  next
    case (Cons x xs)
    then show ?case using Cons.IH [of x] by (auto simp: gaps_def)
  qed
  show ?thesis
  proof (cases rs)
    case Nil
    then show ?thesis by (simp add: lag1_def gaps_def)
  next
    case (Cons r xs)
    then show ?thesis using tail [of r xs] assms by (simp add: lag1_def)
  qed
qed

section \<open>Properties\<close>

definition demo_nb_clock :: nb_clock where
  "demo_nb_clock = \<lparr>nb_start_ns = 0, nb_start_cyc = 0, nb_end_ns = 100, nb_end_cyc = 10, nb_rate = 10\<rparr>"

definition demo_events_rows :: "syscall_call list" where
  "demo_events_rows = map (\<lambda>(s, t, n). \<lparr>y_call_time = Some s, y_return_time = Some t, y_name = Some n\<rparr>)
     [(5, 20, ''__x64_sys_recvfrom''), (30, 40, ''__x64_sys_write''), (50, 60, ''x64_sys_recvfrom''),
      (70, 80, ''__x64_sys_recvfrom''), (200, 300, ''__x64_sys_write'')]"

lemma demo_event_plot:
  "case event_plot pick demo_nb_clock (\<lambda>xs. xs) demo_events_rows (Some []) (Some [Some 50, Some 500]) [] of
     Inl e \<Rightarrow> False | Inr g \<Rightarrow> labels g = [''x64_sys_recvfrom'', ''x64_sys_write'', ''context switch'']"
  by (simp add: event_plot_def event_data_def demo_events_rows_def demo_nb_clock_def lstrip_underscore_def
      draw_groups_def draw_label_def spans_of_def draw_errors_def draw_switches_def errors_and_ranges_def nulls_last_def)

text \<open>C40: The event plot is complete and its legend too: the places where something is drawn are, with
  multiplicity, the spans of the system calls in view, the ranges of the overflows in view and the
  instants of the context switches in view; and every label has one handle, which is drawn.\<close>

theorem event_legend:
  assumes "event_plot pick k order_by_name rows errors switch_times ranges = Inr g"
    and "\<forall>xs. mset (order_by_name xs) = mset xs"
  shows "image_mset place (mset (drawn g))
      = image_mset (\<lambda>r. Inl (y_call_time r, y_return_time r))
          (filter_mset (\<lambda>r. sql_between (y_call_time r) (nb_start_ns k) (nb_end_ns k)
            \<or> sql_between (y_return_time r) (nb_start_ns k) (nb_end_ns k)) (mset rows))
      + image_mset (\<lambda>e. Inl (er_start_time e, er_end_time e))
          (filter_mset (in_error_view k) (mset (errors_and_ranges pick (the errors) ranges)))
      + image_mset Inr (filter_mset (\<lambda>t. sql_between t (nb_start_ns k) (nb_end_ns k)) (mset (the switch_times)))
    \<and> length (handles g) = length (labels g) \<and> set (handles g) \<subseteq> set (drawn g)"
proof -
  let ?g0 = "\<lparr>labels = [], handles = [], drawn = [], span_type_count = 0\<rparr>"
  let ?ers = "errors_and_ranges pick (the errors) ranges"
  let ?ts = "the switch_times"
  obtain dict where d: "group_events (event_data k order_by_name rows) [] = Inr dict"
    and g: "g = draw_switches k ?ts (draw_errors k ?ers (draw_groups dict ?g0))"
    using assms(1) unfolding event_plot_def bind_res_Inr_iff
    by (elim exE conjE) (simp split: option.splits)
  have "mset (event_data k order_by_name rows) = filter_mset (\<lambda>r. sql_between (y_call_time r) (nb_start_ns k) (nb_end_ns k)
        \<or> sql_between (y_return_time r) (nb_start_ns k) (nb_end_ns k)) (mset rows)"
    unfolding event_data_def assms(2) [rule_format] by (rule mset_filter)
  then have "image_mset Inl (\<Sum>p\<leftarrow>dict. mset (snd p)) = image_mset (\<lambda>r. Inl (y_call_time r, y_return_time r))
      (filter_mset (\<lambda>r. sql_between (y_call_time r) (nb_start_ns k) (nb_end_ns k)
        \<or> sql_between (y_return_time r) (nb_start_ns k) (nb_end_ns k)) (mset rows))"
    using group_events_times [OF d] by (simp add: multiset.map_comp comp_def times_of_def)
  moreover have "legend_ok g"
  proof -
    have ok0: "legend_ok ?g0" by (simp add: legend_ok_def)
    have "\<forall>p\<in>set dict. snd p \<noteq> []" using group_events_total [OF d] by blast
    then have "legend_ok (draw_groups dict ?g0)" using draw_groups_spec [OF ok0] by blast
    then show ?thesis unfolding g using draw_errors_ok draw_switches_ok by blast
  qed
  ultimately show ?thesis
    unfolding g draw_switches_places draw_errors_places draw_groups_places by (simp add: legend_ok_def)
qed

theorem event_legend_witness:
  "\<exists>g. event_plot pick_first demo_nb_clock (\<lambda>xs. xs) demo_events_rows (Some []) (Some [Some 50, Some 500]) [] = Inr g
     \<and> length (handles g) = 3
     \<and> image_mset place (mset (drawn g)) = {#Inl (Some 5, Some 20), Inl (Some 30, Some 40), Inl (Some 50, Some 60),
         Inl (Some 70, Some 80), Inr (Some 50)#}"
proof -
  obtain g where g: "event_plot pick_first demo_nb_clock (\<lambda>xs. xs) demo_events_rows (Some []) (Some [Some 50, Some 500]) [] = Inr g"
      "length (labels g) = 3"
    using demo_event_plot [of pick_first] by (auto split: sum.splits)
  from event_legend [OF g(1)] g(2) have "length (handles g) = 3"
    "image_mset place (mset (drawn g)) = {#Inl (Some 5, Some 20), Inl (Some 30, Some 40), Inl (Some 50, Some 60),
         Inl (Some 70, Some 80), Inr (Some 50)#}"
    by (simp_all add: demo_events_rows_def demo_nb_clock_def errors_and_ranges_def nulls_last_def)
  with g(1) show ?thesis by blast
qed

text \<open>Without a trace error or without a context switch the exporter drops the table, and the cell
  raises on it.\<close>

lemma event_plot_needs_tables:
  "event_plot pick k order_by_name rows None switch_times ranges \<noteq> Inr g"
  "event_plot pick k order_by_name rows errors None ranges \<noteq> Inr g"
  by (auto simp: event_plot_def bind_res_Inr_iff split: option.splits)

text \<open>The events are grouped by their name without leading underscores: each label once, with exactly
  the spans of the events of that name, in their order.\<close>

theorem events_grouped:
  assumes "group_events rs [] = Inr dict"
  shows "distinct (map fst dict) \<and> (\<forall>(l, spans)\<in>set dict. spans \<noteq> []
      \<and> spans = map times_of (filter (\<lambda>r. stripped r = Some l) rs))
    \<and> (\<forall>r\<in>set rs. \<exists>l. stripped r = Some l \<and> l \<in> fst ` set dict)"
proof -
  note g = group_events_spec [OF assms]
  have d: "distinct (map fst dict)" "\<forall>p\<in>set dict. snd p \<noteq> []"
    and get: "\<And>l. dict_get dict l = map times_of (filter (\<lambda>r. stripped r = Some l) rs)"
    using g by (simp_all add: dict_get_def)
  have "spans = map times_of (filter (\<lambda>r. stripped r = Some l) rs)" if "(l, spans) \<in> set dict" for l spans
    using get [of l] map_of_is_SomeI [OF d(1) that] by (simp add: dict_get_def)
  moreover have "\<exists>l. stripped r = Some l \<and> l \<in> fst ` set dict" if r: "r \<in> set rs" for r
  proof -
    have named: "group_events rs e = Inr e' \<Longrightarrow> y_name r \<noteq> None" for e e'
      using r by (induction rs arbitrary: e) (auto split: option.splits)
    obtain l where l: "stripped r = Some l" using named [OF assms] by (auto simp: stripped_def)
    then have "dict_get dict l \<noteq> []" using get [of l] r by (auto simp: filter_empty_conv)
    then show ?thesis using l by (auto simp: dict_get_def dest!: map_of_SomeD split: option.splits intro: rev_image_eqI)
  qed
  ultimately show ?thesis using d by fastforce
qed

theorem events_grouped_witness:
  "\<exists>dict. group_events demo_events_rows [] = Inr dict \<and> distinct (map fst dict)
     \<and> ''x64_sys_recvfrom'' \<in> fst ` set dict"
proof -
  have "case group_events demo_events_rows [] of Inl e \<Rightarrow> False | Inr d \<Rightarrow> True" by code_simp
  then obtain dict where d: "group_events demo_events_rows [] = Inr dict" by (auto split: sum.splits)
  have mem: "stripped (hd demo_events_rows) = Some ''x64_sys_recvfrom''" "hd demo_events_rows \<in> set demo_events_rows"
    by (simp_all add: demo_events_rows_def stripped_def lstrip_underscore_def)
  note eg = events_grouped [OF d]
  have "\<exists>l. stripped (hd demo_events_rows) = Some l \<and> l \<in> fst ` set dict"
    by (rule bspec [OF conjunct2 [OF conjunct2 [OF eg]] mem(2)])
  then have "''x64_sys_recvfrom'' \<in> fst ` set dict" by (simp add: mem(1))
  then show ?thesis using conjunct1 [OF eg] d by (intro exI [of _ dict] conjI)
qed

text \<open>The condition that selects trace overflows for drawing is the overlap of the range with the
  plotted stretch; for the first range, whose start is NULL, it asks for the end.\<close>

theorem error_view_overlap:
  assumes "nb_start_ns k \<le> nb_end_ns k" and "er_end_time e = Some f" and "\<forall>s. er_start_time e = Some s \<longrightarrow> s \<le> f"
  shows "in_error_view k e \<longleftrightarrow> (case er_start_time e of
      Some s \<Rightarrow> s \<le> nb_end_ns k \<and> nb_start_ns k \<le> f
    | None \<Rightarrow> nb_start_ns k \<le> f \<and> f \<le> nb_end_ns k)"
  using assms by (auto simp: in_error_view_def split: option.splits)

theorem error_view_overlap_witness:
  "in_error_view demo_nb_clock \<lparr>er_time = Some (-5), er_start_time = Some (-20), er_start_cum_cyc = None, er_end_time = Some 10,
     er_end_cum_cyc = None, er_cyc_count = None, er_duration_ns = Some 30\<rparr>"
  by (subst error_view_overlap [where f = 10]) (simp_all add: demo_nb_clock_def)

text \<open>The notebook's clock is the one of \<open>SqlUtil\<close>, and both raise when the bounds are one cycle; a
  missing cycle raises in the notebook and is a NaN in \<open>SqlUtil\<close>.\<close>

theorem notebook_clock_agrees:
  assumes "clock_bounds tb = Inr (b, e)"
  shows "nb_clock_of tb = (case (tb_cyc b, tb_cyc e) of
      (Some s, Some f) \<Rightarrow> (case clock_of f64 tb of
          Inr c \<Rightarrow> Inr \<lparr>nb_start_ns = start_ns c, nb_start_cyc = s, nb_end_ns = end_ns c, nb_end_cyc = f, nb_rate = the (ns_rate c)\<rparr>
        | Inl err \<Rightarrow> Inl err)
    | _ \<Rightarrow> Inl TypeError)"
  using assms by (auto simp: clock_of_def clock_bounds_def nb_clock_of_def rate_of_def bind_res_def clock_between_def
      split: if_splits list.splits option.splits)

theorem notebook_clock_agrees_witness:
  "nb_clock_of [\<lparr>tb_ns = 30050, tb_cyc = Some 4\<rparr>, \<lparr>tb_ns = 45050, tb_cyc = Some 9\<rparr>]
     = Inr \<lparr>nb_start_ns = 30050, nb_start_cyc = 4, nb_end_ns = 45050, nb_end_cyc = 9, nb_rate = 3000\<rparr>"
  using notebook_clock_agrees [OF clock_bounds_two [of 4 9 30050 45050]] by (simp add: demo_clock_of_f64) (simp add: demo_clock_def)

text \<open>In exact arithmetic the rectangle of a span ends where the curve has its point: left edge plus
  width is the time of the window end, for every row of \<open>ipc_spans\<close>.\<close>

theorem rectangle_right_edge:
  assumes "ipc_spans pick gl W rs = Inr out" and "s \<in> set out"
  shows "rect_x (rectangle_of (\<lambda>x. x) k s) + rect_width (rectangle_of (\<lambda>x. x) k s)
    = nb_time_cyc_to_ns (\<lambda>x. x) k (of_int (window_end_cum_cyc s))"
proof -
  obtain r where "span_of r = Inr s"
    using assms by (auto simp: ipc_spans_def map_res_Inr_iff list_all2_conv_all_nth in_set_conv_nth)
  then have "window_end_cum_cyc s = span_start_cyc s + span_width_cyc s"
    by (auto simp: span_of_def bind_res_Inr_iff cast_bigint_def cast_ubigint_def span_row.extend_def split: if_splits)
  note eq = this
  show ?thesis
    by (simp add: eq rectangle_of_def nb_time_cyc_to_ns_def nb_duration_cyc_to_ns_def algebra_simps)
qed

theorem rectangle_right_edge_witness:
  "\<exists>x. window_end_cum_cyc x = 8
     \<and> rect_x (rectangle_of (\<lambda>x. x) demo_nb_clock x) + rect_width (rectangle_of (\<lambda>x. x) demo_nb_clock x) = 80"
proof -
  obtain out x where x: "ipc_spans pick_first f32 4 (timestamped_ranges demo_samples) = Inr out" "x \<in> set out"
      "window_end_cum_cyc x = 8"
    by (rule demo_row [where fl = f32])
  from rectangle_right_edge [OF x(1,2), of demo_nb_clock] x(3) show ?thesis
    by (intro exI [of _ x]) (simp add: nb_time_cyc_to_ns_def nb_duration_cyc_to_ns_def demo_nb_clock_def)
qed

text \<open>C39: The three histograms together show all cycles: in exact arithmetic the weights of one duration
  add up to its share of the cycles, whatever the number of instructions.\<close>

theorem weights_complete:
  assumes "0 < sum_list (map s_cyc_count samples)" and "w \<in> set (weight_rows (\<lambda>x. x) samples m)"
  shows "\<exists>a b c. weighted_insn_count_0 w = Some a \<and> weighted_insn_count_1 w = Some b \<and> weighted_insn_count_2 w = Some c
    \<and> a + b + c = of_int (sum_list (map s_cyc_count (filter (\<lambda>s. s_cyc_count s = w_cyc_count w) samples)))
        / of_int (sum_list (map s_cyc_count samples))"
proof -
  let ?k = "w_cyc_count w" and ?total = "sum_list (map s_cyc_count samples)"
  let ?n = "\<lambda>grp. count_where (\<lambda>s. s_cyc_count s = ?k \<and> insn_group (s_insn_count s) = grp) samples"
  have w: "weighted_insn_count_0 w = Some (of_int (?n 0 * ?k) / of_int ?total)"
    "weighted_insn_count_1 w = Some (of_int (?n 1 * ?k) / of_int ?total)"
    "weighted_insn_count_2 w = Some (of_int (?n 2 * ?k) / of_int ?total)"
    using assms by (auto simp: weight_rows_def weight_of_def real_div_def sql_div_def)
  have "sum_list (map s_cyc_count (filter (\<lambda>s. s_cyc_count s = ?k) samples)) = (?n 0 + ?n 1 + ?n 2) * ?k"
    unfolding count_where_def by (induction samples) (auto simp: insn_group_def algebra_simps)
  then show ?thesis
    using w by (simp add: add_divide_distrib [symmetric] algebra_simps)
qed

theorem weights_complete_witness:
  "\<exists>(w :: weight_row) a b c. w_cyc_count w = 3 \<and> weighted_insn_count_0 w = Some a \<and> weighted_insn_count_1 w = Some b
     \<and> weighted_insn_count_2 w = Some c \<and> a + b + c = 6 / 19"
proof -
  have "sort (remdups (filter (\<lambda>k. 2 \<le> k) (map s_cyc_count demo_cdf_samples))) = [3, 4, 9]"
    by (simp add: demo_cdf_samples_def)
  then have "\<exists>w\<in>set (weight_rows (\<lambda>x. x) demo_cdf_samples 2). w_cyc_count w = 3"
    by (simp add: weight_rows_def)
  then obtain w where w: "w \<in> set (weight_rows (\<lambda>x. x) demo_cdf_samples 2)" "w_cyc_count w = 3" by blast
  have sums: "sum_list (map s_cyc_count demo_cdf_samples) = 19"
    "sum_list (map s_cyc_count (filter (\<lambda>s. s_cyc_count s = 3) demo_cdf_samples)) = 6"
    by (simp_all add: demo_cdf_samples_def)
  have "\<exists>a b c. weighted_insn_count_0 w = Some a \<and> weighted_insn_count_1 w = Some b
     \<and> weighted_insn_count_2 w = Some c \<and> a + b + c = of_int 6 / of_int 19"
    using weights_complete [OF _ w(1)] unfolding w(2) sums by simp
  then show ?thesis using w(2) by auto
qed

text \<open>The latencies are the gaps between consecutive returns: one fewer than there are calls, none
  negative, and together the time from the first return to the last.\<close>

theorem latencies_telescope:
  assumes "\<forall>r\<in>set rows. y_return_time r \<noteq> None"
    and "filter (\<lambda>r. y_name r = Some ''__x64_sys_recvfrom'') rows = r # rs"
  shows "\<exists>ls. map latency_ns (latencies rows) = map Some ls \<and> length ls = length rs \<and> (\<forall>l\<in>set ls. 0 \<le> l)
    \<and> sum_list ls = Max (the ` y_return_time ` set (r # rs)) - Min (the ` y_return_time ` set (r # rs))"
proof -
  have all: "\<forall>q\<in>set (r # rs). y_return_time q \<noteq> None"
    using assms(1) filter_is_subset [of "\<lambda>r. y_name r = Some ''__x64_sys_recvfrom''" rows] unfolding assms(2) by blast
  define sorted_rows where "sorted_rows = sort_key (\<lambda>q. the (y_return_time q)) (r # rs)"
  define xs where "xs = map (\<lambda>q. the (y_return_time q)) sorted_rows"
  have "nulls_last y_return_time (r # rs) = sorted_rows"
    using all by (simp add: nulls_last_def sorted_rows_def filter_id_conv [THEN iffD2] filter_empty_conv)
  moreover have sr: "set sorted_rows = set (r # rs)" "length sorted_rows = Suc (length rs)"
    by (simp_all only: sorted_rows_def set_sort length_sort length_Cons)
  ultimately have ls: "map latency_ns (latencies rows) = map Some (gaps xs)"
    using lagged_gaps [of sorted_rows] all unfolding latencies_def assms(2) Let_def xs_def by simp
  have "sorted xs" unfolding xs_def sorted_rows_def by (rule sorted_sort_key)
  moreover have "xs \<noteq> []" "length xs = Suc (length rs)" using sr(2) by (auto simp: xs_def)
  moreover have "set xs = the ` y_return_time ` set (r # rs)" by (simp only: xs_def set_map sr(1) image_image)
  ultimately have "\<forall>l\<in>set (gaps xs). 0 \<le> l" "length (gaps xs) = length rs"
    "sum_list (gaps xs) = Max (the ` y_return_time ` set (r # rs)) - Min (the ` y_return_time ` set (r # rs))"
    using gaps_nonneg gaps_sum sorted_ends by (simp_all add: gaps_def)
  with ls show ?thesis by blast
qed

theorem latencies_telescope_witness:
  "\<exists>ls. map latency_ns (latencies demo_events_rows) = map Some ls \<and> length ls = 1 \<and> sum_list ls = 60"
proof -
  obtain a b where ab: "filter (\<lambda>r. y_name r = Some ''__x64_sys_recvfrom'') demo_events_rows = [a, b]"
      "y_return_time a = Some 20" "y_return_time b = Some 80"
    by (simp add: demo_events_rows_def)
  have "\<forall>r\<in>set demo_events_rows. y_return_time r \<noteq> None" by (simp add: demo_events_rows_def)
  from latencies_telescope [OF this ab(1)] show ?thesis by (auto simp: ab(2,3))
qed

text \<open>The second cell cannot run on the repository's files.\<close>

lemma prepare_needs_missing_scripts: "nb_prepare sql_files pick rs = Inl OSError"
  by (simp add: nb_prepare_def sql_files_def)

end
