(* ===== verification/Timeline_Props.thy ===== *)
theory Timeline_Props
  imports Timeline Notebook_Props Util_Props
begin

text \<open>
  What the plotting cells of \<open>pt.ipy\<close> show after the preparation, and when they stop with an error:
  the legend of the timeline, the names of the events, the top of the distribution.
\<close>

section \<open>The legend\<close>

text \<open>The legend as it should be: each kind of event with the first artist drawn for it.\<close>

definition styled_span :: "nat \<Rightarrow> time_span \<Rightarrow> artist" where
  "styled_span n s = Axvspan s (colors ! (n mod length colors)) (hatches ! (n mod length hatches))"

definition group_entries :: "nat \<Rightarrow> (string \<times> time_span list) list \<Rightarrow> (artist \<times> string) list" where
  "group_entries n dict = map (\<lambda>(i, label, spans). (styled_span i (hd spans), label)) (enumerate n dict)"

definition overflow_entry :: "nat \<Rightarrow> error_range \<Rightarrow> artist" where
  "overflow_entry n e = styled_span n (er_start_time e, er_end_time e)"

definition legend_entries ::
  "(string \<times> time_span list) list \<Rightarrow> int option list \<Rightarrow> error_range list \<Rightarrow> (artist \<times> string) list" where
  "legend_entries dict ts ers = group_entries 0 dict
     @ (case ts of [] \<Rightarrow> [] | t # _ \<Rightarrow> [(Axvline t, ''context switches'')])
     @ (case ers of [] \<Rightarrow> [] | e # _ \<Rightarrow> [(overflow_entry (length dict) e, ''trace overflow'')])"

definition timeline_legend ::
  "(string \<times> time_span list) list \<Rightarrow> int option list \<Rightarrow> error_range list \<Rightarrow> legend" where
  "timeline_legend dict ts ers = draw_overflows ers (draw_switch_lines ts (draw_groups dict no_legend))"

lemma spans_of_styled: "spans_of g spans = map (styled_span (span_type_count g)) spans"
  by (simp add: spans_of_def styled_span_def)

lemma draw_groups_entries:
  "\<forall>p\<in>set dict. snd p \<noteq> [] \<Longrightarrow>
     handles (draw_groups dict g) = handles g @ map fst (group_entries (span_type_count g) dict)
     \<and> labels (draw_groups dict g) = labels g @ map snd (group_entries (span_type_count g) dict)
     \<and> span_type_count (draw_groups dict g) = span_type_count g + length dict"
proof (induction dict arbitrary: g)
  case (Cons p dict)
  obtain l s spans where p: "p = (l, s # spans)" using Cons.prems by (cases p; cases "snd p") auto
  let ?g = "draw_label l (spans_of g (s # spans)) g"
  have "draw_groups (p # dict) g = draw_groups dict ?g" by (simp add: draw_groups_def p)
  then show ?case using Cons by (simp add: p draw_label_def spans_of_styled group_entries_def)
qed (simp add: draw_groups_def group_entries_def)

lemma zip_entries: "zip (map fst es @ xs) (map snd es @ ys) = es @ zip xs ys"
  by (induction es) auto

lemma timeline_legend_entries:
  assumes "\<forall>p\<in>set dict. snd p \<noteq> []"
  shows "zip (handles (timeline_legend dict ts ers)) (labels (timeline_legend dict ts ers)) =
    (if ts \<noteq> [] \<or> ers = [] then legend_entries dict ts ers
     else group_entries 0 dict @ [(overflow_entry (length dict) (hd ers), ''context switches'')])"
proof -
  note g = draw_groups_entries [OF assms, of no_legend]
  note z = zip_entries [of "group_entries 0 dict"]
  show ?thesis
    using g z [of "[]" "[]"] z [of "[]"]
    by (cases ts; cases ers)
      (simp_all add: timeline_legend_def draw_overflows_def draw_switch_lines_def draw_label_def legend_entries_def
        overflow_spans_def overflow_entry_def spans_of_styled zip_entries no_legend_def)
qed

section \<open>The runs of the cells\<close>

lemma group_events_named: "(\<exists>dict. group_events rows d = Inr dict) \<longleftrightarrow> (\<forall>r\<in>set rows. y_name r \<noteq> None)"
  by (induction rows d rule: group_events.induct) (auto split: option.splits)

lemma group_events_error: "group_events rows d = Inl e \<Longrightarrow> e = AttributeError ''lstrip''"
  by (induction rows d rule: group_events.induct) (auto split: option.splits)

text \<open>A prepared object: everything the time-series cell reads is there.\<close>

lemma time_series_cell_prepared:
  assumes "conn_open u" and "self_clock u = Some c" and "has_rate u" and "start_cyc c = Some a" and "end_cyc c = Some b"
    and "timestamped (database u) = Some rs" and "spans_table (database u) = Some spans" and "config u = Some k"
    and "on_cpu_table (event_db (database u)) = Some cpu"
    and "switch_times u c = Inr ts" and "overflows u c = Inr ers"
  shows "snd (time_series_cell u order_by_name) =
    bind_res (group_events (order_by_name (map on_cpu_event (filter (on_cpu_in_view c) cpu))) [])
      (\<lambda>dict. Inr (timeline_legend dict ts ers))"
proof -
  have "\<exists>rows. range_data u c = Inr rows" "\<exists>rows. util_span_data u c = Inr rows"
    by (simp_all add: range_data_def util_span_data_def util_query_def require_def in_cycles_def assms)
  moreover have "snd (average_plot u c rs spans) = Inr ()" for rs spans
    by (simp add: average_plot_def assms Let_def)
  moreover have "on_cpu_data u c order_by_name = Inr (order_by_name (map on_cpu_event (filter (on_cpu_in_view c) cpu)))"
    by (simp add: on_cpu_data_def util_query_def require_def assms)
  ultimately show ?thesis
    by (auto simp: time_series_cell_def timeline_plot_def snd_then_plot attribute_def assms Let_def timeline_legend_def)
qed

lemma prepared:
  assumes "run_calls pick found (notebook_calls k) (fresh_util S C E) = Some (None, u)"
  obtains c a b rs spans cpu ts ers where "conn_open u" "self_clock u = Some c" "has_rate u" "start_cyc c = Some a" "end_cyc c = Some b"
    "timestamped (database u) = Some rs" "spans_table (database u) = Some spans" "config u = Some k"
    "on_cpu_table (event_db (database u)) = Some cpu" "switch_times u c = Inr ts" "overflows u c = Inr ers"
proof -
  obtain s tb out ck T ev where r: "util_setup f64 k (timestamped_ranges s) = Inr tb" "clock_of f64 tb = Inr ck"
    "events_prep pick (start_ns ck) (end_ns ck) T E (timestamped_ranges s) no_events = Some (None, ev)"
    "u = pure_result pick k s T E tb out ck ev"
    by (rule notebook_pure [OF assms]) blast
  obtain x y where ck: "start_cyc ck = Some x" "end_cyc ck = Some y"
    by (rule clock_cases [OF r(1,2)]) simp
  obtain rows where rows: "full_syscalls (start_ns ck) (end_ns ck) T = Some rows"
    using events_prep_Some [OF r(3)] by blast
  have ev: "on_cpu_table ev \<noteq> None \<and> context_switches_table ev \<noteq> None \<and> have_errors_table ev = Some (E \<noteq> None)
      \<and> (E \<noteq> None \<longrightarrow> errors_temp ev \<noteq> None)"
    using r(3) unfolding events_prep_returns [OF rows] by (auto split: if_splits option.splits simp: no_events_def)
  have u: "conn_open u" "self_clock u = Some ck" "has_rate u" "timestamped (database u) = Some (timestamped_ranges s)"
    "spans_table (database u) = Some out" "config u = Some k" "event_db (database u) = ev"
    by (simp_all add: r(4) pure_result_def Let_def)
  obtain cpu where cpu: "on_cpu_table (event_db (database u)) = Some cpu" using ev u(7) by auto
  obtain ts where "switch_times u ck = Inr ts"
    using ev u(1,7) by (auto simp: switch_times_def util_query_def require_def)
  moreover obtain ers where "overflows u ck = Inr ers"
    using ev u(1,7) by (cases E; cases "errors_temp ev") (auto simp: overflows_def util_query_def require_def attribute_def)
  ultimately show thesis by (rule that [OF u(1-3) ck u(4-6) cpu])
qed

section \<open>The top of the distribution\<close>

lemma range_cdf_keys: "set (map cdf_cyc_count (range_cdf fl samples)) = set (map s_cyc_count samples)"
proof -
  have "map cdf_cyc_count (range_cdf fl samples) = map g_cyc_count (cdf_groups samples)"
    by (simp add: range_cdf_def Let_def cdf_row_of_def comp_def)
  then show ?thesis by (simp add: group_keys)
qed

lemma cdf_row_value:
  assumes "r \<in> set (range_cdf f32 samples)" "\<forall>t\<in>set samples. 0 \<le> s_cyc_count t"
  shows "cdf r = real_div f32 (samples_up_to samples (cdf_cyc_count r)) (int (length samples))"
  by (rule range_cdf_row [OF assms]) simp

lemma cdf_top_mem:
  "r \<in> set (cdf_top rows) \<longleftrightarrow> r \<in> set rows \<and> (\<exists>p. cdf r = Some p \<and> f32 (95 / 100) < p)"
  by (auto simp: cdf_top_def split: option.splits)

lemma cdf_top_shape:
  assumes nonneg: "\<forall>t\<in>set samples. 0 \<le> s_cyc_count t" and ne: "samples \<noteq> []"
  defines "ks \<equiv> set (map cdf_cyc_count (cdf_top (range_cdf f32 samples)))"
  shows "Max (set (map s_cyc_count samples)) \<in> ks"
    and "k \<in> ks \<longleftrightarrow> k \<in> set (map s_cyc_count samples) \<and> Min ks \<le> k"
proof -
  let ?rows = "range_cdf f32 samples" and ?all = "set (map s_cyc_count samples)"
  have len: "1 \<le> int (length samples)" using ne by (cases samples) auto
  have all: "?all \<noteq> {}" using ne by simp
  show mem: "Max ?all \<in> ks"
  proof -
    obtain r where r: "r \<in> set ?rows" "cdf_cyc_count r = Max ?all"
      using Max_in [OF _ all] unfolding range_cdf_keys [of f32 samples, symmetric] by (auto simp del: set_map simp: set_map)
    have "cdf r = Some 1"
      unfolding cdf_row_value [OF r(1) nonneg] r(2) using up_to_all(1) [of samples "Max ?all"] f32.real_div_self [OF len] by simp
    moreover have "f32 (95 / 100) < 1" by code_simp
    ultimately have "r \<in> set (cdf_top ?rows)" using r(1) by (simp add: cdf_top_mem)
    then have "cdf_cyc_count r \<in> ks" by (simp add: ks_def)
    then show ?thesis by (simp only: r(2))
  qed
  have up: "k \<in> ks" if up_if: "m \<in> ks" "m \<le> k" "k \<in> ?all" for m k
  proof -
    obtain q where "q \<in> set (cdf_top ?rows)" and m: "cdf_cyc_count q = m" using up_if(1) by (auto simp: ks_def)
    then obtain p where q: "q \<in> set ?rows" "cdf q = Some p" "f32 (95 / 100) < p" unfolding cdf_top_mem by blast
    obtain r where r: "r \<in> set ?rows" "cdf_cyc_count r = k"
      using up_if(3) unfolding range_cdf_keys [of f32, symmetric] by auto
    obtain y where "cdf r = Some y" "p \<le> y"
      using f32.real_div_share [OF samples_up_to_bounds(1) samples_up_to_mono [OF up_if(2)] samples_up_to_bounds(2) len]
        cdf_row_value [OF q(1) nonneg] cdf_row_value [OF r(1) nonneg] q(2) m r(2) by force
    then have "r \<in> set (cdf_top ?rows)" using r(1) q(3) by (auto simp: cdf_top_mem)
    then have "cdf_cyc_count r \<in> ks" by (simp add: ks_def)
    then show ?thesis by (simp only: r(2))
  qed
  have sub: "ks \<subseteq> ?all" unfolding range_cdf_keys [of f32, symmetric] by (auto simp: ks_def cdf_top_def)
  have fin: "finite ks" by (simp add: ks_def)
  show "k \<in> ks \<longleftrightarrow> k \<in> ?all \<and> Min ks \<le> k"
    using up [OF Min_in [OF fin]] Min_le [OF fin] mem sub by blast
qed

lemma weight_rows_keys: "set (map w_cyc_count (weight_rows fl samples m)) = {k \<in> set (map s_cyc_count samples). m \<le> k}"
  by (auto simp: weight_rows_def comp_def)

lemma ranges_nonneg:
  assumes "samples_ok s" and "r \<in> set (timestamped_ranges s)"
  shows "0 \<le> cyc_count r"
proof -
  obtain i where i: "i < length (timestamped_ranges s)" "r = timestamped_ranges s ! i"
    using assms(2) by (auto simp: in_set_conv_nth)
  have "i < length (sort_key vid (ranges_t1 s))" using i(1) by (simp add: length_timestamped_ranges)
  from nth_mem [OF this] have "sort_key vid (ranges_t1 s) ! i \<in> set s"
    by (simp add: ranges_t1_def)
  then show ?thesis
    using assms(1) unfolding i(2) timestamped_ranges_nth(1) [OF assms(1) i(1)] samples_ok_def by blast
qed

lemma prepared_cdf:
  assumes "run_calls pick found (notebook_calls k) (fresh_util S C E) = Some (None, u)"
  obtains s where "S = Some s" "conn_open u" "cdf_view (database u) = Some (cumulative_longest_time_to_discard k)"
    "timestamped (database u) = Some (timestamped_ranges s)"
    "cdf_table (database u) = Some (range_cdf f32 (samples_for_cdf f32 (cumulative_longest_time_to_discard k) (timestamped_ranges s)))"
  by (rule notebook_pure [OF assms]) (simp add: pure_result_def Let_def)

section \<open>An example\<close>

text \<open>Three samples, no calls, and one overflow while the clock shows.\<close>

definition demo_overflow :: "error_row list" where
  "demo_overflow = [\<lparr>ae_time = Some 40000, ae_msg = Some ''Overflow packet''\<rparr>]"

lemma demo_session_times:
  "map (\<lambda>r. (start_time r, end_time r)) (timestamped_ranges demo_session_samples) = [(None, 100), (Some 100, 30060), (Some 30060, 60000)]"
  by (simp add: timestamped_ranges_def ranges_t1_def ranges_t2_def ranges_t3_def demo_session_samples_def
      sql_min_def cum_of_def view_row.extend_def lag1_def range_of_def numeral_eq_Suc range_sum_def)

lemma demo_overflow_range:
  "\<exists>e. errors_and_ranges pick_first demo_overflow (timestamped_ranges demo_session_samples) = [e] \<and> overflow_in_view demo_clock e"
proof -
  obtain r1 r2 r3 where "timestamped_ranges demo_session_samples = [r1, r2, r3]"
      "end_time r1 = 100" "end_time r2 = 30060" "end_time r3 = 60000" "start_time r3 = Some 30060"
    using demo_session_times by (auto simp: Cons_eq_map_conv)
  then show ?thesis
    by (simp add: errors_and_ranges_def demo_overflow_def nulls_last_def asof_least_def sql_less_def error_range_of_def
        overflow_in_view_def demo_clock_def)
qed

lemma demo_timeline:
  obtains u e where "run_calls pick_first True (notebook_calls demo_util_config)
      (fresh_util (Some demo_session_samples) (Some demo_no_calls) (Some demo_overflow)) = Some (None, u)"
    "on_cpu_data u demo_clock (\<lambda>xs. xs) = Inr []" "self_clock u = Some demo_clock"
    "on_cpu_table (event_db (database u)) = Some []"
    "switch_times u demo_clock = Inr []" "overflows u demo_clock = Inr [e]"
proof -
  let ?rs = "timestamped_ranges demo_session_samples"
  obtain out where out: "ipc_spans pick_first f32 2000 ?rs = Inr out" using demo_session_spans by blast
  obtain e where e: "errors_and_ranges pick_first demo_overflow ?rs = [e]" "overflow_in_view demo_clock e"
    using demo_overflow_range by blast
  have "full_syscalls 30050 45050 demo_no_calls = Some []" by code_simp
  moreover have "event_switches pick_first demo_no_calls = []" by code_simp
  ultimately have ev: "\<exists>ev. events_prep pick_first 30050 45050 demo_no_calls (Some demo_overflow) ?rs no_events = Some (None, ev)
      \<and> on_cpu_table ev = Some [] \<and> context_switches_table ev = Some [] \<and> have_errors_table ev = Some True
      \<and> errors_temp ev = Some [e]"
    by (simp add: events_prep_returns on_cpu_syscalls_def range_starts_def in_view_context_switches_def no_events_def e(1))
  then obtain ev where ev: "events_prep pick_first 30050 45050 demo_no_calls (Some demo_overflow) ?rs no_events = Some (None, ev)"
      "on_cpu_table ev = Some []" "context_switches_table ev = Some []" "have_errors_table ev = Some True"
      "errors_temp ev = Some [e]" by blast
  let ?u = "pure_result pick_first demo_util_config demo_session_samples demo_no_calls (Some demo_overflow)
      [\<lparr>tb_ns = 30050, tb_cyc = Some 4\<rparr>, \<lparr>tb_ns = 45050, tb_cyc = Some 9\<rparr>] out demo_clock ev"
  have "run_calls pick_first True (notebook_calls demo_util_config)
      (fresh_util (Some demo_session_samples) (Some demo_no_calls) (Some demo_overflow)) = Some (None, ?u)"
    using out ev(1) by (intro notebook_runs [OF demo_session_setup _ demo_clock_of_f64])
      (simp_all add: demo_util_config_def demo_clock_def)
  then show thesis
    by (rule that [of ?u e])
      (simp_all add: pure_result_def Let_def ev e on_cpu_data_def switch_times_def overflows_def util_query_def require_def
        attribute_def nulls_last_def)
qed

lemma demo_session_cdf: "cdf_t1 (timestamped_ranges demo_session_samples) = [(1, 1), (3, 3), (5, 5)]"
  by (simp add: cdf_t1_def timestamped_ranges_def ranges_t1_def ranges_t2_def ranges_t3_def demo_session_samples_def
      sql_min_def cum_of_def view_row.extend_def lag1_def range_of_def numeral_eq_Suc range_sum_def)

lemma demo_kept: "samples_for_cdf f32 (cumulative_longest_time_to_discard demo_util_config) (timestamped_ranges demo_session_samples) \<noteq> []"
proof -
  have "real_div f32 9 9 = Some 1" by (rule f32.real_div_self) simp
  moreover have "f32 (1 / 100) < 1" by code_simp
  ultimately have "\<lparr>s_insn_count = 1, s_cyc_count = 1, cum_cycles = 9, cum_cycles_perc = Some 1\<rparr>
      \<in> set (samples_for_cdf f32 (1 / 100) (timestamped_ranges demo_session_samples))"
    by (simp add: samples_for_cdf_iff demo_session_cdf cycles_at_least_def)
  then show ?thesis by (auto simp: demo_util_config_def)
qed

section \<open>Properties\<close>

text \<open>After the preparation the time-series cell of \<open>pt.ipy\<close> draws all its plots, or stops with one
  error only: it does exactly if some stretch of a system call in view has no name, whose
  \<open>lstrip\<close> it asks for.\<close>

theorem timeline_runs_iff:
  assumes "run_calls pick found (notebook_calls k) (fresh_util S C E) = Some (None, u)"
    and "\<forall>xs. set (order_by_name xs) = set xs"
  shows "if \<forall>r\<in>set (the (on_cpu_table (event_db (database u)))).
        on_cpu_in_view (the (self_clock u)) r \<longrightarrow> starts_name r \<noteq> None \<or> ends_name r \<noteq> None
    then \<exists>g. snd (time_series_cell u order_by_name) = Inr g
    else snd (time_series_cell u order_by_name) = Inl (AttributeError ''lstrip'')"
proof -
  obtain c a b rs spans cpu ts ers where p: "conn_open u" "self_clock u = Some c" "has_rate u" "start_cyc c = Some a" "end_cyc c = Some b"
    "timestamped (database u) = Some rs" "spans_table (database u) = Some spans" "config u = Some k"
    "on_cpu_table (event_db (database u)) = Some cpu" "switch_times u c = Inr ts" "overflows u c = Inr ers"
    by (rule prepared [OF assms(1)])
  let ?rows = "order_by_name (map on_cpu_event (filter (on_cpu_in_view c) cpu))"
  have cell: "snd (time_series_cell u order_by_name) = bind_res (group_events ?rows []) (\<lambda>dict. Inr (timeline_legend dict ts ers))"
    by (rule time_series_cell_prepared [OF p])
  have "y_name (on_cpu_event r) \<noteq> None \<longleftrightarrow> starts_name r \<noteq> None \<or> ends_name r \<noteq> None" for r
    by (auto simp: on_cpu_event_def split: option.split)
  then have "(\<forall>r\<in>set ?rows. y_name r \<noteq> None) \<longleftrightarrow>
      (\<forall>r\<in>set cpu. on_cpu_in_view c r \<longrightarrow> starts_name r \<noteq> None \<or> ends_name r \<noteq> None)"
    using assms(2) by auto
  then show ?thesis
    using group_events_named [of ?rows "[]"] group_events_error [of ?rows "[]"]
    by (cases "group_events ?rows []") (auto simp: cell p(2,9))
qed

theorem timeline_runs_iff_witness:
  "\<exists>u g. run_calls pick_first True (notebook_calls demo_util_config)
      (fresh_util (Some demo_session_samples) (Some demo_no_calls) (Some demo_overflow)) = Some (None, u)
    \<and> snd (time_series_cell u (\<lambda>xs. xs)) = Inr g"
proof (rule demo_timeline)
  fix u e assume u: "run_calls pick_first True (notebook_calls demo_util_config)
      (fresh_util (Some demo_session_samples) (Some demo_no_calls) (Some demo_overflow)) = Some (None, u)"
    "on_cpu_table (event_db (database u)) = Some []"
  show ?thesis using timeline_runs_iff [OF u(1), of "\<lambda>xs. xs"] u by auto
qed

text \<open>If every call has a symbol with a name, so has every system call, and every stretch on the CPU
  that passes the assertion.\<close>

lemma frames_calls: "set (frames calls n c) \<subseteq> insert c (set calls)"
proof (induction n arbitrary: c)
  case (Suc n)
  have "p \<in> set calls" if "caller_of calls c = Some p" for p
    using that by (auto simp: caller_of_def find_Some_iff bind_eq_Some_conv split: option.splits if_splits)
  then show ?case using Suc by (cases "caller_of calls c") (simp, fastforce)
qed simp

lemma full_syscalls_named:
  assumes "keys_unique T" and "full_syscalls lo hi T = Some rows" and "\<forall>c\<in>set (t_calls T). frame_symbol T c \<noteq> None"
    and "r \<in> set rows"
  shows "syscall_kernel_name r \<noteq> None"
proof -
  obtain c where c: "c \<in> set (t_calls T)" "looks_like_syscall T lo hi c" "r = syscall_row_of T lo hi c"
    using full_syscalls_rows(1) [OF assms(1,2)] assms(4) by blast
  have "hd (visible T lo hi c) \<in> set (visible T lo hi c)" using looks_like_visible [OF c(2)] by simp
  then have "snd (hd (visible T lo hi c)) \<in> set (call_stack (t_calls T) c)"
    by (auto simp: visible_def in_set_enumerate_eq)
  then have "snd (hd (visible T lo hi c)) \<in> set (t_calls T)"
    using subsetD [OF frames_calls] c(1) unfolding call_stack_def by (metis insertE)
  then show ?thesis using assms(3) by (simp add: c(3) syscall_row_of_def Let_def)
qed

context asof_engine begin

lemma on_cpu_named:
  assumes "\<forall>r\<in>set rows. syscall_kernel_name r \<noteq> None" and "r \<in> set (on_cpu_syscalls pick lo hi sws rows)"
    and "\<not> inconsistent lo hi r" and "sql_between (starts_time r) lo hi \<or> sql_between (ends_time r) lo hi"
  shows "starts_name r \<noteq> None \<or> ends_name r \<noteq> None"
proof -
  obtain a b where ab: "a \<in> set (range_starts lo hi sws rows)" "next_end pick (range_ends lo hi sws rows) a = Some b"
      "r = on_cpu_of a b" using assms(2) unfolding on_cpu_iff by blast
  have "e_call_id a \<noteq> None \<or> e_call_id b \<noteq> None"
    using assms(3,4) by (cases "e_call_id a"; cases "e_call_id b") (auto simp: inconsistent_def ab(3) on_cpu_of_def)
  moreover have "e_name a \<noteq> None" if "e_call_id a \<noteq> None"
    using ab(1) that assms(1) by (auto elim!: range_startsE simp: syscall_start_def)
  moreover have "e_name b \<noteq> None" if "e_call_id b \<noteq> None"
    using next_end_SomeD(1) [OF ab(2)] that assms(1) by (auto elim!: range_endsE simp: syscall_end_def)
  ultimately show ?thesis by (auto simp: ab(3) on_cpu_of_def)
qed

end

lemma timeline_named:
  assumes "asof_engine pick" and "run_calls pick found (notebook_calls k) (fresh_util S (Some T) E) = Some (None, u)"
    and "keys_unique T" and "\<forall>c\<in>set (t_calls T). frame_symbol T c \<noteq> None"
    and "\<forall>xs. set (order_by_name xs) = set xs"
  shows "\<exists>g. snd (time_series_cell u order_by_name) = Inr g"
proof -
  obtain s tb out ck ev where r: "events_prep pick (start_ns ck) (end_ns ck) T E (timestamped_ranges s) no_events = Some (None, ev)"
    "u = pure_result pick k s T E tb out ck ev"
    by (rule notebook_pure [OF assms(2)]) blast
  obtain rows where rows: "full_syscalls (start_ns ck) (end_ns ck) T = Some rows"
    "on_cpu_table ev = Some (on_cpu_syscalls pick (start_ns ck) (end_ns ck) (event_switches pick T) rows)"
    "\<not> list_ex (inconsistent (start_ns ck) (end_ns ck)) (on_cpu_syscalls pick (start_ns ck) (end_ns ck) (event_switches pick T) rows)"
    using events_prep_Some [OF r(1)] by auto
  have u: "self_clock u = Some ck" "event_db (database u) = ev" by (simp_all add: r(2) pure_result_def Let_def)
  have "\<forall>r\<in>set rows. syscall_kernel_name r \<noteq> None"
    using full_syscalls_named [OF assms(3) rows(1) assms(4)] by blast
  then have "\<forall>r\<in>set (the (on_cpu_table (event_db (database u)))). on_cpu_in_view (the (self_clock u)) r
      \<longrightarrow> starts_name r \<noteq> None \<or> ends_name r \<noteq> None"
    using asof_engine.on_cpu_named [OF assms(1)] rows(3) by (auto simp: u rows(2) on_cpu_in_view_def list_ex_iff)
  then show ?thesis using timeline_runs_iff [OF assms(2,5)] by (simp only: if_True)
qed

text \<open>C32: The legend of the timeline is right exactly if a context switch is in view or no trace overflow
  is: the label of the switches is always there, and without a switch to draw it is the overflow
  that the legend calls a context switch.\<close>

theorem timeline_legend_exact:
  assumes "snd (time_series_cell u order_by_name) = Inr g"
  shows "\<exists>c rows dict ts ers. self_clock u = Some c \<and> on_cpu_data u c order_by_name = Inr rows
    \<and> group_events rows [] = Inr dict \<and> switch_times u c = Inr ts \<and> overflows u c = Inr ers
    \<and> (zip (handles g) (labels g) = legend_entries dict ts ers \<longleftrightarrow> ts \<noteq> [] \<or> ers = [])
    \<and> (ts = [] \<and> ers \<noteq> [] \<longrightarrow> (overflow_entry (length dict) (hd ers), ''context switches'') \<in> set (zip (handles g) (labels g)))"
proof -
  obtain c rows dict ts ers where c: "self_clock u = Some c" "on_cpu_data u c order_by_name = Inr rows"
    "group_events rows [] = Inr dict" "switch_times u c = Inr ts" "overflows u c = Inr ers" "g = timeline_legend dict ts ers"
    using assms by (auto simp: time_series_cell_def timeline_plot_def snd_then_plot bind_res_Inr_iff Let_def
        timeline_legend_def attribute_def split: option.splits)
  have ne: "\<forall>p\<in>set dict. snd p \<noteq> []" using group_events_total [OF c(3)] by blast
  note z = timeline_legend_entries [OF ne, of ts ers, folded c(6)]
  have "zip (handles g) (labels g) = legend_entries dict ts ers \<longleftrightarrow> ts \<noteq> [] \<or> ers = []"
    unfolding z by (cases ts; cases ers) (simp_all add: legend_entries_def)
  moreover have "ts = [] \<and> ers \<noteq> [] \<longrightarrow> (overflow_entry (length dict) (hd ers), ''context switches'') \<in> set (zip (handles g) (labels g))"
    unfolding z by simp
  ultimately show ?thesis using c(1-5) by blast
qed

theorem timeline_legend_exact_witness:
  "\<exists>u g a. run_calls pick_first True (notebook_calls demo_util_config)
      (fresh_util (Some demo_session_samples) (Some demo_no_calls) (Some demo_overflow)) = Some (None, u)
    \<and> snd (time_series_cell u (\<lambda>xs. xs)) = Inr g \<and> labels g = [''context switches'', ''trace overflow'']
    \<and> (a, ''context switches'') \<in> set (zip (handles g) (labels g)) \<and> a \<in> range (styled_span 0)"
proof (rule demo_timeline)
  fix u e assume u: "run_calls pick_first True (notebook_calls demo_util_config)
      (fresh_util (Some demo_session_samples) (Some demo_no_calls) (Some demo_overflow)) = Some (None, u)"
    "on_cpu_data u demo_clock (\<lambda>xs. xs) = Inr []" "self_clock u = Some demo_clock"
    "on_cpu_table (event_db (database u)) = Some []"
    "switch_times u demo_clock = Inr []" "overflows u demo_clock = Inr [e]"
  let ?g = "timeline_legend [] [] [e]"
  obtain c a b rs spans k where p: "conn_open u" "self_clock u = Some c" "has_rate u" "start_cyc c = Some a" "end_cyc c = Some b"
    "timestamped (database u) = Some rs" "spans_table (database u) = Some spans" "config u = Some k"
    using prepared [OF u(1)] by metis
  have c: "c = demo_clock" using p(2) u(3) by simp
  have g: "snd (time_series_cell u (\<lambda>xs. xs)) = Inr ?g"
    using time_series_cell_prepared [OF p u(4) u(5,6) [folded c], of "\<lambda>xs. xs"] by simp
  have "labels ?g = [''context switches'', ''trace overflow'']"
    by (simp add: timeline_legend_def draw_groups_def draw_switch_lines_def draw_overflows_def draw_label_def no_legend_def)
  moreover have "(overflow_entry 0 e, ''context switches'') \<in> set (zip (handles ?g) (labels ?g))"
    using timeline_legend_exact [OF g] u(2,3,5,6) by auto
  moreover have "overflow_entry 0 e \<in> range (styled_span 0)" by (simp add: overflow_entry_def)
  ultimately show ?thesis using u(1) g by blast
qed

text \<open>C20: The cell of the distributions fails exactly if no sample was kept, formatting the least of no
  durations into its query. Otherwise the two curves go through the rows of \<open>range_cdf\<close> whose
  cumulative share exceeds 0.95, each at its duration, and the histograms show the weights of the
  samples from the least of these durations on, in bins between the least and the greatest: the
  durations of the curves are those of the histograms, the longest sample among them.\<close>

theorem cdf_cell_exact:
  assumes "run_calls pick found (notebook_calls k) (fresh_util (Some s) C E) = Some (None, u)"
    and "samples_ok s"
  defines "samples \<equiv> samples_for_cdf f32 (cumulative_longest_time_to_discard k) (timestamped_ranges s)"
  defines "tops \<equiv> filter (\<lambda>r. \<exists>p. cdf r = Some p \<and> f32 (95 / 100) < p) (range_cdf f32 samples)"
  defines "ks \<equiv> set (map cdf_cyc_count tops)"
  shows "if samples = [] then snd (cdf_cell u) = Inl (BinderError ''nan'')
    else cdf_cell u = draws (cdf_axes (map (\<lambda>t. (of_int (cdf_cyc_count t), cdf t)) tops)
            (map (\<lambda>t. (of_int (cdf_cyc_count t), weighted_cdf t)) tops)
          @ weight_axes (weight_rows f32 samples (Min ks)) (of_int (Min ks), of_int (Max ks), 30))
      \<and> ks = {d \<in> set (map s_cyc_count samples). \<exists>p. real_div f32 (count_where (\<lambda>t. s_cyc_count t \<le> d) samples)
                (int (length samples)) = Some p \<and> f32 (95 / 100) < p}
      \<and> set (map w_cyc_count (weight_rows f32 samples (Min ks))) = ks
      \<and> Max (set (map s_cyc_count samples)) \<in> ks"
proof -
  have u: "conn_open u" "cdf_view (database u) = Some (cumulative_longest_time_to_discard k)"
    "timestamped (database u) = Some (timestamped_ranges s)" "cdf_table (database u) = Some (range_cdf f32 samples)"
    by (rule prepared_cdf [OF assms(1)], simp add: samples_def)+
  have top: "cdf_top (range_cdf f32 samples) = tops"
    unfolding cdf_top_def tops_def by (rule filter_cong) (auto split: option.split)
  show ?thesis
  proof (cases "samples = []")
    case True
    then show ?thesis
      by (simp add: cdf_cell_def snd_then_plot util_query_def require_def u cdf_samples_def Let_def
          range_cdf_def cdf_groups_def cdf_top_def)
  next
    case False
    have nonneg: "\<forall>t\<in>set samples. 0 \<le> s_cyc_count t"
      using ranges_nonneg [OF assms(2)] by (auto simp: samples_def samples_for_cdf_iff cdf_t1_def Let_def)
    note shape = cdf_top_shape [OF nonneg False, unfolded top, folded ks_def]
    have ne: "tops \<noteq> []" using shape(1) by (auto simp: ks_def)
    have cs: "cdf_samples u tops = Inr samples"
      by (simp add: cdf_samples_def util_query_def require_def u ne samples_def)
    let ?rows = "weight_rows f32 samples (Min ks)"
    have "set (map w_cyc_count ?rows) = ks" unfolding weight_rows_keys using shape(2) by blast
    moreover have "cdf_cell u = draws (cdf_axes (map (\<lambda>t. (of_int (cdf_cyc_count t), cdf t)) tops)
        (map (\<lambda>t. (of_int (cdf_cyc_count t), weighted_cdf t)) tops)
        @ weight_axes ?rows (of_int (Min ks), of_int (Max ks), 30))"
      by (simp only: cdf_cell_def util_query_def require_def u if_True option.case then_plot_query then_plot_draws
          Let_def top cs ks_def [symmetric]) (simp add: draws_def)
    moreover have "ks = {d \<in> set (map s_cyc_count samples). \<exists>p. real_div f32 (count_where (\<lambda>t. s_cyc_count t \<le> d) samples)
        (int (length samples)) = Some p \<and> f32 (95 / 100) < p}"
      unfolding ks_def tops_def range_cdf_keys [of f32 samples, symmetric]
      using cdf_row_value [OF _ nonneg] by (auto simp: samples_up_to_def)
    ultimately show ?thesis using False shape(1) by simp
  qed
qed

theorem cdf_cell_exact_witness:
  "\<exists>u. run_calls pick_first True (notebook_calls demo_util_config)
      (fresh_util (Some demo_session_samples) (Some demo_no_calls) (Some demo_overflow)) = Some (None, u)
    \<and> snd (cdf_cell u) = Inr ()"
proof (rule demo_timeline)
  fix u e assume u: "run_calls pick_first True (notebook_calls demo_util_config)
      (fresh_util (Some demo_session_samples) (Some demo_no_calls) (Some demo_overflow)) = Some (None, u)"
  have "samples_ok demo_session_samples" by (simp add: samples_ok_def demo_session_samples_def)
  from cdf_cell_exact [OF u this] demo_kept u show ?thesis by auto
qed

end
