(* ===== verification/Joined_Views.thy ===== *)
theory Joined_Views
  imports Traced_Calls
begin

text \<open>
  The exporter's views that join tables in their FROM clause, on an exported database. A row of the
  first table survives for every combination of rows that match its ids; the tables joined have
  unique keys, so it survives once or not at all.
\<close>

section \<open>Joins by key\<close>

lemma view_rows_joined:
  assumes "from_list v = (t, a) # js" and "tables db t = Some tb"
  shows "view_rows F db v = concat (map (\<lambda>b.
      map (\<lambda>l. map (\<lambda>i. eval F (tables db) [b # l] (fst i)) (items v))
        (filter (\<lambda>l. kept F (tables db) v (b # l)) (from_rows (tables db) js))) (bindings a tb))"
  by (simp add: view_rows_def assms filter_concat map_concat filter_map comp_def)

definition id_of :: "bound \<Rightarrow> val option" where
  "id_of b = map_of (fst (snd b)) ''id''"

definition match_ids :: "int list \<Rightarrow> bound list \<Rightarrow> bool" where
  "match_ids ks l \<longleftrightarrow> list_all2 (\<lambda>k b. id_of b = Some (VInt k)) ks l"

lemma match_ids_simps [simp]:
  "match_ids [] [] \<longleftrightarrow> True" "match_ids (k # ks) (b # l) \<longleftrightarrow> id_of b = Some (VInt k) \<and> match_ids ks l"
  by (simp_all add: match_ids_def)

lemma from_rows_aliases: "l \<in> set (from_rows T js) \<Longrightarrow> map fst l = map snd js"
proof (induction js arbitrary: l)
  case (Cons ta js)
  then show ?case by (cases ta) (auto simp: bindings_def split: option.splits)
qed simp

lemma length_filter_Cons:
  "length (filter (match_ids (k # ks)) (concat (map (\<lambda>b. map ((#) b) ls) bs)))
    = length (filter (\<lambda>b. id_of b = Some (VInt k)) bs) * length (filter (match_ids ks) ls)"
proof (induction bs)
  case (Cons b bs)
  have "length (filter (match_ids (k # ks)) (map ((#) b) ls))
      = (if id_of b = Some (VInt k) then length (filter (match_ids ks) ls) else 0)"
    by (simp add: filter_map comp_def)
  then show ?case using Cons by simp
qed simp

lemma from_rows_matches:
  assumes "list_all2 (\<lambda>(t, a) (k, n). \<exists>tb. T t = Some tb \<and> length (filter (\<lambda>b. id_of b = Some (VInt k)) (bindings a tb)) = n) js kns"
  shows "length (filter (match_ids (map fst kns)) (from_rows T js)) = prod_list (map snd kns)"
  using assms
proof (induction js kns rule: list_all2_induct)
  case Nil
  then show ?case by simp
next
  case (Cons ta js kn kns)
  obtain t a k n where ta: "ta = (t, a)" "kn = (k, n)" by (cases ta; cases kn)
  with Cons.hyps(1) obtain tb where "T t = Some tb" "length (filter (\<lambda>b. id_of b = Some (VInt k)) (bindings a tb)) = n"
    by auto
  then show ?case using Cons.IH by (simp add: ta length_filter_Cons)
qed

section \<open>Keys of exported tables\<close>

definition traced_ids :: "row list \<Rightarrow> int list" where
  "traced_ids = map (\<lambda>x. cell_int (x ! 0))"

lemma stored_ids:
  assumes "list_all2 (row_stored cs) data rows" and "\<forall>x\<in>set data. typed_tuple cs x"
    and "distinct (map cname cs)" and "cs = pk ''id'' # cs'"
  shows "map (\<lambda>r. r ! 0) rows = map VInt (traced_ids data)"
  using assms(1,2)
proof (induction rule: list_all2_induct)
  case (Cons x data r rows)
  have f: "int_field (map cname cs) r ''id'' = Some (cell_int (x ! 0))"
    using stored_field(1) [OF Cons.hyps(1) _ assms(3), of 0 "''id''"] Cons.prems by (simp add: assms(4) pk_def)
  have "r \<noteq> []" using Cons.hyps(1) by (auto simp: row_stored_def assms(4))
  then have "r ! 0 = VInt (cell_int (x ! 0))"
    using f by (cases r; cases "r ! 0") (auto simp: int_field_def field_def assms(4) pk_def)
  then show ?case using Cons.IH Cons.prems by (simp add: traced_ids_def)
qed (simp add: traced_ids_def)

lemma length_filter_distinct: "distinct xs \<Longrightarrow> length (filter (\<lambda>x. x = k) xs) = (if k \<in> set xs then 1 else 0)"
  by (induction xs) auto

lemma key_count:
  assumes "list_all2 (row_stored cs) data rows" and "\<forall>x\<in>set data. typed_tuple cs x"
    and "distinct (map cname cs)" and "cs = pk ''id'' # cs'" and "keys_ok cs rows"
  shows "length (filter (\<lambda>b. id_of b = Some (VInt k)) (bindings a \<lparr>tcols = cs, trows = rows\<rparr>))
    = (if k \<in> set (traced_ids data) then 1 else 0)"
proof -
  note ids = stored_ids [OF assms(1-4)]
  have "distinct (map (\<lambda>r. r ! 0) rows)" using keys_ok_first [OF assms(5)] assms(4) by (simp add: pk_def)
  then have d: "distinct (traced_ids data)" unfolding ids distinct_map by blast
  have len: "\<forall>r\<in>set rows. length r = length cs"
    using assms(1) by (auto simp: list_all2_conv_all_nth row_stored_def in_set_conv_nth)
  have "length (filter (\<lambda>b. id_of b = Some (VInt k)) (map (\<lambda>(n, r). (a, zip (map cname cs) r, n)) (enumerate m rs)))
      = length (filter (\<lambda>v. v = VInt k) (map (\<lambda>r. r ! 0) rs))" if "\<forall>r\<in>set rs. length r = length cs" for m rs
    using that
  proof (induction rs arbitrary: m)
    case (Cons r rs)
    then obtain v r' where "r = v # r'" by (cases r) (auto simp: assms(4))
    then show ?case using Cons by (simp add: id_of_def assms(4) pk_def)
  qed simp
  from this [OF len, of 0] have "length (filter (\<lambda>b. id_of b = Some (VInt k)) (bindings a \<lparr>tcols = cs, trows = rows\<rparr>))
      = length (filter (\<lambda>v. v = VInt k) (map VInt (traced_ids data)))"
    by (simp add: bindings_def ids)
  also have "\<dots> = length (filter (\<lambda>x. x = k) (traced_ids data))" by (simp add: filter_map comp_def)
  finally show ?thesis by (simp only: length_filter_distinct [OF d])
qed

lemma concat_survivors:
  assumes "list_all2 (\<lambda>x b. f b = (if P x then [h x] else [])) data bs"
  shows "concat (map f bs) = map h (filter P data)"
  using assms by (induction rule: list_all2_induct) auto

section \<open>Context switches\<close>

text \<open>The times \<open>pt.ipynb\<close> reads of the view; \<open>None\<close> is a view that does not exist.\<close>

definition switch_times_input :: "sql_functions \<Rightarrow> database \<Rightarrow> int option list option" where
  "switch_times_input F db =
     map_option (\<lambda>(ns, rows). map (\<lambda>r. int_field ns r ''time'') rows) (select_all F db ''context_switches_view'')"

text \<open>The threads and command names the view can join: the unknown one and those perf passed.\<close>

definition known_ids :: "table_id \<Rightarrow> perf_event list \<Rightarrow> int set" where
  "known_ids t evs = insert 0 (set (traced_ids (tuples t evs)))"

definition switch_known :: "perf_event list \<Rightarrow> row \<Rightarrow> bool" where
  "switch_known evs x \<longleftrightarrow> {cell_int (x ! 4), cell_int (x ! 6)} \<subseteq> known_ids T_threads evs
     \<and> {cell_int (x ! 5), cell_int (x ! 7)} \<subseteq> known_ids T_comms evs"

definition switches_typed :: "perf_event list \<Rightarrow> bool" where
  "switches_typed evs \<longleftrightarrow> list_all (typed_tuple context_switches_columns) (tuples T_context_switches evs)
     \<and> list_all (typed_tuple threads_columns) (tuples T_threads evs)
     \<and> list_all (typed_tuple comms_columns) (tuples T_comms evs)"

lemma collected_names:
  assumes "collect cfg evs = Inr s"
  shows "data_of T_threads s = ints [0, 0, 0, -1, -1] # tuples T_threads evs"
    and "data_of T_comms s = [IntCell 0, unknown, IntCell 0, IntCell 0, IntCell 0] # tuples T_comms evs"
    and "data_of T_context_switches s = tuples T_context_switches evs"
proof -
  obtain logs where logs: "list_all2 (\<lambda>ev lg. entries cfg ev = Inr lg) evs logs"
    and s: "\<And>t. data_of t s = data_of t (trace_begin cfg init_collector) @ rows_for t (concat logs)"
    using assms by (auto simp: collect_logged map_res_Inr_iff logged_def)
  show "data_of T_threads s = ints [0, 0, 0, -1, -1] # tuples T_threads evs"
    and "data_of T_comms s = [IntCell 0, unknown, IntCell 0, IntCell 0, IntCell 0] # tuples T_comms evs"
    and "data_of T_context_switches s = tuples T_context_switches evs"
    by (subst s, subst trace_begin_data, simp add: logs_tuples [OF logs] init_collector_def data_of.simps)+
qed

lemma held_rows:
  assumes "holds cfg s db t" and "map_of (table_statements cfg) (table_name t) = Some cs"
    and "\<forall>x\<in>set (data_of t s). typed_tuple cs x"
  obtains rows where "tables db (table_name t) = Some \<lparr>tcols = cs, trows = rows\<rparr>"
    "list_all2 (row_stored cs) (data_of t s) rows" "keys_ok cs rows"
proof -
  have "\<forall>x\<in>set (data_of t s). length x = length cs"
    using assms(3) by (fastforce simp: typed_tuple_def dest: list_all2_lengthD)
  then show thesis using assms(1,2) that by (auto simp: holds_def)
qed

lemma held_keys:
  assumes "holds cfg s db t" and "map_of (table_statements cfg) (table_name t) = Some cs"
    and "\<forall>x\<in>set (data_of t s). typed_tuple cs x" and "distinct (map cname cs)" and "cs = pk ''id'' # cs'"
  shows "\<exists>tb. tables db (table_name t) = Some tb \<and> length (filter (\<lambda>b. id_of b = Some (VInt k)) (bindings a tb))
    = (if k \<in> set (traced_ids (data_of t s)) then 1 else 0)"
proof -
  obtain rows where r: "tables db (table_name t) = Some \<lparr>tcols = cs, trows = rows\<rparr>"
    "list_all2 (row_stored cs) (data_of t s) rows" "keys_ok cs rows"
    by (rule held_rows [OF assms(1-3)])
  then show ?thesis using key_count [OF r(2) assms(3-5) r(3)] by blast
qed

text \<open>One row of the view's FROM clause.\<close>

lemma eq_id: "eq_value (case w of None \<Rightarrow> VNull | Some v \<Rightarrow> v) (VInt k) = VBool True \<longleftrightarrow> w = Some (VInt k)"
  by (auto simp: eq_value_def split: option.split)

lemma switches_view_kept:
  assumes "b = (''context_switches'', z, i)"
    and "map_of z ''thread_out_id'' = Some (VInt k1)" "map_of z ''thread_in_id'' = Some (VInt k2)"
      "map_of z ''comm_out_id'' = Some (VInt k3)" "map_of z ''comm_in_id'' = Some (VInt k4)"
    and "l \<in> set (from_rows T (tl (from_list context_switches_view)))"
  shows "kept F T context_switches_view (b # l) \<longleftrightarrow> match_ids [k1, k2, k3, k4] l"
proof -
  have "map fst l = [''th_out'', ''th_in'', ''comm_out'', ''comm_in'']"
    using from_rows_aliases [OF assms(6)] by (simp add: context_switches_view_def)
  then obtain p1 p2 p3 p4 where "l = [(''th_out'', p1), (''th_in'', p2), (''comm_out'', p3), (''comm_in'', p4)]"
    by (auto simp: map_eq_Cons_conv)
  then show ?thesis
    by (cases p1; cases p2; cases p3; cases p4)
      (simp add: kept_def context_switches_view_def assms(1-5) eq_id id_of_def)
qed

lemma switches_view_items:
  fixes g :: "expr \<Rightarrow> val"
  defines "f \<equiv> field (outputs context_switches_view) (map (\<lambda>i. g (fst i)) (items context_switches_view))"
  shows "f ''time'' = g (QCol ''context_switches'' ''time'')"
  unfolding f_def outputs_def field_items by (simp add: context_switches_view_def)

lemma switch_fields:
  assumes "row_stored context_switches_columns x r" and "typed_tuple context_switches_columns x"
  shows "length r = length context_switches_columns"
    and "map_of (zip (map cname context_switches_columns) r) ''time'' = Some (VInt (cell_int (x ! 2)))"
    and "map_of (zip (map cname context_switches_columns) r) ''thread_out_id'' = Some (VInt (cell_int (x ! 4)))"
    and "map_of (zip (map cname context_switches_columns) r) ''comm_out_id'' = Some (VInt (cell_int (x ! 5)))"
    and "map_of (zip (map cname context_switches_columns) r) ''thread_in_id'' = Some (VInt (cell_int (x ! 6)))"
    and "map_of (zip (map cname context_switches_columns) r) ''comm_in_id'' = Some (VInt (cell_int (x ! 7)))"
proof -
  let ?ns = "map cname context_switches_columns"
  show len: "length r = length context_switches_columns" using assms(1) by (simp add: row_stored_def)
  have d: "distinct ?ns" by (simp add: context_switches_columns_def pk_def col_def)
  have f: "map_of (zip ?ns r) n = Some (VInt (cell_int (x ! j)))"
    if "j < length context_switches_columns" "cname (context_switches_columns ! j) = n"
      "ctype (context_switches_columns ! j) \<in> {C_integer, C_bigint}" for j n
  proof -
    have "int_field ?ns r n = Some (cell_int (x ! j))" by (rule stored_field(1) [OF assms d that])
    then have "field ?ns r n = VInt (cell_int (x ! j))"
      by (cases "field ?ns r n") (simp_all add: int_field_def)
    moreover have "n \<in> set ?ns" using that(1,2) by auto
    ultimately show ?thesis using len map_of_zip_field [of r ?ns n] by simp
  qed
  show "map_of (zip ?ns r) ''time'' = Some (VInt (cell_int (x ! 2)))"
    "map_of (zip ?ns r) ''thread_out_id'' = Some (VInt (cell_int (x ! 4)))"
    "map_of (zip ?ns r) ''comm_out_id'' = Some (VInt (cell_int (x ! 5)))"
    "map_of (zip ?ns r) ''thread_in_id'' = Some (VInt (cell_int (x ! 6)))"
    "map_of (zip ?ns r) ''comm_in_id'' = Some (VInt (cell_int (x ! 7)))"
    by (rule f; simp add: context_switches_columns_def pk_def col_def)+
qed

text \<open>What one traced switch contributes to the view.\<close>

lemma switch_survives:
  assumes "holds cfg s db T_threads" and "holds cfg s db T_comms"
    and "collect cfg evs = Inr s" and "switches_typed evs"
    and "row_stored context_switches_columns x r" and "typed_tuple context_switches_columns x"
    and b: "b = (''context_switches'', zip (map cname context_switches_columns) r, i)"
  shows "map (\<lambda>l. field (outputs context_switches_view)
        (map (\<lambda>i. eval F (tables db) [b # l] (fst i)) (items context_switches_view)) ''time'')
      (filter (\<lambda>l. kept F (tables db) context_switches_view (b # l))
        (from_rows (tables db) (tl (from_list context_switches_view))))
    = (if switch_known evs x then [VInt (cell_int (x ! 2))] else [])"
proof -
  note fields = switch_fields [OF assms(5,6)]
  let ?js = "tl (from_list context_switches_view)"
  let ?ks = "[cell_int (x ! 4), cell_int (x ! 6), cell_int (x ! 5), cell_int (x ! 7)]"
  have kept: "filter (\<lambda>l. kept F (tables db) context_switches_view (b # l)) (from_rows (tables db) ?js)
      = filter (match_ids ?ks) (from_rows (tables db) ?js)"
    by (rule filter_cong [OF refl], rule switches_view_kept [OF b fields(3,5,4,6)]) simp
  have time: "field (outputs context_switches_view)
      (map (\<lambda>i. eval F (tables db) [b # l] (fst i)) (items context_switches_view)) ''time'' = VInt (cell_int (x ! 2))" for l
    unfolding switches_view_items by (simp add: b fields(2))
  have typed: "\<forall>x\<in>set (data_of T_threads s). typed_tuple threads_columns x" "\<forall>x\<in>set (data_of T_comms s). typed_tuple comms_columns x"
    using assms(4) by (auto simp: collected_names [OF assms(3)] switches_typed_def list_all_iff typed_tuple_def ints_def
        unknown_def threads_columns_def comms_columns_def pk_def col_def)
  have ids: "set (traced_ids (data_of T_threads s)) = known_ids T_threads evs" "set (traced_ids (data_of T_comms s)) = known_ids T_comms evs"
    by (simp_all add: collected_names [OF assms(3)] known_ids_def traced_ids_def ints_def cell_int_def)
  let ?n = "\<lambda>t k. if k \<in> known_ids t evs then 1 else 0 :: nat"
  have st: "map_of (table_statements cfg) (table_name T_threads) = Some threads_columns"
    "map_of (table_statements cfg) (table_name T_comms) = Some comms_columns" by (simp_all add: table_statements_def)
  have th: "\<exists>tb. tables db ''threads'' = Some tb \<and> length (filter (\<lambda>b. id_of b = Some (VInt k)) (bindings a tb)) = ?n T_threads k" for k a
    using held_keys [OF assms(1) st(1) typed(1)] by (auto simp: ids threads_columns_def pk_def col_def)
  have co: "\<exists>tb. tables db ''comms'' = Some tb \<and> length (filter (\<lambda>b. id_of b = Some (VInt k)) (bindings a tb)) = ?n T_comms k" for k a
    using held_keys [OF assms(2) st(2) typed(2)] by (auto simp: ids comms_columns_def pk_def col_def)
  have "length (filter (match_ids ?ks) (from_rows (tables db) ?js))
      = ?n T_threads (x4) * (?n T_threads x6 * (?n T_comms x5 * ?n T_comms x7))" if "x4 = cell_int (x ! 4)" "x6 = cell_int (x ! 6)" "x5 = cell_int (x ! 5)" "x7 = cell_int (x ! 7)" for x4 x5 x6 x7
    using from_rows_matches [of "tables db" ?js "[(x4, ?n T_threads x4), (x6, ?n T_threads x6), (x5, ?n T_comms x5), (x7, ?n T_comms x7)]"]
      th co by (simp add: context_switches_view_def that)
  then have "length (filter (match_ids ?ks) (from_rows (tables db) ?js)) = (if switch_known evs x then 1 else 0)"
    by (simp add: switch_known_def)
  then show ?thesis unfolding kept time by (auto simp: map_replicate_const)
qed

lemma switches_statement:
  "map_of (table_statements cfg) (table_name T_context_switches) = Some context_switches_columns"
  by (simp add: table_statements_def)

lemma switches_view_exported:
  assumes "export can_open conv hp argv evs = Inr db" and "faithful conv" and "tuples T_context_switches evs \<noteq> []"
  obtains cfg s where "collect cfg evs = Inr s" "holds cfg s db T_threads" "holds cfg s db T_comms"
    "holds cfg s db T_context_switches" "tables db ''context_switches_view'' = None"
    "views db ''context_switches_view'' = Some context_switches_view"
proof -
  obtain cfg s where s: "collect cfg evs = Inr s" "\<forall>t. t \<notin> set optional_tables \<longrightarrow> holds cfg s db t"
      "\<forall>t\<in>set optional_tables. data_of t s \<noteq> [] \<longrightarrow> holds cfg s db t"
      "\<forall>n. n \<notin> dropped_views (empty_list s) \<longrightarrow> views db n = map_of (view_statements hp cfg) n"
      "\<forall>n. n \<notin> range table_name \<or> n \<in> dropped_tables (empty_list s) \<longrightarrow> tables db n = None"
    using exported_tables [OF assms(2,1)] by metis
  have ne: "data_of T_context_switches s \<noteq> []" using assms(3) by (simp add: collected_names(3) [OF s(1)])
  then have "''context_switches_view'' \<notin> dropped_views (empty_list s)"
    using empty_list_name [of s T_context_switches]
    by (auto simp: dropped_views_def view_names_def dropped_tables_def only_if_def power_names_def split: if_splits)
  then have "views db ''context_switches_view'' = Some context_switches_view"
    using s(4) by (simp add: view_statements_def)
  moreover have "''context_switches_view'' \<noteq> table_name t" for t by (cases t) simp_all
  then have "tables db ''context_switches_view'' = None" using s(5) by blast
  ultimately show thesis using s(1,2) s(3) ne by (intro that) (auto simp: optional_tables_def)
qed

lemma switches_view_values:
  assumes "faithful conv" and "export can_open conv hp argv evs = Inr db" and "switches_typed evs"
    and "tuples T_context_switches evs \<noteq> []"
  shows "\<exists>ns rows. select_all F db ''context_switches_view'' = Some (ns, rows)
    \<and> map (\<lambda>r. field ns r ''time'') rows = map (\<lambda>x. VInt (cell_int (x ! 2))) (filter (switch_known evs) (tuples T_context_switches evs))"
proof -
  obtain cfg s where s: "collect cfg evs = Inr s" "holds cfg s db T_threads" "holds cfg s db T_comms"
    "holds cfg s db T_context_switches" "tables db ''context_switches_view'' = None"
    "views db ''context_switches_view'' = Some context_switches_view"
    by (rule switches_view_exported [OF assms(2,1,4)])
  let ?cs = context_switches_columns and ?data = "tuples T_context_switches evs" and ?v = context_switches_view
  have typed: "\<forall>x\<in>set ?data. typed_tuple ?cs x" using assms(3) by (simp add: switches_typed_def list_all_iff)
  obtain rows where rows: "tables db ''context_switches'' = Some \<lparr>tcols = ?cs, trows = rows\<rparr>"
      "list_all2 (row_stored ?cs) ?data rows"
    using held_rows [OF s(4) switches_statement] typed unfolding collected_names(3) [OF s(1)] by auto
  let ?f = "\<lambda>b. map (\<lambda>l. field (outputs ?v) (map (\<lambda>i. eval F (tables db) [b # l] (fst i)) (items ?v)) ''time'')
      (filter (\<lambda>l. kept F (tables db) ?v (b # l)) (from_rows (tables db) (tl (from_list ?v))))"
  let ?bs = "bindings ''context_switches'' \<lparr>tcols = ?cs, trows = rows\<rparr>"
  have "list_all2 (\<lambda>x b. ?f b = (if switch_known evs x then [VInt (cell_int (x ! 2))] else [])) ?data ?bs"
  proof (rule list_all2_all_nthI)
    show len: "length ?data = length ?bs" using list_all2_lengthD [OF rows(2)] by (simp add: bindings_def)
    fix j assume j: "j < length ?data"
    have stored: "row_stored ?cs (?data ! j) (rows ! j)" by (rule list_all2_nthD [OF rows(2) j])
    have "?bs ! j = (''context_switches'', zip (map cname ?cs) (rows ! j), j)"
      using j len by (simp add: bindings_def nth_enumerate_eq)
    from switch_survives [OF s(2,3,1) assms(3) stored _ this] typed j
    show "?f (?bs ! j) = (if switch_known evs (?data ! j) then [VInt (cell_int (?data ! j ! 2))] else [])"
      by (meson nth_mem)
  qed
  from concat_survivors [OF this]
  have "concat (map ?f ?bs) = map (\<lambda>x. VInt (cell_int (x ! 2))) (filter (switch_known evs) ?data)" .
  moreover have "from_list ?v = (''context_switches'', ''context_switches'') # tl (from_list ?v)"
    by (simp add: context_switches_view_def)
  from view_rows_joined [where db = db, OF this rows(1)]
  have "map (\<lambda>r. field (outputs ?v) r ''time'') (view_rows F db ?v) = concat (map ?f ?bs)"
    by (simp add: map_concat comp_def)
  ultimately show ?thesis by (simp add: select_all_def s(5,6))
qed

lemma no_switches_view:
  assumes "export can_open conv hp argv evs = Inr db" and "tuples T_context_switches evs = []"
  shows "select_all F db ''context_switches_view'' = None"
proof -
  obtain cfg s where s: "collect cfg evs = Inr s" "trace_end conv s (schema_db hp cfg) = Inr db"
    using assms(1) by (auto simp: export_def bind_res_Inr_iff init_db_eq)
  obtain mid where mid: "insert_all conv s (schema_db hp cfg) = Inr mid"
      "db = (hide (dropped_tables (empty_list s)) (dropped_views (empty_list s)) mid)\<lparr>is_open := False\<rparr>"
    using s(2) by (auto simp: trace_end_schema)
  have "empty_list s ''context_switches''"
    using empty_list_name [of s T_context_switches] assms(2) by (simp add: collected_names(3) [OF s(1)])
  then have "''context_switches_view'' \<in> dropped_views (empty_list s)"
    by (simp add: dropped_views_def view_names_def dropped_tables_def only_if_def power_names_def)
  moreover have "''context_switches_view'' \<noteq> table_name t" for t by (cases t) simp_all
  then have "tables mid ''context_switches_view'' = None"
    using mid(1) [unfolded insert_all_schema] by blast
  ultimately show ?thesis by (simp add: select_all_def mid(2))
qed

text \<open>C21: The notebook sees a traced context switch exactly once if the threads and command names of both
  sides are known, and not at all otherwise, in the order of the trace; without any traced switch the
  view does not exist. The rows \<open>trace_begin\<close> adds make the id 0, perf's unknown, one of the known.\<close>

theorem switches_view_exact:
  assumes "faithful conv" and "export can_open conv hp argv evs = Inr db" and "switches_typed evs"
  shows "switch_times_input F db = (if tuples T_context_switches evs = [] then None
    else Some (map (\<lambda>x. Some (cell_int (x ! 2))) (filter (switch_known evs) (tuples T_context_switches evs))))"
proof (cases "tuples T_context_switches evs = []")
  case True
  then show ?thesis using no_switches_view [OF assms(2)] by (simp add: switch_times_input_def)
next
  case False
  obtain ns rows where r: "select_all F db ''context_switches_view'' = Some (ns, rows)"
    "map (\<lambda>r. field ns r ''time'') rows = map (\<lambda>x. VInt (cell_int (x ! 2))) (filter (switch_known evs) (tuples T_context_switches evs))"
    using switches_view_values [OF assms False, of F] by blast
  have "map (\<lambda>r. int_field ns r ''time'') rows = map int_value (map (\<lambda>r. field ns r ''time'') rows)"
    by (simp add: int_field_def)
  then show ?thesis using False r(1) unfolding r(2) by (simp add: switch_times_input_def comp_def)
qed

lemma demo_switches: "switches_typed demo_trace" "tuples T_context_switches demo_trace \<noteq> []"
    "map (\<lambda>x. Some (cell_int (x ! 2))) (filter (switch_known demo_trace) (tuples T_context_switches demo_trace)) = [Some 55]"
  by (simp_all add: switches_typed_def demo_trace_def tuples_def typed_tuple_def ints_def context_switches_columns_def pk_def col_def
      switch_known_def known_ids_def traced_ids_def cell_int_def)

theorem switches_view_exact_witness:
  "\<exists>db. export (\<lambda>_. False) demo_conv False demo_argv demo_trace = Inr db
     \<and> (\<forall>F. switch_times_input F db = Some [Some 55])"
proof -
  obtain db where db: "export (\<lambda>_. False) demo_conv False demo_argv demo_trace = Inr db"
    using demo_trace_export by blast
  from switches_view_exact [OF demo_conv_faithful db demo_switches(1)] demo_switches(2,3) db show ?thesis by simp
qed

end
