(* ===== verification/Harness.thy ===== *)
theory Harness
  imports Prelude
begin

text \<open>
  \<open>harness/harness.py\<close>: the paths and command lines of a trial, its background processes, the
  sequence \<open>run\<close> performs, and the module's \<open>main\<close>. The operating system is a parameter
  (\<open>harness_env\<close>): which files and processes can be opened and started, what finishes first, and
  whether a terminated process ends.
\<close>

section \<open>Paths\<close>

text \<open>POSIX \<open>os.path.join\<close> of two components.\<close>

definition path_join :: "string \<Rightarrow> string \<Rightarrow> string" where
  "path_join a b =
     (if b \<noteq> [] \<and> hd b = CHR ''/'' then b
      else if a = [] \<or> last a = CHR ''/'' then a @ b
      else a @ ''/'' @ b)"

definition host_templates_path :: string where
  "host_templates_path = ''./templates''"

definition CONTAINER_WORKSPACE_PATH :: string where
  "CONTAINER_WORKSPACE_PATH = ''/workspace''"

definition container_volume_path :: string where
  "container_volume_path = path_join CONTAINER_WORKSPACE_PATH ''volume''"

definition container_templates_path :: string where
  "container_templates_path = path_join container_volume_path ''templates''"

definition container_output_path :: string where
  "container_output_path = path_join (path_join container_volume_path ''volume'') ''output''"

section \<open>Trial, the first class of that name\<close>

record trial =
  driver_name :: string
  num_clients :: int
  server_sleep_duration_millis :: int
  test_duration_str :: string

definition trial_name :: "trial \<Rightarrow> string" where
  "trial_name t = ''numClients-'' @ str_int (num_clients t)
     @ ''_serverSleepDurationMillis-'' @ str_int (server_sleep_duration_millis t)
     @ ''_driver-'' @ driver_name t"

definition create_template_name :: "trial \<Rightarrow> string \<Rightarrow> string" where
  "create_template_name t mode = ''driver-'' @ driver_name t @ ''_mode-'' @ mode"

definition create_container_name :: "trial \<Rightarrow> string \<Rightarrow> string" where
  "create_container_name t mode = trial_name t @ ''_mode-'' @ mode"

definition create_args :: "trial \<Rightarrow> string \<Rightarrow> string list" where
  "create_args t mode =
     [''docker'', ''run'',
      ''--name'', create_container_name t mode,
      ''--mount'', ''type=volume,source=harness_vol,destination='' @ container_volume_path,
      ''--mount'', ''type=bind,source='' @ host_templates_path @ '',destination='' @ container_templates_path @ '',readonly'',
      ''harness:1'',
      ''--input'', path_join container_templates_path (create_template_name t mode) @ ''.json'',
      ''--outputDir'', path_join (path_join container_output_path (trial_name t)) mode,
      ''--numClients'', str_int (num_clients t),
      ''--serverSleepDurationMillis'', str_int (server_sleep_duration_millis t)]"

definition create_server_args :: "trial \<Rightarrow> string list" where
  "create_server_args t = create_args t ''server''"

definition create_client_args :: "trial \<Rightarrow> string list" where
  "create_client_args t = create_args t ''client'' @ [''--testDuration'', test_duration_str t]"

section \<open>Processes\<close>

record process =
  proc_args :: "string list"
  running :: bool
  terminated :: bool

record world =
  dirs :: "string list"
  open_files :: "string list"
  procs :: "process list"
  printed :: "string list"

text \<open>
  What finishes first within the 15 seconds: the label of the future, and its result or the text of
  its exception; \<open>None\<close> is the timeout.
\<close>

record harness_env =
  openable :: "string \<Rightarrow> bool"
  startable :: "string list \<Rightarrow> bool"
  signal_future :: "py_error option"
  first_done :: "(string \<times> (string + string)) option"
  ends_on_sigterm :: "string list \<Rightarrow> bool"
  returncode :: "string list \<Rightarrow> int"
  file_text :: "string \<Rightarrow> string option"

type_synonym 'a effect = "world \<Rightarrow> 'a result \<times> world"

definition bind_io :: "'a effect \<Rightarrow> ('a \<Rightarrow> 'b effect) \<Rightarrow> 'b effect" where
  "bind_io m k w = (case m w of (Inl e, w') \<Rightarrow> (Inl e, w') | (Inr x, w') \<Rightarrow> k x w')"

definition print_text :: "string \<Rightarrow> unit effect" where
  "print_text s w = (Inr (), w\<lparr>printed := printed w @ [s]\<rparr>)"

definition makedirs :: "string \<Rightarrow> unit effect" where
  "makedirs d w = (Inr (), w\<lparr>dirs := (if d \<in> set (dirs w) then dirs w else d # dirs w)\<rparr>)"

record bg_process =
  bg_index :: nat
  bg_output :: string
  bg_label :: string

text \<open>\<open>BgProcess.__init__\<close>: the file is opened before the process is started.\<close>

definition start_bg_process :: "harness_env \<Rightarrow> string \<Rightarrow> string \<Rightarrow> string list \<Rightarrow> bg_process effect" where
  "start_bg_process env output_path future_label args w =
     (if \<not> openable env output_path then (Inl OSError, w)
      else if \<not> startable env args then (Inl OSError, w\<lparr>open_files := output_path # open_files w\<rparr>)
      else (Inr \<lparr>bg_index = length (procs w), bg_output = output_path, bg_label = future_label\<rparr>,
            w\<lparr>open_files := output_path # open_files w,
              procs := procs w @ [\<lparr>proc_args = args, running = True, terminated = False\<rparr>]\<rparr>))"

text \<open>The done callback is a lambda without parameters; the executor calls it with the future, and
  logs and drops the exception.\<close>

definition close_out_file :: "bg_process \<Rightarrow> nat \<Rightarrow> unit effect" where
  "close_out_file p n_args w =
     (if n_args = 0 then (Inr (), w\<lparr>open_files := remove1 (bg_output p) (open_files w)\<rparr>) else (Inl TypeError, w))"

definition future_done :: "bg_process \<Rightarrow> world \<Rightarrow> world" where
  "future_done p w = snd (close_out_file p 1 w)"

definition close_bg :: "bg_process \<Rightarrow> unit effect" where
  "close_bg p w = (Inr (), w\<lparr>procs := (procs w)[bg_index p := (procs w ! bg_index p)\<lparr>terminated := True\<rparr>]\<rparr>)"

text \<open>\<open>concurrent.futures.wait\<close>: \<open>None\<close> if a process does not end.\<close>

definition wait_for :: "harness_env \<Rightarrow> bg_process list \<Rightarrow> world \<Rightarrow> world option" where
  "wait_for env ps w =
     (if list_all (\<lambda>p. let q = procs w ! bg_index p in running q \<longrightarrow> terminated q \<and> ends_on_sigterm env (proc_args q)) ps
      then Some (fold (\<lambda>p w. future_done p
          (w\<lparr>procs := (procs w)[bg_index p := (procs w ! bg_index p)\<lparr>running := False\<rparr>]\<rparr>)) ps w)
      else None)"

definition handle_first_completion :: "string \<times> (string + string) \<Rightarrow> unit effect" where
  "handle_first_completion f = (case f of
      (label, Inl exc) \<Rightarrow> print_text (''exception in '' @ label @ '':'' @ [CHR 0x0A] @ exc)
    | (label, Inr res) \<Rightarrow> print_text (label @ '': '' @ res))"

definition handle_timeout :: "unit effect" where
  "handle_timeout = print_text ''timed out''"

section \<open>run\<close>

text \<open>The process whose future completed has ended.\<close>

definition mark_finished :: "bg_process list \<Rightarrow> string \<Rightarrow> world \<Rightarrow> world" where
  "mark_finished ps label w =
     fold (\<lambda>p w. if bg_label p = label
         then w\<lparr>procs := (procs w)[bg_index p := (procs w ! bg_index p)\<lparr>running := False\<rparr>]\<rparr> else w) ps w"

definition wait_first :: "harness_env \<Rightarrow> bg_process list \<Rightarrow> unit effect" where
  "wait_first env ps w = (case first_done env of
      None \<Rightarrow> handle_timeout w
    | Some f \<Rightarrow> handle_first_completion f (mark_finished ps (fst f) w))"

definition start_both :: "harness_env \<Rightarrow> trial \<Rightarrow> string \<Rightarrow> (bg_process \<times> bg_process) effect" where
  "start_both env t process_output_dir =
     bind_io (makedirs (path_join process_output_dir (trial_name t))) (\<lambda>_.
     bind_io (start_bg_process env (path_join (path_join process_output_dir (trial_name t)) ''server'') ''server''
       (create_server_args t)) (\<lambda>server_p.
     bind_io (start_bg_process env (path_join (path_join process_output_dir (trial_name t)) ''client'') ''client''
       (create_client_args t)) (\<lambda>client_p w.
       (case signal_future env of Some e \<Rightarrow> (Inl e, w) | None \<Rightarrow> (Inr (server_p, client_p), w)))))"

text \<open>The \<open>finally\<close> block covers the wait only. \<open>None\<close>: the last wait does not return.\<close>

definition run_trial :: "harness_env \<Rightarrow> trial \<Rightarrow> string \<Rightarrow> world \<Rightarrow> (unit result \<times> world) option" where
  "run_trial env t process_output_dir w =
     (case start_both env t process_output_dir w of
        (Inl e, w) \<Rightarrow> Some (Inl e, w)
      | (Inr (server_p, client_p), w) \<Rightarrow>
          (case wait_first env [server_p, client_p] w of (r, w) \<Rightarrow>
             (case bind_io (close_bg client_p) (\<lambda>_. close_bg server_p) w of (_, w) \<Rightarrow>
                map_option (\<lambda>w. (r, w)) (wait_for env [server_p, client_p] w))))"

definition check_run :: "harness_env \<Rightarrow> string list \<Rightarrow> unit effect" where
  "check_run env args w =
     (if \<not> startable env args then (Inl OSError, w)
      else if returncode env args = 0 then (Inr (), w) else (Inl (PlainException ''CalledProcessError''), w))"

definition copy_docker_volume :: "harness_env \<Rightarrow> trial \<Rightarrow> string \<Rightarrow> unit effect" where
  "copy_docker_volume env t destination_path =
     check_run env [''docker'', ''cp'', create_container_name t ''server'' @ '':'' @ container_output_path, destination_path]"

definition read_client_metrics :: "harness_env \<Rightarrow> (string \<Rightarrow> 'j result) \<Rightarrow> trial \<Rightarrow> string \<Rightarrow> 'j effect" where
  "read_client_metrics env json_loads t destination_path w =
     (case file_text env (path_join (path_join (path_join destination_path (trial_name t)) ''client'') ''0-stdout'') of
        None \<Rightarrow> (Inl OSError, w)
      | Some text \<Rightarrow> (json_loads text, w))"

definition close_trial :: "harness_env \<Rightarrow> trial \<Rightarrow> unit effect" where
  "close_trial env t =
     check_run env [''docker'', ''rm'', create_container_name t ''server'', create_container_name t ''client'']"

section \<open>The second class, and main\<close>

text \<open>
  The module binds \<open>Trial\<close> twice; the later class wins. Its only method calls two methods it does
  not have. A class is its name, the parameters of \<open>__init__\<close> besides \<open>self\<close>, and its methods.
\<close>

record py_class =
  class_name :: string
  init_params :: "string list"
  methods :: "string list"

definition class_bindings :: "py_class list" where
  "class_bindings =
     [\<lparr>class_name = ''BgProcess'',
       init_params = [''output_path'', ''executor'', ''future_label'', ''popen_args'', ''popen_kwargs''],
       methods = [''future'', ''close'']\<rparr>,
      \<lparr>class_name = ''Trial'',
       init_params = [''driver_name'', ''num_clients'', ''server_sleep_duration_millis'', ''test_duration_str''],
       methods = [''_create_template_name'', ''create_container_name'', ''_create_args'', ''_create_server_args'',
         ''_create_client_args'', ''run'', ''_handle_first_completion'', ''_handle_timeout'', ''copy_docker_volume'',
         ''read_client_metrics'', ''close'']\<rparr>,
      \<lparr>class_name = ''Trial'',
       init_params = [''server_driver'', ''server_sleep_duration_millis'', ''client_driver'', ''client_num_clients'',
         ''test_duration_secs''],
       methods = [''_create_server_args'']\<rparr>]"

definition module_names :: "string list" where
  "module_names = [''concurrent'', ''json'', ''os'', ''subprocess'', ''threading'', ''time'', ''traceback''] @
     map class_name class_bindings @
     [''host_templates_path'', ''host_output_path'', ''CONTAINER_WORKSPACE_PATH'', ''container_volume_path'',
      ''container_templates_path'', ''container_output_path'', ''main'']"

definition lookup_class :: "string \<Rightarrow> py_class option" where
  "lookup_class n = find (\<lambda>k. class_name k = n) (rev class_bindings)"

definition call_class :: "string \<Rightarrow> nat \<Rightarrow> py_class result" where
  "call_class n n_args = (case lookup_class n of
      None \<Rightarrow> Inl (NameError n)
    | Some k \<Rightarrow> if n_args = length (init_params k) then Inr k else Inl TypeError)"

definition call_method :: "py_class \<Rightarrow> string \<Rightarrow> unit result" where
  "call_method k m = (if m \<in> set (methods k) then Inr () else Inl (AttributeError m))"

text \<open>An object of the second class: it keeps its arguments, and once more as a dict.\<close>

datatype py_value = PyStr string | PyInt int

record second_trial =
  second_server_driver :: py_value
  second_sleep_millis :: py_value
  second_client_driver :: py_value
  second_num_clients :: py_value
  second_duration_secs :: py_value
  trial_config :: "(string \<times> py_value) list"

definition init_second_trial :: "py_value \<Rightarrow> py_value \<Rightarrow> py_value \<Rightarrow> py_value \<Rightarrow> py_value \<Rightarrow> second_trial" where
  "init_second_trial server sleep client clients secs =
     \<lparr>second_server_driver = server, second_sleep_millis = sleep, second_client_driver = client,
      second_num_clients = clients, second_duration_secs = secs,
      trial_config = [(''server_driver'', server), (''server_sleep_duration_millis'', sleep),
        (''client_driver'', client), (''client_num_clients'', clients), (''test_duration_secs'', secs)]\<rparr>"

text \<open>\<open>_create_server_args\<close> of the second class: its first two statements.\<close>

definition second_create_server_args :: "py_class \<Rightarrow> unit result" where
  "second_create_server_args k =
     bind_res (call_method k ''_create_template_name'') (\<lambda>_. call_method k ''create_container_name'')"

text \<open>\<open>main\<close> up to the \<open>try\<close>; \<open>extra\<close> are names defined elsewhere, none in the program.\<close>

definition main_prefix :: "string list \<Rightarrow> string \<Rightarrow> py_class effect" where
  "main_prefix extra pid =
     bind_io (print_text (''this pid: '' @ pid)) (\<lambda>_ w.
       if ''SignalManager'' \<in> set (module_names @ extra) then (call_class ''Trial'' 4, w)
       else (Inl (NameError ''SignalManager''), w))"

text \<open>
  The rest of \<open>main\<close> as it is written, for the object its author had in mind (of the first class,
  with a signal manager): the \<open>finally\<close> block removes the containers and closes the manager whatever
  the trial did, and an error raised there replaces the trial's. \<open>None\<close>: \<open>run\<close> does not return.
\<close>

definition main_trial :: trial where
  "main_trial = \<lparr>driver_name = ''java'', num_clients = 20, server_sleep_duration_millis = 0, test_duration_str = ''10s''\<rparr>"

definition main_try :: "harness_env \<Rightarrow> world \<Rightarrow> (unit result \<times> world) option" where
  "main_try env w = map_option (\<lambda>(r, w). case r of
      Inl e \<Rightarrow> (Inl e, w)
    | Inr _ \<Rightarrow> copy_docker_volume env main_trial ''trial_output'' w)
    (run_trial env main_trial ''docker_output/'' w)"

definition main_finally :: "harness_env \<Rightarrow> py_error option \<Rightarrow> unit effect" where
  "main_finally env manager_error = bind_io (close_trial env main_trial) (\<lambda>_ w.
     (case manager_error of Some e \<Rightarrow> (Inl e, w) | None \<Rightarrow> (Inr (), w)))"

definition main_body ::
  "harness_env \<Rightarrow> py_error option \<Rightarrow> (string \<Rightarrow> 'j result) \<Rightarrow> ('j \<Rightarrow> string result) \<Rightarrow> world \<Rightarrow> (unit result \<times> world) option" where
  "main_body env manager_error json_loads count_text w =
     map_option (\<lambda>(r, w). bind_io (main_finally env manager_error) (\<lambda>_ w. case r of
         Inl e \<Rightarrow> (Inl e, w)
       | Inr _ \<Rightarrow> bind_io (read_client_metrics env json_loads main_trial ''trial_output/'') (\<lambda>d w.
           (case count_text d of Inl e \<Rightarrow> (Inl e, w) | Inr t \<Rightarrow> print_text (''count: '' @ t) w)) w) w)
       (main_try env w)"

end
