(* ===== verification/Harness_Props.thy ===== *)
theory Harness_Props
  imports Harness
begin

text \<open>
  What the harness does to processes and files in every environment, the uniqueness of container
  names, and why \<open>main\<close> never reaches a trial.
\<close>

section \<open>Lemmas\<close>

lemma split_at_unique: "c \<notin> set a \<Longrightarrow> c \<notin> set b \<Longrightarrow> a @ c # x = b @ c # y \<longleftrightarrow> a = b \<and> x = y"
  by (induction a arbitrary: b) (case_tac b; auto)+

lemma trial_name_inj:
  "trial_name t @ x = trial_name t' @ x' \<Longrightarrow> num_clients t = num_clients t'
     \<and> server_sleep_duration_millis t = server_sleep_duration_millis t' \<and> driver_name t @ x = driver_name t' @ x'"
  using str_int_no_underscore by (auto simp: trial_name_def split_at_unique dest!: str_int_inj)

lemma bind_io_Inr_iff: "bind_io m k w = (Inr y, w') \<longleftrightarrow> (\<exists>x v. m w = (Inr x, v) \<and> k x v = (Inr y, w'))"
  by (auto simp: bind_io_def split: prod.split sum.split)

definition server_output :: "trial \<Rightarrow> string \<Rightarrow> string" where
  "server_output t d = path_join (path_join d (trial_name t)) ''server''"

definition client_output :: "trial \<Rightarrow> string \<Rightarrow> string" where
  "client_output t d = path_join (path_join d (trial_name t)) ''client''"

lemma start_both_ok_iff:
  "start_both env t d w = (Inr (p, q), w') \<longleftrightarrow>
     openable env (server_output t d) \<and> startable env (create_server_args t)
     \<and> openable env (client_output t d) \<and> startable env (create_client_args t) \<and> signal_future env = None
     \<and> p = \<lparr>bg_index = length (procs w), bg_output = server_output t d, bg_label = ''server''\<rparr>
     \<and> q = \<lparr>bg_index = Suc (length (procs w)), bg_output = client_output t d, bg_label = ''client''\<rparr>
     \<and> w' = (snd (makedirs (path_join d (trial_name t)) w))\<lparr>
         open_files := client_output t d # server_output t d # open_files w,
         procs := procs w @ [\<lparr>proc_args = create_server_args t, running = True, terminated = False\<rparr>,
            \<lparr>proc_args = create_client_args t, running = True, terminated = False\<rparr>]\<rparr>"
  by (auto simp: start_both_def bind_io_Inr_iff makedirs_def start_bg_process_def server_output_def client_output_def
      split: if_splits option.splits)

text \<open>A started trial, step by step.\<close>

definition outcome_text :: "harness_env \<Rightarrow> string" where
  "outcome_text env = (case first_done env of
      None \<Rightarrow> ''timed out''
    | Some (label, Inl exc) \<Rightarrow> ''exception in '' @ label @ '':'' @ [CHR 0x0A] @ exc
    | Some (label, Inr res) \<Rightarrow> label @ '': '' @ res)"

definition finished_first :: "harness_env \<Rightarrow> string \<Rightarrow> bool" where
  "finished_first env label \<longleftrightarrow> (\<exists>f. first_done env = Some f \<and> fst f = label)"

lemma wait_first_eq:
  "wait_first env ps w = (Inr (), (case first_done env of None \<Rightarrow> w | Some f \<Rightarrow> mark_finished ps (fst f) w)
     \<lparr>printed := printed w @ [outcome_text env]\<rparr>)"
proof -
  have "printed (mark_finished ps l w) = printed w" for l w
    unfolding mark_finished_def by (induction ps arbitrary: w) simp_all
  then show ?thesis
    by (auto simp: wait_first_def handle_timeout_def handle_first_completion_def print_text_def outcome_text_def
        split: option.split sum.split prod.split)
qed

lemma run_trial_started:
  assumes "start_both env t d w = (Inr (p, q), v)"
  shows "run_trial env t d w =
    (if (finished_first env ''server'' \<or> ends_on_sigterm env (create_server_args t))
        \<and> (finished_first env ''client'' \<or> ends_on_sigterm env (create_client_args t))
     then Some (Inr (), v\<lparr>printed := printed v @ [outcome_text env],
       procs := procs w @ [\<lparr>proc_args = create_server_args t, running = False, terminated = True\<rparr>,
         \<lparr>proc_args = create_client_args t, running = False, terminated = True\<rparr>]\<rparr>)
     else None)"
proof -
  have pq: "p = \<lparr>bg_index = length (procs w), bg_output = server_output t d, bg_label = ''server''\<rparr>"
    "q = \<lparr>bg_index = Suc (length (procs w)), bg_output = client_output t d, bg_label = ''client''\<rparr>"
    and v: "procs v = procs w @ [\<lparr>proc_args = create_server_args t, running = True, terminated = False\<rparr>,
        \<lparr>proc_args = create_client_args t, running = True, terminated = False\<rparr>]"
    using assms by (auto simp: start_both_ok_iff)
  show ?thesis
    by (cases "first_done env")
      (auto simp: run_trial_def assms wait_first_eq mark_finished_def bind_io_def close_bg_def wait_for_def
        future_done_def close_out_file_def finished_first_def pq v list_update_append nth_append Let_def)
qed

section \<open>Properties\<close>

text \<open>C35: Once both processes of a trial have been started, \<open>run\<close> leaves none behind: whatever finishes
  first, also on a timeout, both are terminated and have ended when it returns, and it fails to
  return only if a process that has not finished survives SIGTERM. The output files stay open, because
  the done callback cannot be called.\<close>

theorem trial_stops_processes:
  assumes "start_both env t d w = (Inr ps, v)"
  shows "case run_trial env t d w of
      Some (r, w') \<Rightarrow> r = Inr () \<and> procs w' = procs w @
          [\<lparr>proc_args = create_server_args t, running = False, terminated = True\<rparr>,
           \<lparr>proc_args = create_client_args t, running = False, terminated = True\<rparr>]
        \<and> open_files w' = client_output t d # server_output t d # open_files w
    | None \<Rightarrow> \<not> finished_first env ''server'' \<and> \<not> ends_on_sigterm env (create_server_args t)
        \<or> \<not> finished_first env ''client'' \<and> \<not> ends_on_sigterm env (create_client_args t)"
proof (cases ps)
  case (Pair p q)
  with assms have s: "start_both env t d w = (Inr (p, q), v)" by simp
  then have "open_files v = client_output t d # server_output t d # open_files w" by (simp add: start_both_ok_iff)
  then show ?thesis unfolding run_trial_started [OF s] by auto
qed

definition demo_trial :: trial where
  "demo_trial = \<lparr>driver_name = ''java'', num_clients = 20, server_sleep_duration_millis = 0, test_duration_str = ''10s''\<rparr>"

definition demo_env :: harness_env where
  "demo_env = \<lparr>openable = (\<lambda>_. True), startable = (\<lambda>_. True), signal_future = None,
     first_done = Some (''client'', Inr ''0''), ends_on_sigterm = (\<lambda>_. True), returncode = (\<lambda>_. 0), file_text = (\<lambda>_. None)\<rparr>"

definition no_world :: world where
  "no_world = \<lparr>dirs = [], open_files = [], procs = [], printed = []\<rparr>"

theorem trial_stops_processes_witness:
  "\<exists>w'. run_trial demo_env demo_trial ''docker_output/'' no_world = Some (Inr (), w')
     \<and> map running (procs w') = [False, False] \<and> length (open_files w') = 2"
proof -
  have "\<exists>ps v. start_both demo_env demo_trial ''docker_output/'' no_world = (Inr ps, v)"
    by (simp add: start_both_ok_iff demo_env_def split_paired_Ex)
  then obtain ps v where s: "start_both demo_env demo_trial ''docker_output/'' no_world = (Inr ps, v)" by blast
  from trial_stops_processes [OF this] show ?thesis
    by (auto simp: demo_env_def no_world_def split: option.splits)
qed

text \<open>If the client cannot be started, \<open>run\<close> raises and the server it has just started keeps
  running: the clean-up covers only the wait.\<close>

theorem failed_client_leaves_server:
  assumes "openable env (server_output t d)" and "startable env (create_server_args t)"
    and "\<not> openable env (client_output t d) \<or> \<not> startable env (create_client_args t)"
  shows "\<exists>w'. run_trial env t d w = Some (Inl OSError, w')
    \<and> procs w' = procs w @ [\<lparr>proc_args = create_server_args t, running = True, terminated = False\<rparr>]"
  using assms
  by (auto simp: run_trial_def start_both_def bind_io_def makedirs_def start_bg_process_def server_output_def client_output_def)

theorem failed_client_leaves_server_witness:
  "\<exists>w'. run_trial (demo_env\<lparr>startable := (\<lambda>args. args = create_server_args demo_trial)\<rparr>) demo_trial ''out'' no_world
     = Some (Inl OSError, w') \<and> map running (procs w') = [True]"
proof -
  have "create_client_args demo_trial \<noteq> create_server_args demo_trial"
    by (simp add: create_client_args_def create_server_args_def create_args_def)
  then show ?thesis
    using failed_client_leaves_server [of "demo_env\<lparr>startable := (\<lambda>args. args = create_server_args demo_trial)\<rparr>" demo_trial "''out''" no_world]
    by (auto simp: demo_env_def no_world_def)
qed

text \<open>Container names are unique: the name of a container determines the number of clients, the
  sleep time, the driver and the mode it was built from, so trials of different parameters, and the
  two containers of one trial, never collide.\<close>

theorem container_name_unique:
  assumes "create_container_name t m = create_container_name t' m'"
    and "m \<in> {''client'', ''server''}" and "m' \<in> {''client'', ''server''}"
  shows "m = m' \<and> num_clients t = num_clients t' \<and> server_sleep_duration_millis t = server_sleep_duration_millis t'
    \<and> driver_name t = driver_name t'"
proof -
  have "last (create_container_name t m) = last m" "last (create_container_name t' m') = last m'"
    using assms(2,3) by (auto simp: create_container_name_def)
  with assms have "m = m'" by auto
  have "trial_name t @ (''_mode-'' @ m) = trial_name t' @ (''_mode-'' @ m')"
    using assms(1) by (simp add: create_container_name_def)
  from trial_name_inj [OF this] \<open>m = m'\<close> show ?thesis by simp
qed

theorem container_name_unique_witness:
  "\<not> create_container_name demo_trial ''client'' = create_container_name demo_trial ''server''"
  using container_name_unique [of demo_trial "''client''" demo_trial "''server''"] by auto

text \<open>The module's \<open>main\<close> fails in every environment: \<open>SignalManager\<close> is no name of the module; and
  even if it were one, \<open>Trial\<close> is by then the second class of that name, which takes five
  arguments and not four; and an object of that class cannot build its command line.\<close>

theorem main_fails:
  "fst (main_prefix [] pid w) = Inl (NameError ''SignalManager'')
   \<and> fst (main_prefix [''SignalManager''] pid w) = Inl TypeError
   \<and> (\<forall>k. call_class ''Trial'' 5 = Inr k \<longrightarrow>
        second_create_server_args k = Inl (AttributeError ''_create_template_name''))"
  by (auto simp: main_prefix_def bind_io_def print_text_def module_names_def class_bindings_def call_class_def
      lookup_class_def second_create_server_args_def call_method_def)

theorem main_fails_witness:
  "\<exists>k. call_class ''Trial'' 5 = Inr k \<and> second_create_server_args k = Inl (AttributeError ''_create_template_name'')"
proof -
  have "\<exists>k. call_class ''Trial'' 5 = Inr k"
    by (simp add: call_class_def lookup_class_def class_bindings_def)
  then show ?thesis using main_fails by blast
qed

text \<open>The clean-up of \<open>main\<close> comes before everything the trial reports: \<open>main\<close> prints a count only if
  run, copy, removal and manager all succeeded, and if removing the containers fails, that error
  hides the trial's.\<close>

theorem main_reports:
  assumes "main_try env w = Some (r, v)"
  shows "fst (close_trial env main_trial v) = Inl e \<Longrightarrow>
      map_option fst (main_body env m json_loads count_text w) = Some (Inl e)"
    and "map_option fst (main_body env m json_loads count_text w) = Some (Inr ()) \<Longrightarrow>
      r = Inr () \<and> fst (close_trial env main_trial v) = Inr () \<and> m = None"
  using assms
  by (cases "close_trial env main_trial v";
      auto simp: main_body_def main_finally_def bind_io_def split: sum.splits option.splits prod.splits)+

end
