(* ===== verification/Spec2Isabelle.thy ===== *)
theory Spec2Isabelle
  imports Pipeline Timeline_Props Joined_Views Harness_Props
begin

text \<open>
  Verification library of the trace-analysis programs of should-I-async: \<open>src/intel_proc_trace\<close>
  (exporter, \<open>SqlUtil\<close>, the two notebooks) and the Python harness \<open>src/harness/harness.py\<close>.

  The program. \<open>perf script\<close> runs \<open>export_to_duckdb.py\<close>: the module creates a DuckDB database
  (tables and views), perf calls one callback per decoded record, and \<open>trace_end\<close> loads the
  collected tuples and drops what stayed empty. \<open>iptdataframes/util.py\<close> (class \<open>SqlUtil\<close>) then
  works on that database: \<open>setup\<close> runs \<open>sql/timestamped_ranges.sql\<close> and fixes the plotted stretch,
  \<open>time_series_prep\<close> builds the sliding-window tables and the clock, \<open>cdf_prep\<close> the distributions of
  sample durations, \<open>events_prep\<close> the system calls, context switches and trace overflows. The
  script \<open>pt.ipy\<close> calls these methods in turn and plots the tables; the older notebook \<open>pt.ipynb\<close>
  repeats parts of them in its own queries. The harness runs client and
  server containers and collects their output; it shares no state with the rest.

  Theories, in the order of the imports.

  \<^item> \<open>Prelude\<close>: exceptions and results (\<open>Inl\<close> an error), loops that stop at the first error,
    decimal rendering, slices.
  \<^item> \<open>Rounding\<close>: binary floating point as rounding of rationals (\<open>f32\<close>, \<open>f64\<close>); the locale
    \<open>rounding\<close> is what the numeric lemmas use of it. \<open>Sql\<close>: running sums, LAG, MIN/MAX with NULL,
    and ASOF joins, whose unspecified choice among equal rows is the parameter of the locale
    \<open>asof_engine\<close>.
  \<^item> \<open>Ranges\<close>: \<open>timestamped_ranges.sql\<close>. \<open>Time_Bounds\<close>: \<open>setup\<close>, the two time bounds and the clock
    that converts cycles to nanoseconds, or the division by zero when both bounds are one cycle.
  \<^item> \<open>Sliding_Window\<close>: the tables \<open>sliding_window\<close> and \<open>ipc_spans\<close> of \<open>time_series_prep\<close>.
    \<open>Cycle_Density\<close>: the specification they are measured against, the instructions each cycle
    carries. \<open>Window_Lemmas\<close>, \<open>Window_Spans\<close>: the rows of the joins and the columns computed from
    them. \<open>Window_Props\<close>: the properties.
  \<^item> \<open>Call_Hierarchy\<close>: the recursive query of \<open>events_prep\<close>, as a partial function; when it returns
    and what it returns. \<open>Syscalls\<close>: its grouping into system calls. \<open>Events\<close>, \<open>Event_Props\<close>: context
    switches, stretches on the CPU, the assertion (also stated without joins, on marks on the time line), trace
    overflows, and \<open>events_prep\<close> as a whole.
  \<^item> \<open>Cdf\<close>: \<open>cdf_prep\<close>, in exact and in single-precision arithmetic.
  \<^item> \<open>Sql_Util\<close>: \<open>SqlUtil\<close> as an object: its methods as steps on connection, attributes and
    database, and sessions as a step relation. \<open>Util_Props\<close>: the state every session leaves, as a
    function of the log of its calls.
  \<^item> \<open>Export_Args\<close>: the command line. \<open>Export_Schema\<close>: the CREATE TABLE and CREATE VIEW statements
    as data, name resolution, and their execution; \<open>Name_Resolution\<close>, \<open>Schema_Props\<close>: they run
    without error under every configuration. \<open>Export_Views\<close>: the rows a view returns.
  \<^item> \<open>Export_Decode\<close>: the byte-level decoders of power events. \<open>Export_Collect\<close>: all callbacks as
    functions on the record of the module's lists, with the contract \<open>table_callback\<close>;
    \<open>Collect_Props\<close>: the lists are the log of the trace.
  \<^item> \<open>Export_End\<close>: \<open>insert_data\<close>, \<open>drop\<close>, \<open>trace_end\<close>, and \<open>export\<close>, the whole script.
    \<open>End_Props\<close>, \<open>Export_Props\<close>, \<open>Export_Whole\<close>: what is in the database at the end, and when the
    script fails.
  \<^item> \<open>Analysis_Input\<close>: the rows \<open>SqlUtil\<close> reads of the exporter's database, and the same rows
    stated on the tuples perf passes. \<open>Exported_Data\<close>: the cells of the exported tables;
    \<open>Analysis_Input_Props\<close> (samples) and \<open>Traced_Calls\<close> (calls, errors): both agree. \<open>Pipeline\<close>:
    what follows for the analysis. \<open>Joined_Views\<close>: the views that join tables in their FROM clause,
    and the context switches \<open>pt.ipynb\<close> reads of one. The properties of this theory span exporter
    and analysis.
  \<^item> \<open>Harness\<close>, \<open>Harness_Props\<close>: paths, command lines, processes and \<open>Trial.run\<close> as effects on a
    world of directories, open files and processes; \<open>main\<close> up to the error it always ends in, and
    its remaining statements for the object they were written for.
  \<^item> \<open>Notebook\<close>, \<open>Notebook_Props\<close>: the data each cell of \<open>pt.ipynb\<close> computes before it plots.
    \<open>Plot_Calls\<close>: what its cells draw, as the list of calls to matplotlib and the error they stop
    with. \<open>Timeline\<close>: the two plotting cells of \<open>pt.ipy\<close>, on the \<open>SqlUtil\<close> object its calls have
    prepared; \<open>Timeline_Props\<close>: when they draw everything, and whether the legend is right.

  Parameters. \<open>pick\<close> is the row an ASOF join takes (any choice of a least row), \<open>fl\<close> the rounding
  of REAL arithmetic, \<open>conv\<close> how the driver converts a data-frame column to a table column
  (\<open>faithful\<close>: integers and strings stored in columns of their type come back unchanged), \<open>hp\<close> the
  outcome of the \<open>printf\<close> probe, \<open>sql_functions\<close> the rendering of addresses and of IPC in views,
  \<open>can_open\<close> whether a file can be opened, \<open>harness_env\<close> what the operating system and docker do,
  \<open>order_by_name\<close> how rows of equal name are ordered.

  Partiality. \<open>hierarchy_from\<close> is a \<open>partial_function\<close>, because DuckDB evaluates the recursive query
  level by level without a bound; \<open>hierarchy_terminates_iff\<close> says when it returns. \<open>call_stack\<close> walks
  to at most as many callers as there are calls (its fuel is that number plus one), which
  \<open>group_hierarchy\<close> shows to be enough whenever the query returns. \<open>run_trial\<close> is \<open>None\<close> if the last
  wait does not return. Every other loop is structural.

  Not modelled. Printing, timing and \<open>to_string\<close> of error messages; the transaction behaviour of the
  database on an exception (an error ends the model's run) and concurrent connections; what matplotlib
  does with the calls it gets, the outputs stored in the notebook, and the two scripts it reads that
  the repository does not contain; \<open>overlapping.py\<close>, a signature with two comments; \<open>ovf_errors.sql\<close>,
  which no program runs; the Go, Rust and Java programs of the repository, which are separate
  executables in other languages.
\<close>

section \<open>From the trace to the time axis\<close>

text \<open>C7: What \<open>SqlUtil\<close> reads is what perf passed. After an export of well-typed tuples its samples are the
  traced ones in order, with the names perf gave to their ids, their ids unique and their counts not
  negative, and it reads a table of the traced errors exactly if there was one. It reads tables of
  calls exactly if the export was asked for calls, with unique keys; and they are the traced calls,
  call paths, symbols and dsos exactly if the trace has no \<open>ptwrite\<close> event, whose rows the exporter
  files under the calls.\<close>

theorem analysis_reads_trace:
  assumes "faithful conv" and "export can_open conv hp argv evs = Inr db" and "start_export can_open argv = Inr cfg"
    and "well_typed evs" and "counts_nonneg evs" and "calls_typed evs"
  shows "samples_input F db = Some (samples_spec evs) \<and> samples_ok (samples_spec evs)
    \<and> (if perf_db_export_calls cfg
       then (calls_input F db = Some (calls_spec evs) \<longleftrightarrow> no_ptwrite evs)
         \<and> (\<forall>T. calls_input F db = Some T \<longrightarrow> keys_unique T)
       else calls_input F db = None)
    \<and> errors_input F db = errors_spec evs"
proof -
  have "calls_input F db = Some (calls_spec evs) \<longleftrightarrow> no_ptwrite evs" if "perf_db_export_calls cfg"
    using calls_input_exported [OF assms(1,2,6,3) that] calls_input_ptwrite [OF assms(1-3) that] by blast
  then show ?thesis
    using samples_input_exported(1) [OF assms(1,2,4)] exported_samples_ok [OF assms(1,2,4,5)] exported_keys [OF assms(1,2)]
      no_calls_input [OF assms(1-3)] errors_input_exported [OF assms(1,2,6)]
    by simp
qed

lemma demo_trace_typed: "well_typed demo_trace" "counts_nonneg demo_trace" "calls_typed demo_trace" "no_ptwrite demo_trace"
  by (simp_all add: calls_typed_def no_ptwrite_def is_ptwrite_def typed_tuple_def symbols_columns_def calls_columns_def call_paths_columns_def
      pk_def col_def well_typed_def counts_nonneg_def demo_trace_def tuples_def sample_tuple_def name_tuple_def
      ints_def cell_int_def)

lemma demo_trace_samples:
  "map (\<lambda>s. (vid s, vtime s, v_cyc_count s, v_event s, v_symbol s, v_branch_type_name s)) (samples_spec demo_trace) =
     [(0, 0, 0, Some ''unknown'', Some ''unknown'', None),
      (1, 100, 1, Some ''branches'', Some ''main'', Some ''jmp''),
      (2, 30060, 3, Some ''branches'', Some ''unknown'', None),
      (3, 60000, 5, Some ''branches'', Some ''main'', Some ''jmp'')]"
  by (simp add: samples_spec_def sample_spec_def names_in_def demo_trace_def tuples_def ints_def cell_int_def cell_str_def)

lemma demo_argv_start: "start_export (\<lambda>_. False) demo_argv = Inr (demo_cfg True True False)"
  by (simp add: demo_argv_def demo_start)

theorem analysis_reads_trace_witness:
  "\<exists>db S T. export (\<lambda>_. False) demo_conv False demo_argv demo_trace = Inr db
     \<and> samples_input demo_functions db = Some S \<and> map v_symbol S = [Some ''unknown'', Some ''main'', Some ''unknown'', Some ''main'']
     \<and> calls_input demo_functions db = Some T \<and> map cid (t_calls T) = [0, 1] \<and> errors_input demo_functions db = None"
proof -
  obtain db where db: "export (\<lambda>_. False) demo_conv False demo_argv demo_trace = Inr db"
    using demo_trace_export by blast
  have "map v_symbol (samples_spec demo_trace) = [Some ''unknown'', Some ''main'', Some ''unknown'', Some ''main'']"
    using arg_cong [OF demo_trace_samples, of "map (\<lambda>(a, b, m, e, s, t). s)"] by (simp add: comp_def)
  moreover have "errors_spec demo_trace = None" by (simp add: errors_spec_def demo_trace_def tuples_def)
  moreover have "map cid (t_calls (calls_spec demo_trace)) = [0, 1]"
    by (simp add: calls_spec_def call_spec_def demo_trace_def tuples_def ints_def cell_int_def)
  ultimately show ?thesis
    using analysis_reads_trace [OF demo_conv_faithful db demo_argv_start demo_trace_typed(1-3), of demo_functions]
      demo_trace_typed(4) db
    by (intro exI [of _ db] exI [of _ "samples_spec demo_trace"] exI [of _ "calls_spec demo_trace"] conjI)
      (simp_all add: demo_cfg_def)
qed

text \<open>C8: No traced cycle is lost on the way to the time axis: after an export, \<open>SqlUtil.setup\<close> makes one range per
  sample that carries a count, and its last range ends at the total of the cycles and instructions
  perf passed.\<close>

theorem traced_cycles_conserved:
  assumes "faithful conv" and "export can_open conv hp argv evs = Inr db" and "well_typed evs" and "counts_nonneg evs"
  shows "\<exists>rs. timestamped (database (snd (run_setup True (open_util F db)))) = Some rs
    \<and> length rs = length (filter counted (tuples T_samples evs))
    \<and> (rs \<noteq> [] \<longrightarrow> end_cum_cyc (last rs) = (\<Sum>x\<leftarrow>filter counted (tuples T_samples evs). cell_int (x ! 23))
         \<and> end_cum_insns (last rs) = (\<Sum>x\<leftarrow>filter counted (tuples T_samples evs). cell_int (x ! 22)))"
proof -
  have "timestamped (database (snd (run_setup True (open_util F db)))) = Some (timestamped_ranges (samples_spec evs))"
    by (rule setup_ranges) (simp_all add: samples_input_exported(1) [OF assms(1-3)])
  moreover note ranges_totals [OF exported_samples_ok [OF assms]]
  ultimately show ?thesis by (simp add: ranges_t1_spec comp_def sample_spec_def)
qed

theorem traced_cycles_conserved_witness:
  "\<exists>db rs. export (\<lambda>_. False) demo_conv False demo_argv demo_trace = Inr db
     \<and> timestamped (database (snd (run_setup True (open_util demo_functions db)))) = Some rs
     \<and> length rs = 3 \<and> end_cum_cyc (last rs) = 9"
proof -
  obtain db where db: "export (\<lambda>_. False) demo_conv False demo_argv demo_trace = Inr db"
    using demo_trace_export by blast
  have "length (filter counted (tuples T_samples demo_trace)) = 3"
    "(\<Sum>x\<leftarrow>filter counted (tuples T_samples demo_trace). cell_int (x ! 23)) = 9"
    by (simp_all add: counted_def demo_trace_def tuples_def ints_def cell_int_def)
  with traced_cycles_conserved [OF demo_conv_faithful db demo_trace_typed(1,2), of demo_functions] db show ?thesis
    by (metis list.size(3) zero_neq_numeral)
qed

text \<open>C11: The whole program: on the database of an export with calls, of a trace of well-typed tuples without
  \<open>ptwrite\<close> events, the notebook's sequence of methods runs
  without an error exactly when the analysis, composed of its parts and applied to what perf passed,
  has no error; and then its tables, clock and flag are those of that composition.\<close>

theorem traced_notebook_runs:
  assumes "faithful conv" and "export can_open conv hp argv evs = Inr db" and "start_export can_open argv = Inr cfg"
    and "perf_db_export_calls cfg" and "well_typed evs" and "calls_typed evs" and "no_ptwrite evs"
  defines "rs \<equiv> timestamped_ranges (samples_spec evs)"
  shows "run_calls pick True (notebook_calls k) (open_util F db) = Some (None, u) \<longleftrightarrow>
    (\<exists>tb out ck ev. util_setup f64 k rs = Inr tb \<and> ipc_spans pick f32 (window_size_cyc k) rs = Inr out
       \<and> clock_of f64 tb = Inr ck
       \<and> events_prep pick (start_ns ck) (end_ns ck) (calls_spec evs) (errors_spec evs) rs no_events = Some (None, ev)
       \<and> u = pure_result pick k (samples_spec evs) (calls_spec evs) (errors_spec evs) tb out ck ev)" (is "?run \<longleftrightarrow> ?pure")
proof -
  have u: "open_util F db = fresh_util (Some (samples_spec evs)) (Some (calls_spec evs)) (errors_spec evs)"
    using samples_input_exported(1) [OF assms(1,2,5)] calls_input_exported [OF assms(1,2,6,3,4,7)]
      errors_input_exported [OF assms(1,2,6)]
    by (simp add: open_util_def)
  show ?thesis
  proof
    assume ?run
    then show ?pure unfolding u rs_def by (rule notebook_pure) auto
  next
    assume ?pure
    then show ?run unfolding u rs_def by (elim exE conjE) (simp add: notebook_runs)
  qed
qed

lemma demo_trace_ranges:
  "map (\<lambda>r. (end_time r, end_cum_cyc r)) (timestamped_ranges (samples_spec demo_trace)) = [(100, 1), (30060, 4), (60000, 9)]"
  by (simp add: timestamped_ranges_def ranges_t1_spec ranges_t2_def ranges_t3_def counted_def sample_spec_def
      demo_trace_def tuples_def ints_def cell_int_def sql_min_def cum_of_def view_row.extend_def lag1_def range_of_def
      numeral_eq_Suc range_sum_def)

lemma demo_trace_analysis:
  "\<exists>u. run_calls pick_first True (notebook_calls demo_util_config)
       (fresh_util (Some (samples_spec demo_trace)) (Some (calls_spec demo_trace)) None) = Some (None, u)"
proof -
  let ?rs = "timestamped_ranges (samples_spec demo_trace)" and ?T = "calls_spec demo_trace"
  have "util_setup f64 demo_util_config ?rs = util_setup f64 demo_util_config (timestamped_ranges demo_session_samples)"
    by (rule time_bounds_cong) (simp only: demo_trace_ranges demo_session_ranges)
  note tb = this [unfolded demo_session_setup]
  have "ranges_ok 0 0 ?rs"
    by (rule timestamped_ranges_ok)
      (simp_all add: samples_ok_def cycles_positive_def samples_spec_def sample_spec_def demo_trace_def tuples_def
        ints_def cell_int_def)
  moreover have "end_cum_cyc r + 2000 < 2 ^ 63 \<and> 0 \<le> end_time r \<and> end_time r < 2 ^ 64" if "r \<in> set ?rs" for r
  proof -
    have "(end_time r, end_cum_cyc r) \<in> set (map (\<lambda>r. (end_time r, end_cum_cyc r)) ?rs)" using that by auto
    then show ?thesis unfolding demo_trace_ranges by auto
  qed
  ultimately obtain out where "ipc_spans pick_first f32 2000 ?rs = Inr out"
    using first_engine.ipc_spans_total [of ?rs 2000 f32] by auto
  then have spans: "ipc_spans pick_first f32 (window_size_cyc demo_util_config) ?rs = Inr out"
    by (simp add: demo_util_config_def)
  have "full_syscalls 30050 45050 ?T = Some []" "event_switches pick_first ?T = []"
    by code_simp+
  then obtain ev where "events_prep pick_first (start_ns demo_clock) (end_ns demo_clock) ?T None ?rs no_events = Some (None, ev)"
    by (simp add: events_prep_returns on_cpu_syscalls_def range_starts_def in_view_context_switches_def demo_clock_def)
  from notebook_runs [OF tb spans demo_clock_of_f64 this] show ?thesis by blast
qed

lemma demo_trace_runs:
  "\<exists>db u. export (\<lambda>_. False) demo_conv False demo_argv demo_trace = Inr db
     \<and> run_calls pick_first True (notebook_calls demo_util_config) (open_util demo_functions db) = Some (None, u)"
proof -
  obtain db where db: "export (\<lambda>_. False) demo_conv False demo_argv demo_trace = Inr db"
    using demo_trace_export by blast
  have calls: "perf_db_export_calls (demo_cfg True True False)" by (simp add: demo_cfg_def)
  have "errors_spec demo_trace = None" by (simp add: errors_spec_def demo_trace_def tuples_def)
  then have "open_util demo_functions db = fresh_util (Some (samples_spec demo_trace)) (Some (calls_spec demo_trace)) None"
    using samples_input_exported(1) [OF demo_conv_faithful db demo_trace_typed(1)]
      calls_input_exported [OF demo_conv_faithful db demo_trace_typed(3) demo_argv_start calls demo_trace_typed(4)]
      errors_input_exported [OF demo_conv_faithful db demo_trace_typed(3)]
    by (simp add: open_util_def)
  with demo_trace_analysis db show ?thesis by metis
qed

theorem traced_notebook_runs_witness:
  "\<exists>db u tb. export (\<lambda>_. False) demo_conv False demo_argv demo_trace = Inr db
     \<and> run_calls pick_first True (notebook_calls demo_util_config) (open_util demo_functions db) = Some (None, u)
     \<and> util_setup f64 demo_util_config (timestamped_ranges (samples_spec demo_trace)) = Inr tb"
proof -
  obtain db u where db: "export (\<lambda>_. False) demo_conv False demo_argv demo_trace = Inr db"
    and u: "run_calls pick_first True (notebook_calls demo_util_config) (open_util demo_functions db) = Some (None, u)"
    using demo_trace_runs by blast
  have calls: "perf_db_export_calls (demo_cfg True True False)" by (simp add: demo_cfg_def)
  from iffD1 [OF traced_notebook_runs [OF demo_conv_faithful db demo_argv_start calls demo_trace_typed(1,3,4)] u] db u
  show ?thesis by blast
qed

text \<open>C12: From perf to the plots: if the trace has no \<open>ptwrite\<close> event and every traced call has a traced
  symbol, then whenever the preparation of \<open>pt.ipy\<close> has run on the exported database its time-series
  cell draws all its plots without an error.\<close>

theorem traced_timeline:
  assumes "faithful conv" and "export can_open conv hp argv evs = Inr db" and "start_export can_open argv = Inr cfg"
    and "perf_db_export_calls cfg" and "calls_typed evs" and "no_ptwrite evs" and "asof_engine pick"
    and "\<forall>c\<in>set (t_calls (calls_spec evs)). frame_symbol (calls_spec evs) c \<noteq> None"
    and "run_calls pick found (notebook_calls k) (open_util F db) = Some (None, u)"
    and "\<forall>xs. set (order_by_name xs) = set xs"
  shows "\<exists>g. snd (time_series_cell u order_by_name) = Inr g"
proof -
  have calls: "calls_input F db = Some (calls_spec evs)" by (rule calls_input_exported [OF assms(1,2,5,3,4,6)])
  have "keys_unique (calls_spec evs)" using exported_keys [OF assms(1,2)] calls by simp
  from timeline_named [OF assms(7) _ this assms(8,10)] assms(9) calls show ?thesis
    by (simp add: open_util_def)
qed

theorem traced_timeline_witness:
  "\<exists>db u g. export (\<lambda>_. False) demo_conv False demo_argv demo_trace = Inr db
     \<and> run_calls pick_first True (notebook_calls demo_util_config) (open_util demo_functions db) = Some (None, u)
     \<and> snd (time_series_cell u (\<lambda>xs. xs)) = Inr g"
proof -
  obtain db u where db: "export (\<lambda>_. False) demo_conv False demo_argv demo_trace = Inr db"
    and u: "run_calls pick_first True (notebook_calls demo_util_config) (open_util demo_functions db) = Some (None, u)"
    using demo_trace_runs by blast
  have calls: "perf_db_export_calls (demo_cfg True True False)" by (simp add: demo_cfg_def)
  have "list_all (\<lambda>c. frame_symbol (calls_spec demo_trace) c \<noteq> None) (t_calls (calls_spec demo_trace))"
    by code_simp
  then have named: "\<forall>c\<in>set (t_calls (calls_spec demo_trace)). frame_symbol (calls_spec demo_trace) c \<noteq> None"
    by (simp only: list_all_iff)
  from traced_timeline [OF demo_conv_faithful db demo_argv_start calls demo_trace_typed(3,4) first_engine.asof_engine_axioms
      named u, of "\<lambda>xs. xs"] db u show ?thesis by blast
qed

section \<open>From the analysis back to the exporter's views\<close>

text \<open>C25: \<open>events_prep\<close> breaks exactly one of the exporter's views: once it has replaced the table
  \<open>context_switches\<close>, \<open>context_switches_view\<close> no longer binds, and every other view still does.\<close>

theorem events_prep_breaks_view:
  assumes "export can_open conv hp argv evs = Inr db" and "views db n = Some v"
  shows "binds (replace_context_switches sws db) v \<longleftrightarrow> n \<noteq> ''context_switches_view''"
proof -
  obtain cfg where v: "(n, v) \<in> set (view_statements hp cfg)" using exported_views(2) [OF assms] by blast
  show ?thesis
  proof (cases "n = ''context_switches_view''")
    case True
    then show ?thesis using v switches_view_stated switches_view_broken by blast
  next
    case False
    then have "''context_switches'' \<notin> set (relations v)" using views_reading_switches [OF v] by blast
    from replaced_binds [OF this] exported_views(1) [OF assms] False show ?thesis by blast
  qed
qed

theorem events_prep_breaks_view_witness:
  "\<exists>db. export (\<lambda>_. False) demo_conv False demo_argv demo_trace = Inr db
     \<and> views db ''context_switches_view'' = Some context_switches_view
     \<and> \<not> binds (replace_context_switches [] db) context_switches_view"
proof -
  obtain db where db: "export (\<lambda>_. False) demo_conv False demo_argv demo_trace = Inr db"
    using demo_trace_export by blast
  from events_prep_breaks_view [OF db demo_switches_view [OF db]] demo_switches_view [OF db] db show ?thesis by blast
qed

end
